(* ===== verification/Prelude.thy ===== *)
theory Prelude
  imports Main "HOL-Library.Word" "HOL-Library.Monad_Syntax" "HOL-Library.Code_Target_Numeral"
begin

unbundle bit_operations_syntax

text \<open>
  What the components share: C integer types, byte-addressed memory whose accesses fail
  outside the object, little-endian integer layout, and the simplification collections
  the component proofs are run with.

  A C object in memory is a list of bytes. \<open>mem_read\<close> and \<open>mem_write\<close> return
  \<open>None\<close> when the access leaves the object: in C that access is undefined behaviour, so
  a model that returns \<open>Some\<close> is one in which it never happens. Integers stored in an
  object are laid out little-endian, as on the targets the queue file format is tested for
  (test/queue.test.cpp); \<^verbatim>\<open>size_t\<close> has 64 bits and \<^verbatim>\<open>int\<close> has 32.
\<close>

section \<open>C types\<close>

type_synonym byte = "8 word"
type_synonym u32 = "32 word"
type_synonym u64 = "64 word"

text \<open>A \<^verbatim>\<open>uint32_t\<close> or \<^verbatim>\<open>size_t\<close> kept as a natural number: the wrap-around of an assignment.\<close>

definition u32_of :: "nat \<Rightarrow> nat" where
  "u32_of x = x mod 2 ^ 32"

definition u64_of :: "nat \<Rightarrow> nat" where
  "u64_of x = x mod 2 ^ 64"

text \<open>Signed 32-bit arithmetic: C leaves a result outside the range undefined.\<close>

definition INT_MIN :: int where "INT_MIN = - (2 ^ 31)"
definition INT_MAX :: int where "INT_MAX = 2 ^ 31 - 1"

definition int_of_c :: "int \<Rightarrow> int option" where
  "int_of_c x = (if INT_MIN \<le> x \<and> x \<le> INT_MAX then Some x else None)"

text \<open>C division truncates towards zero.\<close>

definition c_div :: "int \<Rightarrow> int \<Rightarrow> int" where
  "c_div a b = sgn a * sgn b * (\<bar>a\<bar> div \<bar>b\<bar>)"

definition c_mod :: "int \<Rightarrow> int \<Rightarrow> int" where
  "c_mod a b = a - c_div a b * b"

lemma u32_of_less [simp]: "u32_of x < 2 ^ 32"
  by (simp add: u32_of_def)

lemma u32_of_id: "x < 2 ^ 32 \<Longrightarrow> u32_of x = x"
  by (simp add: u32_of_def)

lemma u32_of_idem [simp]: "u32_of (u32_of x) = u32_of x"
  by (simp add: u32_of_def)

lemma u64_of_id: "x < 2 ^ 64 \<Longrightarrow> u64_of x = x"
  by (simp add: u64_of_def)

lemma u64_of_idem [simp]: "u64_of (u64_of x) = u64_of x"
  by (simp add: u64_of_def)

lemma c_div_nonneg: "0 \<le> a \<Longrightarrow> 0 < b \<Longrightarrow> c_div a b = a div b"
  by (cases "a = 0") (simp_all add: c_div_def)

lemma c_mod_nonneg: "0 \<le> a \<Longrightarrow> 0 < b \<Longrightarrow> c_mod a b = a mod b"
  by (simp add: c_mod_def c_div_nonneg minus_div_mult_eq_mod)

section \<open>Memory\<close>

named_theorems mem_simps \<open>reading back what was written, and the accesses it leaves alone\<close>

definition mem_read :: "byte list \<Rightarrow> nat \<Rightarrow> nat \<Rightarrow> byte list option" where
  "mem_read m off n = (if off + n \<le> length m then Some (take n (drop off m)) else None)"

definition mem_write :: "byte list \<Rightarrow> nat \<Rightarrow> byte list \<Rightarrow> byte list option" where
  "mem_write m off bs =
     (if off + length bs \<le> length m
      then Some (take off m @ bs @ drop (off + length bs) m) else None)"

definition load8 :: "byte list \<Rightarrow> nat \<Rightarrow> byte option" where
  "load8 m off = (if off < length m then Some (m ! off) else None)"

lemma length_mem_read: "mem_read m off n = Some bs \<Longrightarrow> length bs = n"
  by (auto simp: mem_read_def split: if_splits)

lemma mem_read_None_iff: "mem_read m off n = None \<longleftrightarrow> length m < off + n"
  by (auto simp: mem_read_def)

lemma load8_None_iff: "load8 m off = None \<longleftrightarrow> length m \<le> off"
  by (auto simp: load8_def)

lemma mem_write_SomeD:
  "mem_write m off bs = Some m' \<Longrightarrow>
     off + length bs \<le> length m \<and> m' = take off m @ bs @ drop (off + length bs) m"
  by (auto simp: mem_write_def split: if_splits)

lemma mem_write_Some:
  "off + length bs \<le> length m \<Longrightarrow>
     mem_write m off bs = Some (take off m @ bs @ drop (off + length bs) m)"
  by (simp add: mem_write_def)

lemma length_mem_write [mem_simps]: "mem_write m off bs = Some m' \<Longrightarrow> length m' = length m"
  by (auto simp: mem_write_def split: if_splits)

text \<open>A write is characterised byte by byte; everything else about it follows.\<close>

lemma nth_mem_write:
  assumes "mem_write m off bs = Some m'" and "i < length m"
  shows "m' ! i = (if off \<le> i \<and> i < off + length bs then bs ! (i - off) else m ! i)"
  using assms by (auto simp: mem_write_def nth_append min_def split: if_splits)

lemma mem_read_nth:
  assumes "length m = length m'" and "\<And>i. off \<le> i \<Longrightarrow> i < off + n \<Longrightarrow> i < length m \<Longrightarrow> m ! i = m' ! i"
  shows "mem_read m off n = mem_read m' off n"
proof (cases "off + n \<le> length m")
  case True
  have "take n (drop off m) = take n (drop off m')"
    by (rule nth_equalityI) (use True assms in auto)
  with assms(1) show ?thesis by (simp add: mem_read_def)
qed (use assms(1) in \<open>simp add: mem_read_def\<close>)

lemma mem_read_write_same:
  "mem_write m off bs = Some m' \<Longrightarrow> mem_read m' off (length bs) = Some bs"
  by (auto simp: mem_write_def mem_read_def split: if_splits)

lemma mem_read_write_inside:
  assumes "mem_write m off bs = Some m'" and "off \<le> a" and "a + n \<le> off + length bs"
  shows "mem_read m' a n = Some (take n (drop (a - off) bs))"
proof -
  from assms(1) have l: "off + length bs \<le> length m" and m': "length m' = length m"
    by (auto dest: mem_write_SomeD simp: mem_simps)
  have "take n (drop a m') = take n (drop (a - off) bs)"
    by (rule nth_equalityI) (use l m' assms in \<open>auto simp: nth_mem_write [OF assms(1)]\<close>)
  with l m' assms(3) show ?thesis by (simp add: mem_read_def)
qed

lemma mem_read_write_other:
  assumes "mem_write m off bs = Some m'" and "a + n \<le> off \<or> off + length bs \<le> a"
  shows "mem_read m' a n = mem_read m a n"
proof (rule mem_read_nth)
  show "length m' = length m" using assms(1) by (rule length_mem_write)
next
  fix i assume i: "a \<le> i" "i < a + n" "i < length m'"
  with assms(1) have "i < length m" by (simp add: length_mem_write)
  with i assms(2) show "m' ! i = m ! i" by (auto simp: nth_mem_write [OF assms(1)])
qed

lemma load8_write_other:
  assumes "mem_write m off bs = Some m'" and "a < off \<or> off + length bs \<le> a"
  shows "load8 m' a = load8 m a"
  using assms by (auto simp: load8_def length_mem_write [OF assms(1)] nth_mem_write [OF assms(1)])

lemma load8_write_inside:
  assumes "mem_write m off bs = Some m'" and "off \<le> a" and "a < off + length bs"
  shows "load8 m' a = Some (bs ! (a - off))"
proof -
  have "a < length m" using mem_write_SomeD [OF assms(1)] assms(3) by simp
  with assms show ?thesis
    by (simp add: load8_def length_mem_write [OF assms(1)] nth_mem_write [OF assms(1)])
qed

section \<open>Little-endian integers\<close>

lemma unat_lt2p_8: "unat (b :: byte) < 256"
  using unsigned_less [of b] by simp

fun nat_le :: "nat \<Rightarrow> nat \<Rightarrow> byte list" where
  "nat_le 0 x = []"
| "nat_le (Suc n) x = word_of_nat x # nat_le n (x div 256)"

fun le_nat :: "byte list \<Rightarrow> nat" where
  "le_nat [] = 0"
| "le_nat (b # bs) = unat b + 256 * le_nat bs"

lemma length_nat_le [simp]: "length (nat_le n x) = n"
  by (induction n x rule: nat_le.induct) simp_all

lemma le_nat_bound: "le_nat bs < 256 ^ length bs"
proof (induction bs)
  case (Cons b bs)
  have "unat b < 256" using unat_lt2p_8 [of b] .
  with Cons show ?case by simp
qed simp

lemma le_nat_nat_le: "le_nat (nat_le n x) = x mod 256 ^ n"
proof (induction n arbitrary: x)
  case (Suc n)
  have "le_nat (nat_le (Suc n) x) = x mod 256 + 256 * (x div 256 mod 256 ^ n)"
    by (simp add: Suc unat_of_nat)
  also have "\<dots> = x mod (256 * 256 ^ n)"
    by (simp add: mod_mult2_eq)
  finally show ?case by simp
qed simp

lemma nat_le_le_nat: "length bs = n \<Longrightarrow> nat_le n (le_nat bs) = bs"
proof (induction bs arbitrary: n)
  case (Cons b bs)
  from unat_lt2p_8 [of b] have "(unat b + 256 * le_nat bs) div 256 = le_nat bs" by simp
  moreover have "(unat b + 256 * le_nat bs) mod 2 ^ LENGTH(8) = unat b" by (simp add: unat_lt2p_8)
  then have "word_of_nat (unat b + 256 * le_nat bs) = b"
    by (simp only: word_unat_eq_iff unat_of_nat)
  ultimately show ?case using Cons by auto
qed simp

definition load32 :: "byte list \<Rightarrow> nat \<Rightarrow> nat option" where
  "load32 m off = map_option le_nat (mem_read m off 4)"

definition store32 :: "byte list \<Rightarrow> nat \<Rightarrow> nat \<Rightarrow> byte list option" where
  "store32 m off x = mem_write m off (nat_le 4 x)"

lemma load32_less: "load32 m off = Some x \<Longrightarrow> x < 2 ^ 32"
  using le_nat_bound [of "take 4 (drop off m)"]
  by (auto simp: load32_def mem_read_def split: if_splits)

lemma load32_None_iff: "load32 m off = None \<longleftrightarrow> length m < off + 4"
  by (simp add: load32_def mem_read_None_iff)

lemma load32_store32: "store32 m off x = Some m' \<Longrightarrow> x < 2 ^ 32 \<Longrightarrow> load32 m' off = Some x"
  using mem_read_write_same [of m off "nat_le 4 x" m']
  by (simp add: store32_def load32_def le_nat_nat_le)

section \<open>C strings\<close>

text \<open>
  A C string is the list of the characters before its terminating NUL; \<open>c_bytes\<close> are the
  bytes they occupy, so \<^verbatim>\<open>strlen\<close> is the length of either.
\<close>

definition c_bytes :: "string \<Rightarrow> byte list" where
  "c_bytes s = map of_char s"

lemma length_c_bytes [simp]: "length (c_bytes s) = length s"
  by (simp add: c_bytes_def)

text \<open>The C string at the start of an array of characters.\<close>

definition c_str :: "string \<Rightarrow> string" where
  "c_str s = takeWhile (\<lambda>c. c \<noteq> CHR 0x00) s"

lemma c_str_id: "CHR 0x00 \<notin> set s \<Longrightarrow> c_str s = s"
  by (auto simp: c_str_def takeWhile_eq_all_conv)

section \<open>Alignment\<close>

text \<open>\<^verbatim>\<open>TICOS_ALIGN_UP\<close> (include/ticos/core/math.h) on 64-bit operands.\<close>

definition TICOS_ALIGN_UP :: "nat \<Rightarrow> nat \<Rightarrow> nat" where
  "TICOS_ALIGN_UP sz alignment =
     unat ((word_of_nat sz + (word_of_nat alignment - 1)) AND NOT (word_of_nat alignment - 1) :: u64)"

lemma and_not_eq: "x AND NOT m = x - (x AND m)" for x m :: "'a::len word"
proof -
  have "(x AND m) + (x AND NOT m) = (x AND m) OR (x AND NOT m)"
    by (rule disjunctive_add) (simp add: bit_simps)
  also have "\<dots> = x" by (rule bit_word_eqI) (auto simp: bit_simps)
  finally show ?thesis by (simp add: algebra_simps)
qed

text \<open>The result is between the size and the size plus the alignment, even for an alignment that is no power of two.\<close>

lemma align_up_bounds:
  assumes "0 < a" and "sz + a \<le> 2 ^ 64" and "a < 2 ^ 64"
  shows "sz \<le> TICOS_ALIGN_UP sz a" and "TICOS_ALIGN_UP sz a < sz + a"
proof -
  let ?m = "word_of_nat a - 1 :: u64" and ?x = "word_of_nat sz + (word_of_nat a - 1) :: u64"
  have m: "?m = word_of_nat (a - 1)" using assms(1) by (simp add: of_nat_diff)
  have x: "?x = word_of_nat (sz + (a - 1))" unfolding m by simp
  have um: "unat ?m = a - 1" unfolding m unat_of_nat using assms by simp
  have ux: "unat ?x = sz + (a - 1)" unfolding x unat_of_nat using assms by simp
  have le: "?x AND ?m \<le> ?x" "?x AND ?m \<le> ?m" by (simp_all add: word_and_le1 word_and_le2)
  have "TICOS_ALIGN_UP sz a = unat ?x - unat (?x AND ?m)"
    unfolding TICOS_ALIGN_UP_def and_not_eq by (rule unat_sub [OF le(1)])
  moreover have "unat (?x AND ?m) \<le> a - 1" using le(2) um by (simp add: word_le_nat_alt)
  ultimately show "sz \<le> TICOS_ALIGN_UP sz a" and "TICOS_ALIGN_UP sz a < sz + a"
    using ux assms(1) by linarith+
qed

lemma align_up_pow2: "TICOS_ALIGN_UP sz (2 ^ k) mod 2 ^ k = 0"
proof -
  let ?x = "word_of_nat sz + (word_of_nat (2 ^ k) - 1) :: u64"
  have "word_of_nat (2 ^ k) - 1 = (mask k :: u64)" by (simp add: mask_eq_exp_minus_1)
  then have "TICOS_ALIGN_UP sz (2 ^ k) = unat (?x AND NOT (mask k))" by (simp add: TICOS_ALIGN_UP_def)
  moreover have "?x AND NOT (mask k) = push_bit k (drop_bit k ?x)"
    by (rule bit_word_eqI) (auto simp: bit_simps)
  moreover have "take_bit k (push_bit k (drop_bit k ?x)) = 0" by (simp add: take_bit_push_bit)
  ultimately have "take_bit k (TICOS_ALIGN_UP sz (2 ^ k)) = 0" by (metis unsigned_take_bit_eq unsigned_0)
  then show ?thesis by (simp add: take_bit_eq_mod)
qed

lemma align_up_4:
  assumes "n < 2 ^ 63"
  shows "n \<le> TICOS_ALIGN_UP n 4" and "TICOS_ALIGN_UP n 4 \<le> n + 3" and "TICOS_ALIGN_UP n 4 mod 4 = 0"
  using align_up_bounds [of 4 n] align_up_pow2 [of n 2] assms by simp_all

end
