(* ===== verification/Queue.thy ===== *)
theory Queue
  imports Prelude
begin

text \<open>
  The transmit queue (src/queue.c): a ring of messages in a memory-mapped file or a heap
  buffer. The buffer is a list of bytes; the indices of the handle count 32-bit words, as in
  the code, and are natural numbers with the \<^verbatim>\<open>uint32_t\<close> wrap-around of each assignment
  written out (\<open>u32_of\<close>). Every read or write of the buffer is checked: \<open>None\<close> is an
  access outside the buffer or a loop that does not return, so \<open>Some\<close> in a theorem
  says that neither happens. Each public function holds the handle's mutex from its first to
  its last access, so an execution is a sequence of whole calls. \<^verbatim>\<open>msync\<close> does not
  change the contents and has no counterpart.
\<close>

section \<open>Data\<close>

record sTicosdQueue =
  is_file_backed :: bool
  qsize :: int
  buf :: "byte list"
  read_ptr :: nat
  write_ptr :: nat
  prev_ptr :: nat
  can_complete_read :: bool

record sTicosQueueMsgHeader =
  magic :: byte
  version :: byte
  crc :: byte
  flags :: byte
  prev_header :: nat
  payload_size_bytes :: nat

definition header_bytes :: "sTicosQueueMsgHeader \<Rightarrow> byte list" where
  "header_bytes hdr =
     [magic hdr, version hdr, crc hdr, flags hdr] @ nat_le 4 (prev_header hdr) @
     nat_le 4 (payload_size_bytes hdr)"

definition HEADER_LEN :: nat where "HEADER_LEN = 3"
definition HEADER_MAGIC_NUMBER :: byte where "HEADER_MAGIC_NUMBER = 0xa5"
definition HEADER_VERSION_NUMBER :: byte where "HEADER_VERSION_NUMBER = 0x01"
definition HEADER_FLAGS_FLAG_READ_MASK :: byte where "HEADER_FLAGS_FLAG_READ_MASK = 1"
definition END_POINTER :: nat where "END_POINTER = 0x5aa55aa5"
definition QUEUE_SIZE_MIN :: int where "QUEUE_SIZE_MIN = 12 + 4"
definition QUEUE_SIZE_MAX :: int where "QUEUE_SIZE_MAX = 1024 * 1024 * 1024"
definition QUEUE_SIZE_ALIGNMENT :: int where "QUEUE_SIZE_ALIGNMENT = 4"

text \<open>\<^verbatim>\<open>handle->size / sizeof(uint32_t)\<close>\<close>

definition qwords :: "sTicosdQueue \<Rightarrow> nat" where
  "qwords h = nat (qsize h) div 4"

section \<open>Operations\<close>

definition crc8_shift :: "byte \<Rightarrow> byte" where
  "crc8_shift c = drop_bit 1 (if c AND 1 \<noteq> 0 then c XOR 0x91 else c)"

definition crc8_byte :: "byte \<Rightarrow> byte \<Rightarrow> byte" where
  "crc8_byte c b = (crc8_shift ^^ 8) (c XOR b)"

definition prv_queue_crc8 :: "byte list \<Rightarrow> byte" where
  "prv_queue_crc8 data = foldl crc8_byte 0 data"

definition prv_bytes_to_words_round_up :: "nat \<Rightarrow> nat" where
  "prv_bytes_to_words_round_up size_bytes = u32_of (size_bytes + 3) div 4"

definition prv_get_next_message :: "sTicosdQueue \<Rightarrow> nat \<Rightarrow> nat option" where
  "prv_get_next_message h ptr = do {
     n \<leftarrow> load32 (buf h) (4 * ptr + 8);
     let next_ptr = u32_of (ptr + HEADER_LEN + prv_bytes_to_words_round_up n);
     if qwords h \<le> next_ptr then Some 0
     else do {
       w \<leftarrow> load32 (buf h) (4 * next_ptr);
       Some (if w = END_POINTER then 0 else next_ptr)
     }
   }"

definition prv_is_msg_in_bounds :: "sTicosdQueue \<Rightarrow> nat \<Rightarrow> bool option" where
  "prv_is_msg_in_bounds h ptr = do {
     n \<leftarrow> load32 (buf h) (4 * ptr + 8);
     Some (4 * ptr + 12 + n < nat (qsize h))
   }"

definition prv_is_msg_read :: "sTicosdQueue \<Rightarrow> nat \<Rightarrow> bool option" where
  "prv_is_msg_read h ptr = do {
     f \<leftarrow> load8 (buf h) (4 * ptr + 3);
     Some (f AND HEADER_FLAGS_FLAG_READ_MASK \<noteq> 0)
   }"

definition prv_is_msg_valid :: "sTicosdQueue \<Rightarrow> nat \<Rightarrow> bool option" where
  "prv_is_msg_valid h ptr = do {
     in_bounds \<leftarrow> prv_is_msg_in_bounds h ptr;
     if \<not> in_bounds then Some False
     else do {
       m \<leftarrow> load8 (buf h) (4 * ptr);
       if m \<noteq> HEADER_MAGIC_NUMBER then Some False
       else do {
         n \<leftarrow> load32 (buf h) (4 * ptr + 8);
         data \<leftarrow> mem_read (buf h) (4 * ptr + 12) n;
         c \<leftarrow> load8 (buf h) (4 * ptr + 2);
         Some (prv_queue_crc8 data = c)
       }
     }
   }"

text \<open>
  The two loops of \<^verbatim>\<open>prv_queue_find_read_write_ptr\<close>. The first walks forwards and
  returns the read, write and previous pointers; the second follows the \<^verbatim>\<open>prev_header\<close>
  links backwards.
\<close>

partial_function (option) find_forwards ::
  "sTicosdQueue \<Rightarrow> nat \<Rightarrow> nat \<Rightarrow> nat \<Rightarrow> bool \<Rightarrow> (nat \<times> nat \<times> nat) option" where
  "find_forwards h tmp rd prev last_read = do {
     valid \<leftarrow> prv_is_msg_valid h tmp;
     if \<not> valid then Some (if last_read then tmp else rd, tmp, prev)
     else do {
       is_msg_read \<leftarrow> prv_is_msg_read h tmp;
       if is_msg_read \<and> \<not> last_read then Some (rd, tmp, prev)
       else do {
         nxt \<leftarrow> prv_get_next_message h tmp;
         if nxt = 0 then Some (if \<not> is_msg_read \<and> last_read then tmp else rd, 0, tmp)
         else find_forwards h nxt (if \<not> is_msg_read \<and> last_read then tmp else rd) tmp is_msg_read
       }
     }
   }"

partial_function (option) find_backwards :: "sTicosdQueue \<Rightarrow> nat \<Rightarrow> nat option" where
  "find_backwards h rd = do {
     prev \<leftarrow> load32 (buf h) (4 * rd + 4);
     if prev = rd then Some rd
     else do {
       valid \<leftarrow> prv_is_msg_valid h prev;
       if \<not> valid then Some rd
       else do {
         r \<leftarrow> prv_is_msg_read h prev;
         if r then Some rd
         else if prev > 0 then find_backwards h prev
         else Some prev
       }
     }
   }"

definition prv_queue_find_read_write_ptr :: "sTicosdQueue \<Rightarrow> sTicosdQueue option" where
  "prv_queue_find_read_write_ptr h = do {
     (rd, wr, prev) \<leftarrow> find_forwards h 0 0 0 True;
     rd \<leftarrow> (if rd = 0 \<and> wr \<noteq> 0 then find_backwards h rd else Some rd);
     Some (h\<lparr>read_ptr := rd, write_ptr := wr, prev_ptr := prev\<rparr>)
   }"

definition prv_check_queue_size :: "int \<Rightarrow> bool \<times> int" where
  "prv_check_queue_size queue_size =
     (let queue_size =
        (if c_mod queue_size QUEUE_SIZE_ALIGNMENT \<noteq> 0
         then c_div queue_size QUEUE_SIZE_ALIGNMENT * QUEUE_SIZE_ALIGNMENT else queue_size)
      in if queue_size < QUEUE_SIZE_MIN then (False, queue_size)
         else if queue_size > QUEUE_SIZE_MAX then (False, queue_size)
         else (True, queue_size))"

text \<open>
  The environment of \<^verbatim>\<open>ticosd_queue_init\<close>: whether the mutex could be created, the
  generated file name, and what the system calls on the queue file answer.
  \<^verbatim>\<open>ftruncate\<close> cuts the file or extends it with zero bytes.
\<close>

record queue_env =
  mutex_ok :: bool
  queue_file :: "string option"
  open_ok :: bool
  ftruncate_ok :: bool
  mmap_ok :: bool
  file_bytes :: "byte list"

definition resize_file :: "nat \<Rightarrow> byte list \<Rightarrow> byte list" where
  "resize_file n bs = take n bs @ replicate (n - length bs) 0"

definition ticosd_queue_init :: "queue_env \<Rightarrow> int \<Rightarrow> sTicosdQueue option option" where
  "ticosd_queue_init env sz =
     (if \<not> mutex_ok env then Some None
      else
        let (ok, checked) = prv_check_queue_size sz;
            sz = (if \<not> ok then 1024 * 1024 else checked);
            mapped = (queue_file env \<noteq> None \<and> open_ok env \<and> ftruncate_ok env \<and> mmap_ok env);
            h = \<lparr>is_file_backed = mapped, qsize = sz,
                 buf = (if mapped then resize_file (nat sz) (file_bytes env)
                        else replicate (nat sz) 0),
                 read_ptr = 0, write_ptr = 0, prev_ptr = 0, can_complete_read = False\<rparr>
        in map_option Some (prv_queue_find_read_write_ptr h))"

definition ticosd_queue_reset :: "sTicosdQueue \<Rightarrow> sTicosdQueue option" where
  "ticosd_queue_reset h = do {
     b \<leftarrow> mem_write (buf h) 0 (replicate (HEADER_LEN * 4) 0);
     Some (h\<lparr>read_ptr := 0, write_ptr := 0, prev_ptr := 0, buf := b\<rparr>)
   }"

text \<open>\<open>malloc_ok n\<close> is whether the allocation of \<open>n\<close> bytes for the copy succeeds.\<close>

definition ticosd_queue_read_head ::
  "(nat \<Rightarrow> bool) \<Rightarrow> sTicosdQueue \<Rightarrow> (byte list option \<times> sTicosdQueue) option" where
  "ticosd_queue_read_head malloc_ok h = do {
     nothing \<leftarrow> (if read_ptr h = write_ptr h
        then do {
          valid \<leftarrow> prv_is_msg_valid h (read_ptr h);
          if \<not> valid then Some True else prv_is_msg_read h (read_ptr h)
        }
        else Some False);
     if nothing then Some (None, h)
     else do {
       n \<leftarrow> load32 (buf h) (4 * read_ptr h + 8);
       if \<not> malloc_ok n then Some (None, h)
       else do {
         payload \<leftarrow> mem_read (buf h) (4 * read_ptr h + 12) n;
         Some (Some payload, h\<lparr>can_complete_read := True\<rparr>)
       }
     }
   }"

definition ticosd_queue_complete_read :: "sTicosdQueue \<Rightarrow> (bool \<times> sTicosdQueue) option" where
  "ticosd_queue_complete_read h =
     (if \<not> can_complete_read h then Some (False, h)
      else do {
        f \<leftarrow> load8 (buf h) (4 * read_ptr h + 3);
        b \<leftarrow> mem_write (buf h) (4 * read_ptr h + 3) [f OR HEADER_FLAGS_FLAG_READ_MASK];
        let h = h\<lparr>buf := b\<rparr>;
        nxt \<leftarrow> prv_get_next_message h (read_ptr h);
        Some (True, h\<lparr>read_ptr := nxt, can_complete_read := False\<rparr>)
      })"

text \<open>The loop of \<^verbatim>\<open>ticosd_queue_write\<close> that moves the read pointer past the new message.\<close>

partial_function (option) move_read_ptr :: "sTicosdQueue \<Rightarrow> nat \<Rightarrow> nat \<Rightarrow> nat option" where
  "move_read_ptr h rd write_end = do {
     nxt \<leftarrow> prv_get_next_message h rd;
     if write_end \<le> nxt \<or> nxt = 0 then Some nxt else move_read_ptr h nxt write_end
   }"

text \<open>
  The part of \<^verbatim>\<open>ticosd_queue_write\<close> that fills in the message: the header, the payload
  and its zero padding. \<open>data\<close> is the payload, of \<^verbatim>\<open>payload_size_bytes\<close> bytes.
\<close>

definition store_message ::
  "byte list \<Rightarrow> nat \<Rightarrow> nat \<Rightarrow> byte list \<Rightarrow> nat \<Rightarrow> byte list option" where
  "store_message b ptr prev data payload_padded_size_words = do {
     let payload_size = length data;
     b \<leftarrow> mem_write b (4 * ptr)
       (header_bytes \<lparr>magic = HEADER_MAGIC_NUMBER, version = HEADER_VERSION_NUMBER,
                      crc = prv_queue_crc8 data, flags = 0, prev_header = prev,
                      payload_size_bytes = payload_size\<rparr>);
     b \<leftarrow> mem_write b (4 * ptr + 12) data;
     let padding_size_bytes = u64_of (payload_padded_size_words * 4 + 2 ^ 64 - payload_size);
     if padding_size_bytes > 0
     then mem_write b (4 * ptr + 12 + payload_size) (replicate padding_size_bytes 0)
     else Some b
   }"

definition ticosd_queue_write ::
  "sTicosdQueue \<Rightarrow> byte list option \<Rightarrow> nat \<Rightarrow> (bool \<times> sTicosdQueue) option" where
  "ticosd_queue_write h payload_arg payload_size =
     (case payload_arg of None \<Rightarrow> Some (False, h) | Some payload \<Rightarrow>
      if payload_size = 0 then Some (False, h)
      else
        let payload_padded_size_words = prv_bytes_to_words_round_up payload_size;
            message_size_words = u32_of (HEADER_LEN + payload_padded_size_words)
        in
        if qwords h < message_size_words then Some (False, h)
        else do {
          let read_ptr_equals_write_ptr = (read_ptr h = write_ptr h);
          h \<leftarrow> (if qwords h < u32_of (write_ptr h + message_size_words)
            then do {
              b \<leftarrow> store32 (buf h) (4 * write_ptr h) END_POINTER;
              Some (h\<lparr>buf := b, write_ptr := 0\<rparr>)
            }
            else Some h);
          let write_end = u32_of (write_ptr h + message_size_words);
          let next_write_ptr = write_end mod qwords h;
          h \<leftarrow> (if read_ptr_equals_write_ptr then Some (h\<lparr>read_ptr := write_ptr h\<rparr>)
            else if write_ptr h < read_ptr h \<and> read_ptr h < write_end
            then do {
              rd \<leftarrow> move_read_ptr h (read_ptr h) write_end;
              Some (h\<lparr>read_ptr := rd, can_complete_read := False\<rparr>)
            }
            else Some h);
          data \<leftarrow> mem_read payload 0 payload_size;
          b \<leftarrow> store_message (buf h) (write_ptr h) (prev_ptr h) data payload_padded_size_words;
          Some (True, h\<lparr>buf := b, prev_ptr := write_ptr h, write_ptr := next_write_ptr\<rparr>)
        })"

declare find_forwards.simps [code] find_backwards.simps [code] move_read_ptr.simps [code]

end
