(* ===== verification/Fifo_Interface.thy ===== *)
theory Fifo_Interface
  imports Prelude
begin

text \<open>
  The interface between the transmit queue and its clients: a bounded first-in first-out store
  whose head is read and removed in two calls. The contract is the locale \<open>fifo_queue\<close>; the
  lemmas inside it are what the main loop of the daemon and the plugins rely on, proved from
  the contract alone.
\<close>

section \<open>Sequences of calls\<close>

datatype 'm qop = QWrite 'm | QRead | QComplete

datatype 'm qres = Wrote bool | Got "'m option" | Completed bool

fun run_ops ::
  "('q \<Rightarrow> ('m option \<times> 'q) option) \<Rightarrow> ('q \<Rightarrow> (bool \<times> 'q) option) \<Rightarrow>
   ('q \<Rightarrow> 'm \<Rightarrow> (bool \<times> 'q) option) \<Rightarrow> 'q \<Rightarrow> 'm qop list \<Rightarrow> ('m qres list \<times> 'q) option" where
  "run_ops rd cp wr q [] = Some ([], q)"
| "run_ops rd cp wr q (QWrite x # ops) = do {
     (b, q) \<leftarrow> wr q x;
     (rs, q) \<leftarrow> run_ops rd cp wr q ops;
     Some (Wrote b # rs, q)
   }"
| "run_ops rd cp wr q (QRead # ops) = do {
     (m, q) \<leftarrow> rd q;
     (rs, q) \<leftarrow> run_ops rd cp wr q ops;
     Some (Got m # rs, q)
   }"
| "run_ops rd cp wr q (QComplete # ops) = do {
     (b, q) \<leftarrow> cp q;
     (rs, q) \<leftarrow> run_ops rd cp wr q ops;
     Some (Completed b # rs, q)
   }"

text \<open>
  The abstract queue: the messages that were written and not yet removed, and whether a read is
  waiting for its completion.
\<close>

fun spec_ops :: "'m list \<Rightarrow> bool \<Rightarrow> 'm qop list \<Rightarrow> 'm qres list \<times> 'm list \<times> bool" where
  "spec_ops xs a [] = ([], xs, a)"
| "spec_ops xs a (QWrite x # ops) = (let (rs, s) = spec_ops (xs @ [x]) a ops in (Wrote True # rs, s))"
| "spec_ops xs a (QRead # ops) =
     (case xs of
        [] \<Rightarrow> (let (rs, s) = spec_ops [] a ops in (Got None # rs, s))
      | x # ys \<Rightarrow> (let (rs, s) = spec_ops xs True ops in (Got (Some x) # rs, s)))"
| "spec_ops xs a (QComplete # ops) =
     (if a then (let (rs, s) = spec_ops (tl xs) False ops in (Completed True # rs, s))
      else (let (rs, s) = spec_ops xs False ops in (Completed False # rs, s)))"

text \<open>Every write of the sequence finds room at the point where it happens.\<close>

fun all_room ::
  "('q \<Rightarrow> ('m option \<times> 'q) option) \<Rightarrow> ('q \<Rightarrow> (bool \<times> 'q) option) \<Rightarrow>
   ('q \<Rightarrow> 'm \<Rightarrow> (bool \<times> 'q) option) \<Rightarrow> ('q \<Rightarrow> 'm \<Rightarrow> bool) \<Rightarrow> 'q \<Rightarrow> 'm qop list \<Rightarrow> bool" where
  "all_room rd cp wr rm q [] = True"
| "all_room rd cp wr rm q (QWrite x # ops) =
     (rm q x \<and> (case wr q x of None \<Rightarrow> False | Some (_, q') \<Rightarrow> all_room rd cp wr rm q' ops))"
| "all_room rd cp wr rm q (QRead # ops) =
     (case rd q of None \<Rightarrow> False | Some (_, q') \<Rightarrow> all_room rd cp wr rm q' ops)"
| "all_room rd cp wr rm q (QComplete # ops) =
     (case cp q of None \<Rightarrow> False | Some (_, q') \<Rightarrow> all_room rd cp wr rm q' ops)"

section \<open>The contract\<close>

locale fifo_queue =
  fixes read_head :: "'q \<Rightarrow> ('m option \<times> 'q) option"
    and complete_read :: "'q \<Rightarrow> (bool \<times> 'q) option"
    and put :: "'q \<Rightarrow> 'm \<Rightarrow> (bool \<times> 'q) option"
    and rep :: "'q \<Rightarrow> 'm list \<Rightarrow> bool"
    and armed :: "'q \<Rightarrow> bool"
    and room :: "'q \<Rightarrow> 'm \<Rightarrow> bool"
  assumes read_front:
      "rep q (x # xs) \<Longrightarrow> \<exists>q'. read_head q = Some (Some x, q') \<and> rep q' (x # xs) \<and> armed q'"
    and read_empty: "rep q [] \<Longrightarrow> read_head q = Some (None, q)"
    and complete_pop:
      "rep q (x # xs) \<Longrightarrow> armed q \<Longrightarrow>
         \<exists>q'. complete_read q = Some (True, q') \<and> rep q' xs \<and> \<not> armed q'"
    and complete_unarmed: "\<not> armed q \<Longrightarrow> complete_read q = Some (False, q)"
    and write_back:
      "rep q xs \<Longrightarrow> room q x \<Longrightarrow>
         \<exists>q'. put q x = Some (True, q') \<and> rep q' (xs @ [x]) \<and> armed q' = armed q"
begin

lemma run_ops_refines:
  assumes "rep q xs" and "armed q \<longrightarrow> xs \<noteq> []" and "all_room read_head complete_read put room q ops"
  shows "\<exists>q'. run_ops read_head complete_read put q ops =
             Some (fst (spec_ops xs (armed q) ops), q') \<and>
           rep q' (fst (snd (spec_ops xs (armed q) ops)))"
  using assms
proof (induction ops arbitrary: q xs)
  case (Cons op ops)
  show ?case
  proof (cases op)
    case (QWrite x)
    with Cons.prems obtain q' where "put q x = Some (True, q')" "rep q' (xs @ [x])" "armed q' = armed q"
      using write_back by fastforce
    with QWrite Cons.prems Cons.IH [of q' "xs @ [x]"] show ?thesis
      by (auto split: prod.splits)
  next
    case QRead
    show ?thesis
    proof (cases xs)
      case Nil
      with QRead Cons.prems read_empty Cons.IH [of q "[]"] show ?thesis
        by (auto split: prod.splits)
    next
      case (Cons x ys)
      with Cons.prems obtain q' where "read_head q = Some (Some x, q')" "rep q' xs" "armed q'"
        using read_front by blast
      with QRead Cons Cons.prems Cons.IH [of q' xs] show ?thesis
        by (auto split: prod.splits)
    qed
  next
    case QComplete
    show ?thesis
    proof (cases "armed q")
      case True
      with Cons.prems obtain x ys where xs: "xs = x # ys" by (cases xs) auto
      with True Cons.prems obtain q' where "complete_read q = Some (True, q')" "rep q' ys" "\<not> armed q'"
        using complete_pop by blast
      with QComplete True xs Cons.prems Cons.IH [of q' ys] show ?thesis
        by (auto split: prod.splits)
    next
      case False
      with QComplete Cons.prems complete_unarmed Cons.IH [of q xs] show ?thesis
        by (auto split: prod.splits)
    qed
  qed
qed simp

end

end
