(* ===== verification/Queue_Ring.thy ===== *)
theory Queue_Ring
  imports Queue Fifo_Interface
begin

text \<open>
  The layout of the ring and what each queue operation does to it: which stretches of the
  buffer hold intact messages, how the pointers of the handle relate to them, and the list of
  payloads a handle represents.
\<close>

section \<open>Well-formed handles\<close>

named_theorems queue_consts \<open>the constants of the message format\<close>

declare HEADER_LEN_def [queue_consts] HEADER_MAGIC_NUMBER_def [queue_consts]
  HEADER_VERSION_NUMBER_def [queue_consts] HEADER_FLAGS_FLAG_READ_MASK_def [queue_consts]
  END_POINTER_def [queue_consts]

definition wf_queue :: "sTicosdQueue \<Rightarrow> bool" where
  "wf_queue h \<longleftrightarrow>
     qsize h mod 4 = 0 \<and> QUEUE_SIZE_MIN \<le> qsize h \<and> qsize h \<le> QUEUE_SIZE_MAX \<and>
     length (buf h) = nat (qsize h) \<and>
     read_ptr h < qwords h \<and> write_ptr h < qwords h \<and> prev_ptr h < qwords h"

lemma wf_queue_size:
  assumes "wf_queue h"
  shows "length (buf h) = 4 * qwords h" and "nat (qsize h) = 4 * qwords h"
    and "4 \<le> qwords h" and "qwords h \<le> 2 ^ 28"
proof -
  from assms have q: "qsize h mod 4 = 0" "16 \<le> qsize h" "qsize h \<le> 2 ^ 30"
      "length (buf h) = nat (qsize h)"
    by (simp_all add: wf_queue_def QUEUE_SIZE_MIN_def QUEUE_SIZE_MAX_def)
  then obtain k where k: "qsize h = 4 * k" by (metis mod_0_imp_dvd dvdE)
  with q have "qwords h = nat k" by (simp add: qwords_def nat_mult_distrib)
  with k q show "length (buf h) = 4 * qwords h" and "nat (qsize h) = 4 * qwords h"
    and "4 \<le> qwords h" and "qwords h \<le> 2 ^ 28"
    by (auto simp: nat_mult_distrib le_nat_iff nat_le_iff)
qed

lemma words_round_up: "n \<le> 2 ^ 32 - 4 \<Longrightarrow> prv_bytes_to_words_round_up n = (n + 3) div 4"
  by (simp add: prv_bytes_to_words_round_up_def u32_of_id)

section \<open>Messages in the buffer\<close>

definition span :: "byte list \<Rightarrow> nat" where
  "span x = HEADER_LEN + (length x + 3) div 4"

definition msg_at :: "byte list \<Rightarrow> nat \<Rightarrow> byte list \<Rightarrow> bool" where
  "msg_at b p x \<longleftrightarrow>
     0 < length x \<and> 4 * (p + span x) \<le> length b \<and>
     load8 b (4 * p) = Some HEADER_MAGIC_NUMBER \<and>
     load8 b (4 * p + 1) = Some HEADER_VERSION_NUMBER \<and>
     load8 b (4 * p + 2) = Some (prv_queue_crc8 x) \<and>
     load32 b (4 * p + 8) = Some (length x) \<and>
     mem_read b (4 * p + 12) (length x) = Some x"

text \<open>Consecutive messages from word \<open>p\<close> up to word \<open>e\<close>.\<close>

fun chain :: "byte list \<Rightarrow> nat \<Rightarrow> byte list list \<Rightarrow> nat \<Rightarrow> bool" where
  "chain b p [] e = (p = e)"
| "chain b p (x # xs) e = (msg_at b p x \<and> chain b (p + span x) xs e)"

text \<open>Where a run of messages that reaches the end of the ring stops.\<close>

definition ring_end :: "byte list \<Rightarrow> nat \<Rightarrow> bool" where
  "ring_end b e \<longleftrightarrow> 4 * e = length b \<or> load32 b (4 * e) = Some END_POINTER"

definition agree :: "byte list \<Rightarrow> byte list \<Rightarrow> nat \<Rightarrow> nat \<Rightarrow> bool" where
  "agree b b' lo hi \<longleftrightarrow>
     length b = length b' \<and> (\<forall>i. lo \<le> i \<and> i < hi \<and> i < length b \<longrightarrow> b ! i = b' ! i)"

lemma span_ge: "0 < length x \<Longrightarrow> 4 \<le> span x"
  unfolding span_def queue_consts by arith

lemma span_pos [simp]: "0 < span x"
  by (simp add: span_def queue_consts)

lemma span_not_zero [simp]: "span x \<noteq> 0"
  by (simp add: span_def queue_consts)

lemma span_room: "12 + length x \<le> 4 * span x"
  unfolding span_def queue_consts by arith

lemma agree_load8: "agree b b' lo hi \<Longrightarrow> lo \<le> a \<Longrightarrow> a < hi \<Longrightarrow> load8 b a = load8 b' a"
  by (auto simp: agree_def load8_def)

lemma agree_mem_read:
  "agree b b' lo hi \<Longrightarrow> lo \<le> a \<Longrightarrow> a + n \<le> hi \<Longrightarrow> mem_read b a n = mem_read b' a n"
  by (rule mem_read_nth) (auto simp: agree_def)

lemma agree_load32: "agree b b' lo hi \<Longrightarrow> lo \<le> a \<Longrightarrow> a + 4 \<le> hi \<Longrightarrow> load32 b a = load32 b' a"
  by (simp add: load32_def agree_mem_read)

lemma agree_mono: "agree b b' lo hi \<Longrightarrow> lo \<le> lo' \<Longrightarrow> hi' \<le> hi \<Longrightarrow> agree b b' lo' hi'"
  by (auto simp: agree_def)

lemma agree_trans: "agree b b' lo hi \<Longrightarrow> agree b' b'' lo hi \<Longrightarrow> agree b b'' lo hi"
  by (auto simp: agree_def)

lemma agree_length: "agree b b' lo hi \<Longrightarrow> length b' = length b"
  by (simp add: agree_def)

lemma agree_write:
  assumes "mem_write b off bs = Some b'" and "hi \<le> off \<or> off + length bs \<le> lo"
  shows "agree b b' lo hi"
  using assms by (auto simp: agree_def length_mem_write [OF assms(1)] nth_mem_write [OF assms(1)])

lemma agree_msg_at:
  assumes "agree b b' lo hi" and "lo \<le> 4 * p" and "4 * (p + span x) \<le> hi"
  shows "msg_at b p x \<longleftrightarrow> msg_at b' p x"
proof -
  have r: "4 * p + 12 + length x \<le> hi" and r': "4 * p + 12 \<le> hi"
    using span_room [of x] assms(3) by (simp_all add: distrib_left)
  have "load8 b (4 * p + k) = load8 b' (4 * p + k)" if "k < 12" for k
    by (rule agree_load8 [OF assms(1)]) (use assms(2) r' that in auto)
  from this [of 0] this [of 1] this [of 2] assms r r' show ?thesis
    by (simp add: msg_at_def agree_load32 [OF assms(1)] agree_mem_read [OF assms(1)]
        agree_length [OF assms(1)])
qed

lemma chain_le: "chain b p xs e \<Longrightarrow> p \<le> e"
  by (induction b p xs e rule: chain.induct) auto

lemma agree_chain:
  assumes "agree b b' lo hi" and "lo \<le> 4 * p" and "4 * e \<le> hi"
  shows "chain b p xs e \<Longrightarrow> chain b' p xs e"
  using assms(2)
proof (induction xs arbitrary: p)
  case (Cons x xs)
  then have m: "msg_at b p x" and c: "chain b (p + span x) xs e" by simp_all
  from chain_le [OF c] assms(3) have "4 * (p + span x) \<le> hi" by simp
  with m Cons.prems(2) assms(1) have "msg_at b' p x" by (simp add: agree_msg_at [symmetric])
  with Cons.IH [OF c] Cons.prems(2) show ?case by simp
qed simp

lemma chain_append: "chain b p (xs @ ys) e \<longleftrightarrow> (\<exists>m. chain b p xs m \<and> chain b m ys e)"
  by (induction xs arbitrary: p) auto

lemma chain_end_le: "chain b p xs e \<Longrightarrow> xs \<noteq> [] \<Longrightarrow> p < e \<and> 4 * e \<le> length b"
proof (induction xs arbitrary: p)
  case (Cons x xs)
  then have m: "4 * (p + span x) \<le> length b" and c: "chain b (p + span x) xs e"
    by (simp_all add: msg_at_def)
  show ?case
  proof (cases "xs = []")
    case False
    from Cons.IH [OF c False] show ?thesis by simp
  qed (use m c in auto)
qed simp

section \<open>Following the ring\<close>

lemma load32_END_bytes:
  assumes "load32 b a = Some END_POINTER"
  shows "load8 b a = Some 0xa5" and "load8 b (a + 1) = Some 0x5a" and "load8 b (a + 3) = Some 0x5a"
proof -
  from assms obtain bs where bs: "mem_read b a 4 = Some bs" "le_nat bs = END_POINTER"
    by (auto simp: load32_def)
  from bs(1) have l: "length bs = 4" and a: "a + 4 \<le> length b" and bs_eq: "bs = take 4 (drop a b)"
    by (auto simp: mem_read_def split: if_splits)
  have "nat_le 4 END_POINTER = [0xa5, 0x5a, 0xa5, 0x5a]" by code_simp
  with nat_le_le_nat [OF l] bs(2) have "bs = [0xa5, 0x5a, 0xa5, 0x5a]" by simp
  then have "bs ! 0 = 0xa5" "bs ! 1 = 0x5a" "bs ! 3 = 0x5a" by simp_all
  with a show "load8 b a = Some 0xa5" and "load8 b (a + 1) = Some 0x5a"
    and "load8 b (a + 3) = Some 0x5a"
    by (simp_all add: bs_eq load8_def)
qed

lemma msg_at_not_ring_end: "msg_at b p x \<Longrightarrow> \<not> ring_end b p"
  using span_pos [of x] load32_END_bytes(2) [of b "4 * p"]
  by (auto simp: msg_at_def ring_end_def HEADER_VERSION_NUMBER_def simp del: span_pos)

lemma next_message_at:
  assumes "wf_queue h" and "msg_at (buf h) p x"
  shows "prv_get_next_message h p =
           Some (if ring_end (buf h) (p + span x) then 0 else p + span x)"
proof -
  note sz = wf_queue_size [OF assms(1)]
  from assms(2) have l: "load32 (buf h) (4 * p + 8) = Some (length x)"
    and e: "4 * (p + span x) \<le> length (buf h)" by (simp_all add: msg_at_def)
  from e sz have pe: "p + span x \<le> qwords h" by simp
  with sz span_room [of x] have "length x \<le> 2 ^ 32 - 4" by simp
  then have nxt: "u32_of (p + HEADER_LEN + prv_bytes_to_words_round_up (length x)) = p + span x"
    using pe sz by (simp add: words_round_up span_def u32_of_id)
  show ?thesis
  proof (cases "p + span x = qwords h")
    case True
    with l nxt sz show ?thesis by (simp add: prv_get_next_message_def ring_end_def)
  next
    case False
    with pe sz obtain w where "load32 (buf h) (4 * (p + span x)) = Some w"
      using load32_None_iff [of "buf h" "4 * (p + span x)"] by fastforce
    with False pe l nxt sz show ?thesis
      by (simp add: prv_get_next_message_def ring_end_def)
  qed
qed

section \<open>Validity checks\<close>

lemma load32_defined: "wf_queue h \<Longrightarrow> p + 3 \<le> qwords h \<Longrightarrow> \<exists>n. load32 (buf h) (4 * p + 8) = Some n"
  using load32_None_iff [of "buf h" "4 * p + 8"] wf_queue_size(1) [of h] by fastforce

lemma load8_defined: "wf_queue h \<Longrightarrow> p < qwords h \<Longrightarrow> k < 4 \<Longrightarrow> \<exists>c. load8 (buf h) (4 * p + k) = Some c"
  using wf_queue_size(1) [of h] by (simp add: load8_def)

lemma valid_eq:
  assumes "wf_queue h" and "p + 3 \<le> qwords h" and "load32 (buf h) (4 * p + 8) = Some n"
  shows "prv_is_msg_valid h p =
     Some (p * 4 + 12 + n < 4 * qwords h \<and> buf h ! (4 * p) = HEADER_MAGIC_NUMBER \<and>
           prv_queue_crc8 (take n (drop (4 * p + 12) (buf h))) = buf h ! (4 * p + 2))"
  using assms wf_queue_size(1,2) [OF assms(1)]
  by (auto simp: prv_is_msg_valid_def prv_is_msg_in_bounds_def load8_def mem_read_def)

lemma valid_defined:
  "wf_queue h \<Longrightarrow> p + 3 \<le> qwords h \<Longrightarrow> \<exists>v. prv_is_msg_valid h p = Some v"
  using load32_defined [of h p] valid_eq [of h p] by blast

lemma valid_msg_at:
  assumes "wf_queue h" and "msg_at (buf h) p x"
  shows "prv_is_msg_valid h p = Some (4 * p + 12 + length x < 4 * qwords h)"
proof -
  have "p + 3 \<le> qwords h"
    using assms wf_queue_size(1) [OF assms(1)] by (simp add: msg_at_def span_def queue_consts)
  with assms show ?thesis
    by (subst valid_eq [where n = "length x"])
      (auto simp: msg_at_def load8_def mem_read_def ac_simps split: if_splits)
qed

text \<open>
  A place where the reader finds nothing: the header there has the wrong magic number or is
  marked as read.
\<close>

definition idle_at :: "sTicosdQueue \<Rightarrow> nat \<Rightarrow> bool" where
  "idle_at h p \<longleftrightarrow>
     p + 3 \<le> qwords h \<and>
     (buf h ! (4 * p) \<noteq> HEADER_MAGIC_NUMBER \<or>
      buf h ! (4 * p + 3) AND HEADER_FLAGS_FLAG_READ_MASK \<noteq> 0)"

lemma idle_not_ring_end:
  assumes "wf_queue h" and "idle_at h p"
  shows "\<not> ring_end (buf h) p"
proof
  assume "ring_end (buf h) p"
  with assms wf_queue_size [OF assms(1)] have "load32 (buf h) (4 * p) = Some END_POINTER"
    by (auto simp: ring_end_def idle_at_def)
  from load32_END_bytes [OF this] assms(2) show False
    by (auto simp: idle_at_def load8_def queue_consts split: if_splits)
qed

lemma idle_nothing:
  assumes "wf_queue h" and "idle_at h p"
  shows "\<exists>v. prv_is_msg_valid h p = Some v \<and> (v \<longrightarrow> prv_is_msg_read h p = Some True)"
proof -
  from assms(2) have p: "p + 3 \<le> qwords h" by (simp add: idle_at_def)
  obtain n where n: "load32 (buf h) (4 * p + 8) = Some n" using load32_defined [OF assms(1) p] ..
  have "prv_is_msg_read h p = Some (buf h ! (4 * p + 3) AND HEADER_FLAGS_FLAG_READ_MASK \<noteq> 0)"
    using p wf_queue_size(1) [OF assms(1)] by (simp add: prv_is_msg_read_def load8_def)
  with valid_eq [OF assms(1) p n] assms(2) show ?thesis by (auto simp: idle_at_def)
qed

section \<open>The payloads a handle represents\<close>

definition layout :: "sTicosdQueue \<Rightarrow> byte list list \<Rightarrow> bool" where
  "layout h xs \<longleftrightarrow>
     chain (buf h) (read_ptr h) xs (write_ptr h) \<or>
     (\<exists>xs1 xs2 e. xs = xs1 @ xs2 \<and> xs1 \<noteq> [] \<and> write_ptr h < read_ptr h \<and>
        chain (buf h) (read_ptr h) xs1 e \<and> ring_end (buf h) e \<and> chain (buf h) 0 xs2 (write_ptr h))"

definition rep :: "sTicosdQueue \<Rightarrow> byte list list \<Rightarrow> bool" where
  "rep h xs \<longleftrightarrow> wf_queue h \<and> idle_at h (write_ptr h) \<and> layout h xs"

lemma layoutE:
  assumes "layout h xs"
  obtains (linear) "chain (buf h) (read_ptr h) xs (write_ptr h)"
    | (wrapped) xs1 xs2 e where "xs = xs1 @ xs2" "xs1 \<noteq> []" "write_ptr h < read_ptr h"
        "chain (buf h) (read_ptr h) xs1 e" "ring_end (buf h) e" "chain (buf h) 0 xs2 (write_ptr h)"
  using assms unfolding layout_def by blast

lemma layout_Nil: "layout h [] \<longleftrightarrow> read_ptr h = write_ptr h"
  by (auto simp: layout_def)

lemma layout_ConsD:
  assumes "layout h (x # xs)"
  shows "msg_at (buf h) (read_ptr h) x" and "read_ptr h \<noteq> write_ptr h"
proof -
  have "msg_at (buf h) (read_ptr h) x \<and> read_ptr h \<noteq> write_ptr h"
    using assms span_pos [of x] unfolding layout_def
    by (auto simp: Cons_eq_append_conv dest: chain_le simp del: span_pos)
  then show "msg_at (buf h) (read_ptr h) x" and "read_ptr h \<noteq> write_ptr h" by simp_all
qed

lemma read_head_front:
  assumes "rep h (x # xs)" and "malloc_ok (length x)"
  shows "ticosd_queue_read_head malloc_ok h = Some (Some x, h\<lparr>can_complete_read := True\<rparr>)"
  using layout_ConsD [of h x xs] assms
  by (simp add: rep_def ticosd_queue_read_head_def msg_at_def)

lemma read_head_empty:
  assumes "rep h []"
  shows "ticosd_queue_read_head malloc_ok h = Some (None, h)"
  using assms idle_nothing [of h "write_ptr h"]
  by (auto simp: rep_def layout_Nil ticosd_queue_read_head_def)

section \<open>Completing a read\<close>

lemma flag_write_msg_at:
  assumes "mem_write b (4 * p + 3) [f] = Some b'"
  shows "msg_at b' p x \<longleftrightarrow> msg_at b p x"
  by (simp add: msg_at_def load32_def length_mem_write [OF assms] load8_write_other [OF assms]
      mem_read_write_other [OF assms])

lemma ring_end_agree:
  "agree b b' lo hi \<Longrightarrow> lo \<le> 4 * e \<Longrightarrow> 4 * e + 4 \<le> hi \<Longrightarrow> ring_end b e \<longleftrightarrow> ring_end b' e"
  by (simp add: ring_end_def agree_load32 agree_length)

lemma idle_at_agree:
  assumes "idle_at h p" and "wf_queue h" and "agree (buf h) (buf h') lo hi"
    and "lo \<le> 4 * p" and "4 * p + 4 \<le> hi" and "qsize h' = qsize h"
  shows "idle_at h' p"
proof -
  have "p + 3 \<le> qwords h" using assms(1) by (simp add: idle_at_def)
  with wf_queue_size(1) [OF assms(2)] have "4 * p + 3 < length (buf h)" by simp
  with assms(3-5) have "buf h ! (4 * p) = buf h' ! (4 * p)" "buf h ! (4 * p + 3) = buf h' ! (4 * p + 3)"
    by (simp_all add: agree_def)
  with assms(1,6) show ?thesis by (simp add: idle_at_def qwords_def)
qed

lemma wf_queue_buf:
  "wf_queue h \<Longrightarrow> length b = length (buf h) \<Longrightarrow> wf_queue (h\<lparr>buf := b\<rparr>)"
  by (simp add: wf_queue_def qwords_def)

lemma qwords_buf [simp]: "qwords (h\<lparr>buf := b\<rparr>) = qwords h"
  by (simp add: qwords_def)

text \<open>What is left of the layout once the first message is gone.\<close>

definition rest_at :: "sTicosdQueue \<Rightarrow> nat \<Rightarrow> byte list list \<Rightarrow> bool" where
  "rest_at h p xs \<longleftrightarrow>
     chain (buf h) p xs (write_ptr h) \<or>
     (\<exists>xs1 xs2 e. xs = xs1 @ xs2 \<and> write_ptr h < p \<and> chain (buf h) p xs1 e \<and>
        ring_end (buf h) e \<and> chain (buf h) 0 xs2 (write_ptr h))"

lemma layout_rest: "layout h (x # xs) \<Longrightarrow> rest_at h (read_ptr h + span x) xs"
  unfolding layout_def rest_at_def by (fastforce simp: Cons_eq_append_conv)

text \<open>
  The next message follows, or the reader is back at the start of the ring, or it has caught up
  with the writer.
\<close>

lemma rest_layout:
  assumes "wf_queue h" and "idle_at h (write_ptr h)" and "rest_at h p xs"
    and "nxt = (if ring_end (buf h) p then 0 else p)"
  shows "layout (h\<lparr>read_ptr := nxt\<rparr>) xs"
  using assms(3) unfolding rest_at_def
proof (elim disjE exE conjE)
  assume c: "chain (buf h) p xs (write_ptr h)"
  have "\<not> ring_end (buf h) p"
    using c idle_not_ring_end [OF assms(1,2)] msg_at_not_ring_end by (cases xs) auto
  with c assms(4) show ?thesis by (simp add: layout_def)
next
  fix xs1 xs2 e
  assume r: "xs = xs1 @ xs2" "write_ptr h < p" "chain (buf h) p xs1 e" "ring_end (buf h) e"
    "chain (buf h) 0 xs2 (write_ptr h)"
  show ?thesis
  proof (cases "xs1 = []")
    case True
    with r assms(4) show ?thesis by (simp add: layout_def)
  next
    case False
    with r(3) have "\<not> ring_end (buf h) p" using msg_at_not_ring_end by (cases xs1) auto
    with r False assms(4) show ?thesis by (auto simp: layout_def)
  qed
qed

lemma agree_rest_at:
  assumes "rest_at h p xs" and "wf_queue h" and "idle_at h (write_ptr h)"
    and "agree (buf h) (buf h') 0 lo" and "agree (buf h) (buf h') hi (length (buf h))"
    and "lo \<le> hi" and "hi \<le> 4 * p"
    and "write_ptr h' = write_ptr h" and "write_ptr h < p \<Longrightarrow> 4 * write_ptr h \<le> lo"
  shows "rest_at h' p xs"
  using assms(1) unfolding rest_at_def
proof (elim disjE exE conjE)
  assume c: "chain (buf h) p xs (write_ptr h)"
  have "4 * write_ptr h \<le> length (buf h)"
    using assms(2) wf_queue_size(1) [OF assms(2)] by (simp add: wf_queue_def)
  with c assms(7,8) agree_chain [OF assms(5)]
  show "chain (buf h') p xs (write_ptr h') \<or> (\<exists>xs1 xs2 e. xs = xs1 @ xs2 \<and> write_ptr h' < p \<and>
      chain (buf h') p xs1 e \<and> ring_end (buf h') e \<and> chain (buf h') 0 xs2 (write_ptr h'))"
    by simp
next
  fix xs1 xs2 e
  assume r: "xs = xs1 @ xs2" "write_ptr h < p" "chain (buf h) p xs1 e" "ring_end (buf h) e"
    "chain (buf h) 0 xs2 (write_ptr h)"
  have e: "4 * e \<le> length (buf h)" and pe: "p \<le> e"
    using r(4) load32_None_iff [of "buf h" "4 * e"] chain_le [OF r(3)]
    by (auto simp: ring_end_def)
  have "ring_end (buf h') e"
  proof (cases "4 * e = length (buf h)")
    case True
    then show ?thesis using agree_length [OF assms(4)] by (simp add: ring_end_def)
  next
    case False
    with r(4) have "load32 (buf h) (4 * e) = Some END_POINTER" by (simp add: ring_end_def)
    moreover from this have "4 * e + 4 \<le> length (buf h)"
      using load32_None_iff [of "buf h" "4 * e"] by fastforce
    ultimately show ?thesis
      using agree_load32 [OF assms(5), of "4 * e"] assms(7) pe by (simp add: ring_end_def)
  qed
  moreover have "chain (buf h') p xs1 e"
    using agree_chain [OF assms(5) assms(7) e r(3)] .
  moreover have "chain (buf h') 0 xs2 (write_ptr h)"
    using agree_chain [OF assms(4) _ _ r(5)] assms(9) [OF r(2)] by simp
  ultimately show "chain (buf h') p xs (write_ptr h') \<or> (\<exists>xs1 xs2 e. xs = xs1 @ xs2 \<and>
      write_ptr h' < p \<and> chain (buf h') p xs1 e \<and> ring_end (buf h') e \<and>
      chain (buf h') 0 xs2 (write_ptr h'))"
    using r(1,2) assms(8) by auto
qed

lemma layout_write_outside:
  "layout h (x # xs) \<Longrightarrow> write_ptr h < read_ptr h + span x \<Longrightarrow> write_ptr h < read_ptr h"
  unfolding layout_def by (auto dest: chain_le)

lemma complete_read_pop:
  assumes "rep h (x # xs)" and "can_complete_read h"
  obtains h' where "ticosd_queue_complete_read h = Some (True, h')" and "rep h' xs"
    and "\<not> can_complete_read h'" and "prev_ptr h' = prev_ptr h" and "write_ptr h' = write_ptr h"
    and "qsize h' = qsize h" and "agree (buf h) (buf h') (4 * read_ptr h + 4) (length (buf h))"
proof -
  let ?rd = "read_ptr h" and ?wr = "write_ptr h"
  from assms(1) have wf: "wf_queue h" and idle: "idle_at h ?wr" and lay: "layout h (x # xs)"
    by (simp_all add: rep_def)
  note sz = wf_queue_size [OF wf]
  note m = layout_ConsD [OF lay]
  have rd: "?rd < qwords h" using wf by (simp add: wf_queue_def)
  obtain f where f: "load8 (buf h) (4 * ?rd + 3) = Some f"
    using load8_defined [OF wf rd, of 3] by auto
  obtain b where b: "mem_write (buf h) (4 * ?rd + 3) [f OR HEADER_FLAGS_FLAG_READ_MASK] = Some b"
    using rd sz by (simp add: mem_write_def)
  let ?h1 = "h\<lparr>buf := b\<rparr>"
  have lo: "agree (buf h) b 0 (4 * ?rd + 3)" and hi: "agree (buf h) b (4 * ?rd + 4) (length (buf h))"
    by (rule agree_write [OF b]; simp)+
  have wf1: "wf_queue ?h1" using wf length_mem_write [OF b] by (rule wf_queue_buf)
  have ag: "agree (buf h) b (4 * ?wr) (4 * ?wr + 4)"
    by (rule agree_write [OF b]) (use m(2) in auto)
  have idle1: "idle_at ?h1 ?wr"
    by (rule idle_at_agree [OF idle wf, where lo = "4 * ?wr" and hi = "4 * ?wr + 4"]) (use ag in simp_all)
  have m1: "msg_at (buf ?h1) ?rd x" using m(1) flag_write_msg_at [OF b] by simp
  have "rest_at ?h1 (?rd + span x) xs"
  proof (rule agree_rest_at [OF layout_rest [OF lay] wf idle, where lo = "4 * ?rd + 3" and hi = "4 * ?rd + 4"])
    show "4 * ?wr \<le> 4 * ?rd + 3" if "?wr < ?rd + span x"
      using layout_write_outside [OF lay that] by simp
    show "4 * ?rd + 4 \<le> 4 * (?rd + span x)" using span_pos [of x] by arith
  qed (use lo hi in simp_all)
  then have lay': "layout (?h1\<lparr>read_ptr := if ring_end b (?rd + span x) then 0 else ?rd + span x\<rparr>) xs"
    using rest_layout [OF wf1 _ _ refl] idle1 by simp
  let ?nxt = "if ring_end b (?rd + span x) then 0 else ?rd + span x"
  let ?h' = "?h1\<lparr>read_ptr := ?nxt, can_complete_read := False\<rparr>"
  have "?nxt < qwords h"
    using m1 sz(3) length_mem_write [OF b] sz(1)
    by (auto simp: ring_end_def msg_at_def dest: le_neq_implies_less)
  with wf1 have "wf_queue ?h'" by (simp add: wf_queue_def qwords_def)
  moreover have "idle_at ?h' ?wr" using idle1 by (simp add: idle_at_def qwords_def)
  moreover have "layout ?h' xs" using lay' by (simp add: layout_def)
  ultimately have "rep ?h' xs" by (simp add: rep_def)
  moreover have "ticosd_queue_complete_read h = Some (True, ?h')"
    using assms(2) f b next_message_at [OF wf1 m1] by (simp add: ticosd_queue_complete_read_def)
  ultimately show ?thesis using that hi by simp
qed

section \<open>Writing a message\<close>

lemma header_bytes_length [simp]: "length (header_bytes hdr) = 12"
  by (simp add: header_bytes_def)

lemma padding_size:
  assumes "n \<le> 2 ^ 30"
  shows "u64_of ((n + 3) div 4 * 4 + 2 ^ 64 - n) = (n + 3) div 4 * 4 - n"
proof -
  have "n \<le> (n + 3) div 4 * 4" by linarith
  then have eq: "(n + 3) div 4 * 4 + 2 ^ 64 - n = ((n + 3) div 4 * 4 - n) + 2 ^ 64" by simp
  have "(n + 3) div 4 * 4 - n \<le> 3" by linarith
  then have "(n + 3) div 4 * 4 - n < 2 ^ 64" by (rule le_less_trans) simp
  then show ?thesis unfolding u64_of_def eq by (simp only: mod_add_self2 mod_less)
qed

lemma store_message_at:
  assumes "0 < length x" and "4 * (w + span x) \<le> length b" and "length b \<le> 2 ^ 30" and "prev < 2 ^ 32"
  obtains b' where "store_message b w prev x ((length x + 3) div 4) = Some b'"
    and "msg_at b' w x" and "agree b b' 0 (4 * w)" and "agree b b' (4 * (w + span x)) (length b)"
    and "load8 b' (4 * w + 3) = Some 0" and "load32 b' (4 * w + 4) = Some prev"
proof -
  let ?hdr = "header_bytes \<lparr>magic = HEADER_MAGIC_NUMBER, version = HEADER_VERSION_NUMBER,
    crc = prv_queue_crc8 x, flags = 0, prev_header = prev, payload_size_bytes = length x\<rparr>"
  let ?pad = "(length x + 3) div 4 * 4 - length x"
  have sp: "4 * span x = 12 + length x + ?pad" unfolding span_def queue_consts by arith
  have len: "length x \<le> 2 ^ 30" and fits: "4 * w + 12 + length x + ?pad \<le> length b"
    using assms(2,3) sp by (simp_all add: distrib_left)
  obtain b1 where b1: "mem_write b (4 * w) ?hdr = Some b1"
    using fits by (simp add: mem_write_def)
  obtain b2 where b2: "mem_write b1 (4 * w + 12) x = Some b2"
    using fits length_mem_write [OF b1] by (simp add: mem_write_def)
  have l2: "length b2 = length b" using length_mem_write [OF b1] length_mem_write [OF b2] by simp
  obtain b3 where b3': "mem_write b2 (4 * w + 12 + length x) (replicate ?pad 0) = Some b3"
    using fits l2 by (simp add: mem_write_def)
  have b3: "(if 0 < ?pad then mem_write b2 (4 * w + 12 + length x) (replicate ?pad 0)
      else Some b2) = Some b3"
  proof (cases "?pad = 0")
    case True
    from b3' have "mem_write b2 (4 * w + 12 + length x) [] = Some b3" unfolding True by simp
    then have "b3 = b2" by (auto simp: mem_write_def split: if_splits)
    with True show ?thesis by (simp only: less_irrefl if_False)
  qed (use b3' in simp)
  have st: "store_message b w prev x ((length x + 3) div 4) = Some b3"
    using b1 b2 b3 padding_size [OF len] by (auto simp: store_message_def Let_def split: if_splits)
  have ag12: "agree b b2 lo hi" if "hi \<le> 4 * w \<or> 4 * w + 12 + length x \<le> lo" for lo hi
    by (rule agree_trans [OF agree_write [OF b1] agree_write [OF b2]]) (use that in auto)
  have ag: "agree b b3 lo hi" if "hi \<le> 4 * w \<or> 4 * (w + span x) \<le> lo" for lo hi
    by (rule agree_trans [OF ag12 agree_write [OF b3']]) (use that sp in auto)
  have hdr: "load8 b3 (4 * w + k) = Some (?hdr ! k)" if "k < 12" for k
    using load8_write_inside [OF b1, of "4 * w + k"] load8_write_other [OF b2, of "4 * w + k"]
      load8_write_other [OF b3', of "4 * w + k"] that by simp
  have hdr32: "mem_read b3 (4 * w + k) 4 = Some (take 4 (drop k ?hdr))" if "k + 4 \<le> 12" for k
    using mem_read_write_inside [OF b1, of "4 * w + k" 4] that
      mem_read_write_other [OF b2, of "4 * w + k" 4] mem_read_write_other [OF b3', of "4 * w + k" 4]
    by simp
  have "mem_read b3 (4 * w + 12) (length x) = Some x"
    using mem_read_write_same [OF b2] mem_read_write_other [OF b3', of "4 * w + 12" "length x"]
    by simp
  moreover have "load32 b3 (4 * w + 8) = Some (length x)" and "load32 b3 (4 * w + 4) = Some prev"
    using hdr32 [of 8] hdr32 [of 4] len assms(4)
    by (simp_all add: load32_def header_bytes_def le_nat_nat_le)
  ultimately have "msg_at b3 w x"
    using hdr [of 0] hdr [of 1] hdr [of 2] assms(1,2) agree_length [OF ag [of 0 0]]
    by (simp add: msg_at_def header_bytes_def)
  moreover have "load8 b3 (4 * w + 3) = Some 0" using hdr [of 3] by (simp add: header_bytes_def)
  ultimately show ?thesis
    using that [OF st] ag \<open>load32 b3 (4 * w + 4) = Some prev\<close> by simp
qed

text \<open>
  There is room for a message when it neither reaches the oldest unread message nor fills the
  ring, and when the place it leaves the write pointer at does not look like an unread message
  or an end marker left over from an earlier lap.
\<close>

definition room :: "sTicosdQueue \<Rightarrow> byte list \<Rightarrow> bool" where
  "room h x \<longleftrightarrow>
     0 < length x \<and>
     (if write_ptr h + span x \<le> qwords h
      then idle_at h (write_ptr h + span x) \<and>
           (write_ptr h < read_ptr h \<longrightarrow> write_ptr h + span x < read_ptr h)
      else idle_at h (span x) \<and>
           (if read_ptr h = write_ptr h then span x \<noteq> write_ptr h
            else read_ptr h < write_ptr h \<and> span x < read_ptr h))"

text \<open>The call with the pointers already settled: nothing of the queue is overwritten.\<close>

lemma write_in_place:
  assumes "wf_queue h" and "0 < length x" and "write_ptr h + span x < qwords h"
    and "read_ptr h \<noteq> write_ptr h \<Longrightarrow> write_ptr h < read_ptr h \<Longrightarrow> write_ptr h + span x \<le> read_ptr h"
  obtains b where "ticosd_queue_write h (Some x) (length x) =
      Some (True, h\<lparr>buf := b, prev_ptr := write_ptr h, write_ptr := write_ptr h + span x\<rparr>)"
    and "msg_at b (write_ptr h) x" and "agree (buf h) b 0 (4 * write_ptr h)"
    and "agree (buf h) b (4 * (write_ptr h + span x)) (length (buf h))"
    and "load8 b (4 * write_ptr h + 3) = Some 0" and "load32 b (4 * write_ptr h + 4) = Some (prev_ptr h)"
proof -
  note sz = wf_queue_size [OF assms(1)]
  have len: "length x \<le> 2 ^ 32 - 4" using assms(3) sz span_room [of x] by simp
  have words: "prv_bytes_to_words_round_up (length x) = (length x + 3) div 4"
    by (rule words_round_up [OF len])
  have sp: "u32_of (HEADER_LEN + (length x + 3) div 4) = span x" "u32_of (write_ptr h + span x) = write_ptr h + span x"
    using assms(3) sz by (simp_all add: span_def u32_of_id)
  have "prev_ptr h < 2 ^ 32" using assms(1) sz(4) by (simp add: wf_queue_def)
  then obtain b where b: "store_message (buf h) (write_ptr h) (prev_ptr h) x ((length x + 3) div 4) = Some b"
    "msg_at b (write_ptr h) x" "agree (buf h) b 0 (4 * write_ptr h)"
    "agree (buf h) b (4 * (write_ptr h + span x)) (length (buf h))"
    "load8 b (4 * write_ptr h + 3) = Some 0" "load32 b (4 * write_ptr h + 4) = Some (prev_ptr h)"
    using store_message_at [OF assms(2), of "write_ptr h" "buf h" "prev_ptr h"] assms(3) sz by auto
  have "ticosd_queue_write h (Some x) (length x) =
      Some (True, h\<lparr>buf := b, prev_ptr := write_ptr h, write_ptr := write_ptr h + span x\<rparr>)"
    using assms b(1) words sp
    by (auto simp: ticosd_queue_write_def Let_def mem_read_def)
  with b(2-) show ?thesis using that by blast
qed

lemma write_wrapped:
  assumes "wf_queue h" and "0 < length x" and "qwords h < write_ptr h + span x" and "span x < qwords h"
    and "read_ptr h = write_ptr h \<or> read_ptr h = 0 \<or> span x \<le> read_ptr h"
  obtains b0 b where "store32 (buf h) (4 * write_ptr h) END_POINTER = Some b0"
    and "ticosd_queue_write h (Some x) (length x) =
      Some (True, h\<lparr>buf := b, prev_ptr := 0, write_ptr := span x,
                    read_ptr := if read_ptr h = write_ptr h then 0 else read_ptr h\<rparr>)"
    and "msg_at b 0 x" and "agree b0 b (4 * span x) (length (buf h))"
    and "load8 b 3 = Some 0" and "load32 b 4 = Some (prev_ptr h)"
proof -
  note sz = wf_queue_size [OF assms(1)]
  have len: "length x \<le> 2 ^ 32 - 4" using assms(4) sz span_room [of x] by simp
  have words: "prv_bytes_to_words_round_up (length x) = (length x + 3) div 4"
    by (rule words_round_up [OF len])
  have w: "write_ptr h < qwords h" and pv: "prev_ptr h < 2 ^ 32"
    using assms(1) sz(4) by (simp_all add: wf_queue_def)
  have sp: "u32_of (HEADER_LEN + (length x + 3) div 4) = span x" "u32_of (span x) = span x"
    "u32_of (write_ptr h + span x) = write_ptr h + span x"
    using assms(4) w sz by (simp_all add: span_def u32_of_id)
  obtain b0 where b0: "store32 (buf h) (4 * write_ptr h) END_POINTER = Some b0"
    using w sz by (simp add: store32_def mem_write_def)
  then have l0: "length b0 = length (buf h)" by (simp add: store32_def length_mem_write)
  obtain b where b: "store_message b0 0 (prev_ptr h) x ((length x + 3) div 4) = Some b"
    "msg_at b 0 x" "agree b0 b (4 * span x) (length (buf h))"
    "load8 b 3 = Some 0" "load32 b 4 = Some (prev_ptr h)"
    using store_message_at [OF assms(2), of 0 b0 "prev_ptr h"] assms(4) sz l0 pv by auto
  have "ticosd_queue_write h (Some x) (length x) =
      Some (True, h\<lparr>buf := b, prev_ptr := 0, write_ptr := span x,
                    read_ptr := if read_ptr h = write_ptr h then 0 else read_ptr h\<rparr>)"
    using assms b(1) b0 words sp
    by (auto simp: ticosd_queue_write_def Let_def mem_read_def qwords_def)
  with b0 b(2-) show ?thesis using that by blast
qed

text \<open>The message joins the end of what the handle represents: first in place, then wrapped.\<close>

lemma write_append_in_place:
  assumes "rep h xs" and "room h x" and True: "write_ptr h + span x \<le> qwords h"
  obtains h' where "ticosd_queue_write h (Some x) (length x) = Some (True, h')" and "rep h' (xs @ [x])"
    and "can_complete_read h' = can_complete_read h" and "qsize h' = qsize h"
proof -
  let ?w = "write_ptr h" and ?e = "write_ptr h + span x"
  from assms have wf: "wf_queue h" and lay: "layout h xs" and x: "0 < length x"
    and idle: "idle_at h ?e" and over: "?w < read_ptr h \<Longrightarrow> ?e < read_ptr h"
    by (simp_all add: rep_def room_def)
  note sz = wf_queue_size [OF wf]
  have e: "?e < qwords h" using idle by (simp add: idle_at_def)
  obtain b where b: "ticosd_queue_write h (Some x) (length x) =
      Some (True, h\<lparr>buf := b, prev_ptr := ?w, write_ptr := ?e\<rparr>)"
    and m: "msg_at b ?w x" and lo: "agree (buf h) b 0 (4 * ?w)"
    and hi: "agree (buf h) b (4 * ?e) (length (buf h))"
    using write_in_place [OF wf x e] over by (metis less_imp_le)
  let ?h' = "h\<lparr>buf := b, prev_ptr := ?w, write_ptr := ?e\<rparr>"
  have wf': "wf_queue ?h'"
    using wf e agree_length [OF lo] by (simp add: wf_queue_def qwords_def)
  have idle': "idle_at ?h' ?e"
    by (rule idle_at_agree [OF idle wf, where lo = "4 * ?e" and hi = "length (buf h)"])
      (use hi e sz in simp_all)
  have "layout ?h' (xs @ [x])"
    using lay
  proof (cases rule: layoutE)
    case linear
    have "chain b (read_ptr h) xs ?w" using agree_chain [OF lo _ _ linear] by simp
    with m show ?thesis by (auto simp: layout_def chain_append)
  next
    case r: (wrapped xs1 xs2 e)
    note ce = chain_end_le [OF r(4,2)]
    have "chain b (read_ptr h) xs1 e"
      using agree_chain [OF hi _ _ r(4)] over [OF r(3)] ce by simp
    moreover have "ring_end b e"
    proof (cases "4 * e = length (buf h)")
      case False
      then have "4 * e + 4 \<le> length (buf h)" using ce sz(1) by simp
      then show ?thesis using r(5) ring_end_agree [OF hi, of e] over [OF r(3)] ce by simp
    qed (use agree_length [OF lo] in \<open>simp add: ring_end_def\<close>)
    moreover have "chain b 0 (xs2 @ [x]) ?e"
      using agree_chain [OF lo _ _ r(6)] m by (auto simp: chain_append)
    ultimately show ?thesis using r(1,2) over [OF r(3)] by (force simp: layout_def)
  qed
  with wf' idle' have "rep ?h' (xs @ [x])" by (simp add: rep_def)
  with b show ?thesis using that by simp
qed

lemma write_append_wrapped:
  assumes "rep h xs" and "room h x" and False: "\<not> write_ptr h + span x \<le> qwords h"
  obtains h' where "ticosd_queue_write h (Some x) (length x) = Some (True, h')" and "rep h' (xs @ [x])"
    and "can_complete_read h' = can_complete_read h" and "qsize h' = qsize h"
proof -
  let ?w = "write_ptr h" and ?e = "span x"
  from assms have wf: "wf_queue h" and lay: "layout h xs" and x: "0 < length x"
    and idle: "idle_at h ?e" and over: "read_ptr h = ?w \<and> ?e \<noteq> ?w \<or> read_ptr h < ?w \<and> ?e < read_ptr h"
    by (auto simp: rep_def room_def split: if_splits)
  note sz = wf_queue_size [OF wf]
  have e: "?e < qwords h" using idle by (simp add: idle_at_def)
  have ew: "?e \<noteq> ?w" using over by auto
  let ?rd = "if read_ptr h = ?w then 0 else read_ptr h"
  obtain b0 b where b0: "store32 (buf h) (4 * ?w) END_POINTER = Some b0"
    and b: "ticosd_queue_write h (Some x) (length x) =
      Some (True, h\<lparr>buf := b, prev_ptr := 0, write_ptr := ?e, read_ptr := ?rd\<rparr>)"
    and m: "msg_at b 0 x" and hi: "agree b0 b (4 * ?e) (length (buf h))"
    using write_wrapped [OF wf x _ e] False over by (metis not_le less_imp_le)
  let ?h' = "h\<lparr>buf := b, prev_ptr := 0, write_ptr := ?e, read_ptr := ?rd\<rparr>"
  have m0: "mem_write (buf h) (4 * ?w) (nat_le 4 END_POINTER) = Some b0"
    using b0 by (simp add: store32_def)
  have len: "length b = length (buf h)" using agree_length [OF hi] length_mem_write [OF m0] by simp
  have rd: "?rd < qwords h" using wf by (auto simp: wf_queue_def)
  have wf': "wf_queue ?h'" using wf e rd len by (simp add: wf_queue_def qwords_def)
  have "agree (buf h) b0 (4 * ?e) (4 * ?e + 4)"
    by (rule agree_write [OF m0]) (use ew in auto)
  then have ag: "agree (buf h) b (4 * ?e) (4 * ?e + 4)"
    using agree_trans [OF _ agree_mono [OF hi]] e sz(1) by simp
  have idle': "idle_at ?h' ?e"
    by (rule idle_at_agree [OF idle wf, where lo = "4 * ?e" and hi = "4 * ?e + 4"]) (use ag in simp_all)
  have "layout ?h' (xs @ [x])"
  proof (cases "read_ptr h = ?w")
    case True
    with lay have "xs = []" by (cases xs) (auto dest: layout_ConsD(2))
    with m True show ?thesis by (simp add: layout_def)
  next
    case False
    with over have o: "read_ptr h < ?w" "?e < read_ptr h" by auto
    then have c: "chain (buf h) (read_ptr h) xs ?w" using lay by (auto simp: layout_def)
    have "xs \<noteq> []" using c o by auto
    have "chain b0 (read_ptr h) xs ?w"
      by (rule agree_chain [OF agree_write [OF m0] _ _ c, where lo = 0 and hi = "4 * ?w"]) simp_all
    then have "chain b (read_ptr h) xs ?w"
      using agree_chain [OF hi, of "read_ptr h" ?w xs] o wf sz by (simp add: wf_queue_def)
    moreover have "load32 b0 (4 * ?w) = Some END_POINTER"
      by (rule load32_store32 [OF b0]) (simp add: queue_consts)
    then have "ring_end b ?w"
      using agree_load32 [OF hi, of "4 * ?w"] o wf sz by (simp add: ring_end_def wf_queue_def)
    ultimately show ?thesis using m o \<open>xs \<noteq> []\<close> by (force simp: layout_def)
  qed
  with wf' idle' have "rep ?h' (xs @ [x])" by (simp add: rep_def)
  with b show ?thesis using that by simp
qed

lemma write_append:
  assumes "rep h xs" and "room h x"
  obtains h' where "ticosd_queue_write h (Some x) (length x) = Some (True, h')" and "rep h' (xs @ [x])"
    and "can_complete_read h' = can_complete_read h" and "qsize h' = qsize h"
  using write_append_in_place [OF assms] write_append_wrapped [OF assms] by metis

section \<open>The queue meets its contract\<close>

abbreviation queue_put :: "sTicosdQueue \<Rightarrow> byte list \<Rightarrow> (bool \<times> sTicosdQueue) option" where
  "queue_put h x \<equiv> ticosd_queue_write h (Some x) (length x)"

abbreviation queue_read :: "sTicosdQueue \<Rightarrow> (byte list option \<times> sTicosdQueue) option" where
  "queue_read \<equiv> ticosd_queue_read_head (\<lambda>_. True)"

interpretation txq: fifo_queue queue_read ticosd_queue_complete_read
  queue_put rep can_complete_read room
proof (unfold_locales, goal_cases)
  case (1 q x xs)
  then have "rep (q\<lparr>can_complete_read := True\<rparr>) (x # xs)"
    by (simp add: rep_def wf_queue_def qwords_def idle_at_def layout_def)
  with read_head_front [OF 1, of "\<lambda>_. True"] show ?case by simp
next
  case (2 q)
  then show ?case by (rule read_head_empty)
next
  case (3 q x xs)
  then show ?case by (metis complete_read_pop)
next
  case (4 q)
  then show ?case by (simp add: ticosd_queue_complete_read_def)
next
  case (5 q xs x)
  then show ?case by (metis write_append)
qed

end
