(* ===== verification/Cbor.thy ===== *)
theory Cbor
  imports Prelude
begin

text \<open>
  The CBOR encoder (src/util/cbor.c): every operation of the encoder, the storage it writes to
  as an interface (\<open>cbor_sink\<close>), and a decoder for RFC 7049 data items that the encodings are
  checked against. An encoder holds its write callback and the state the callback works on;
  \<open>None\<close> is a callback that leaves its storage or is called without one.
\<close>

section \<open>Data\<close>

definition kCborMajorType_UnsignedInteger :: nat where "kCborMajorType_UnsignedInteger = 0"
definition kCborMajorType_NegativeInteger :: nat where "kCborMajorType_NegativeInteger = 1"
definition kCborMajorType_ByteString :: nat where "kCborMajorType_ByteString = 2"
definition kCborMajorType_TextString :: nat where "kCborMajorType_TextString = 3"
definition kCborMajorType_Array :: nat where "kCborMajorType_Array = 4"
definition kCborMajorType_Map :: nat where "kCborMajorType_Map = 5"
definition kCborMajorType_SimpleType :: nat where "kCborMajorType_SimpleType = 7"

named_theorems cbor_types \<open>the numbers of the major types\<close>

declare kCborMajorType_UnsignedInteger_def [cbor_types] kCborMajorType_NegativeInteger_def [cbor_types]
  kCborMajorType_ByteString_def [cbor_types] kCborMajorType_TextString_def [cbor_types]
  kCborMajorType_Array_def [cbor_types] kCborMajorType_Map_def [cbor_types]
  kCborMajorType_SimpleType_def [cbor_types]

type_synonym 's cbor_write_cb = "'s \<Rightarrow> nat \<Rightarrow> byte list \<Rightarrow> 's option"

record 's sTicosCborEncoder =
  compute_size_only :: bool
  write_cb :: "'s cbor_write_cb option"
  write_cb_ctx :: "'s option"
  buf_len :: nat
  encoded_size :: nat

type_synonym 's encode = "'s sTicosCborEncoder \<Rightarrow> (bool \<times> 's sTicosCborEncoder) option"

section \<open>Operations\<close>

definition CBOR_SERIALIZE_MAJOR_TYPE :: "nat \<Rightarrow> byte" where
  "CBOR_SERIALIZE_MAJOR_TYPE mt = word_of_nat (mt mod 8 * 32)"

definition ticos_cbor_encoder_init ::
  "'s cbor_write_cb option \<Rightarrow> 's option \<Rightarrow> nat \<Rightarrow> 's sTicosCborEncoder" where
  "ticos_cbor_encoder_init cb ctx len =
     \<lparr>compute_size_only = (case cb of None \<Rightarrow> True | Some _ \<Rightarrow> False), write_cb = cb,
      write_cb_ctx = ctx, buf_len = len, encoded_size = 0\<rparr>"

definition ticos_cbor_encoder_size_only_init :: "'s sTicosCborEncoder" where
  "ticos_cbor_encoder_size_only_init = ticos_cbor_encoder_init None None 0"

definition ticos_cbor_encoder_deinit :: "'s sTicosCborEncoder \<Rightarrow> nat \<times> 's sTicosCborEncoder" where
  "ticos_cbor_encoder_deinit e =
     (encoded_size e,
      \<lparr>compute_size_only = False, write_cb = None, write_cb_ctx = None, buf_len = 0, encoded_size = 0\<rparr>)"

definition prv_add_to_result_buffer :: "byte list \<Rightarrow> 's encode" where
  "prv_add_to_result_buffer data e =
     (if length data = 0 then Some (True, e)
      else if compute_size_only e
      then Some (True, e\<lparr>encoded_size := u64_of (encoded_size e + length data)\<rparr>)
      else if u64_of (encoded_size e + length data) > buf_len e then Some (False, e)
      else do {
        cb \<leftarrow> write_cb e;
        ctx \<leftarrow> write_cb_ctx e;
        ctx \<leftarrow> cb ctx (u32_of (encoded_size e)) data;
        Some (True, e\<lparr>write_cb_ctx := Some ctx, encoded_size := u64_of (encoded_size e + length data)\<rparr>)
      })"

definition cbor_head :: "nat \<Rightarrow> nat \<Rightarrow> byte list" where
  "cbor_head major_type val =
     (let mt = CBOR_SERIALIZE_MAJOR_TYPE major_type in
      if val < 24 then [mt + word_of_nat val]
      else if val \<le> 0xff then [mt + 24, word_of_nat val]
      else if val \<le> 0xffff then [mt + 25, word_of_nat (val div 2 ^ 8), word_of_nat val]
      else [mt + 26, word_of_nat (val div 2 ^ 24), word_of_nat (val div 2 ^ 16),
            word_of_nat (val div 2 ^ 8), word_of_nat val])"

definition prv_encode_unsigned_integer :: "nat \<Rightarrow> nat \<Rightarrow> 's encode" where
  "prv_encode_unsigned_integer major_type val =
     prv_add_to_result_buffer (cbor_head major_type (u32_of val))"

definition prv_encode_uint64 :: "u64 \<Rightarrow> byte list" where
  "prv_encode_uint64 val = map (\<lambda>shift. ucast (drop_bit shift val)) [56, 48, 40, 32, 24, 16, 8, 0]"

definition ticos_cbor_encode_long_signed_integer :: "u64 \<Rightarrow> 's encode" where
  "ticos_cbor_encode_long_signed_integer value =
     (let ui = signed_drop_bit 63 value;
          cbor_major_type = unat (ui AND 1);
          ui = ui XOR value
      in if sint ui \<le> 2 ^ 32 - 1
         then prv_encode_unsigned_integer cbor_major_type (unat ui)
         else prv_add_to_result_buffer
           ((CBOR_SERIALIZE_MAJOR_TYPE cbor_major_type OR 27) # prv_encode_uint64 ui))"

definition ticos_cbor_encode_uint64_as_double :: "u64 \<Rightarrow> 's encode" where
  "ticos_cbor_encode_uint64_as_double val =
     prv_add_to_result_buffer
       ((CBOR_SERIALIZE_MAJOR_TYPE kCborMajorType_SimpleType OR 27) # prv_encode_uint64 val)"

definition ticos_cbor_encode_unsigned_integer :: "nat \<Rightarrow> 's encode" where
  "ticos_cbor_encode_unsigned_integer value =
     prv_encode_unsigned_integer kCborMajorType_UnsignedInteger value"

definition ticos_cbor_join :: "byte list \<Rightarrow> 's encode" where
  "ticos_cbor_join data = prv_add_to_result_buffer data"

definition ticos_cbor_encode_signed_integer :: "u32 \<Rightarrow> 's encode" where
  "ticos_cbor_encode_signed_integer value =
     (let ui = signed_drop_bit 31 value;
          cbor_major_type = unat (ui AND 1);
          ui = ui XOR value
      in prv_encode_unsigned_integer cbor_major_type (unat ui))"

text \<open>The \<^verbatim>\<open>&&\<close> of two encoding steps: the second is not run when the first fails.\<close>

definition enc_and :: "'s encode \<Rightarrow> 's encode \<Rightarrow> 's encode" where
  "enc_and f g e = do { (ok, e) \<leftarrow> f e; if ok then g e else Some (False, e) }"

definition ticos_cbor_encode_byte_string :: "byte list \<Rightarrow> 's encode" where
  "ticos_cbor_encode_byte_string data =
     enc_and (prv_encode_unsigned_integer kCborMajorType_ByteString (length data))
       (prv_add_to_result_buffer data)"

definition ticos_cbor_encode_byte_string_begin :: "nat \<Rightarrow> 's encode" where
  "ticos_cbor_encode_byte_string_begin len = prv_encode_unsigned_integer kCborMajorType_ByteString len"

definition ticos_cbor_encode_string :: "byte list \<Rightarrow> 's encode" where
  "ticos_cbor_encode_string str =
     enc_and (prv_encode_unsigned_integer kCborMajorType_TextString (length str))
       (prv_add_to_result_buffer str)"

definition ticos_cbor_encode_string_begin :: "nat \<Rightarrow> 's encode" where
  "ticos_cbor_encode_string_begin len = prv_encode_unsigned_integer kCborMajorType_TextString len"

definition ticos_cbor_encode_dictionary_begin :: "nat \<Rightarrow> 's encode" where
  "ticos_cbor_encode_dictionary_begin n = prv_encode_unsigned_integer kCborMajorType_Map n"

definition ticos_cbor_encode_array_begin :: "nat \<Rightarrow> 's encode" where
  "ticos_cbor_encode_array_begin n = prv_encode_unsigned_integer kCborMajorType_Array n"

section \<open>Encoding as a sequence of chunks\<close>

text \<open>
  Every operation hands a list of chunks to the storage, in order, and stops at the first one
  that does not fit.
\<close>

fun add_chunks :: "byte list list \<Rightarrow> 's encode" where
  "add_chunks [] e = Some (True, e)"
| "add_chunks (c # cs) e = enc_and (prv_add_to_result_buffer c) (add_chunks cs) e"

lemma enc_and_chunks: "enc_and (add_chunks cs) (add_chunks ds) = add_chunks (cs @ ds)"
proof
  fix e show "enc_and (add_chunks cs) (add_chunks ds) e = add_chunks (cs @ ds) e"
    by (induction cs arbitrary: e) (auto simp: enc_and_def split: bind_splits prod.splits)
qed

lemma add_chunk: "prv_add_to_result_buffer c = add_chunks [c]"
  by (rule ext) (auto simp: enc_and_def split: bind_splits prod.splits)

lemma encode_unsigned_chunks:
  "prv_encode_unsigned_integer mt v = add_chunks [cbor_head mt (u32_of v)]"
  by (simp only: prv_encode_unsigned_integer_def add_chunk)

lemma encode_string_chunks:
  "ticos_cbor_encode_byte_string d = add_chunks [cbor_head 2 (u32_of (length d)), d]"
  "ticos_cbor_encode_string d = add_chunks [cbor_head 3 (u32_of (length d)), d]"
  by (simp_all only: ticos_cbor_encode_byte_string_def ticos_cbor_encode_string_def
      encode_unsigned_chunks add_chunk enc_and_chunks cbor_types append.simps)

lemma size_only_chunks:
  assumes "compute_size_only e"
  shows "\<exists>e'. add_chunks cs e = Some (True, e') \<and> compute_size_only e' \<and>
           u64_of (encoded_size e') = u64_of (encoded_size e + length (concat cs)) \<and>
           (encoded_size e < 2 ^ 64 \<longrightarrow> encoded_size e' < 2 ^ 64)"
  using assms
proof (induction cs arbitrary: e)
  case (Cons c cs)
  let ?e = "if c = [] then e else e\<lparr>encoded_size := u64_of (encoded_size e + length c)\<rparr>"
  have "prv_add_to_result_buffer c e = Some (True, ?e)"
    using Cons.prems by (simp add: prv_add_to_result_buffer_def)
  moreover have "u64_of (encoded_size ?e + length (concat cs)) = u64_of (encoded_size e + length (concat (c # cs)))"
    by (simp add: u64_of_def mod_simps add.assoc)
  moreover have "encoded_size e < 2 ^ 64 \<longrightarrow> encoded_size ?e < 2 ^ 64" by (simp add: u64_of_def)
  ultimately show ?case using Cons.IH [of ?e] Cons.prems by (auto simp: enc_and_def)
qed simp

section \<open>Storage\<close>

text \<open>
  What the encoder asks of its storage: a write of \<open>ys\<close> at the offset where the last one
  ended succeeds while the storage has room, and appends.
\<close>

locale cbor_sink =
  fixes cb :: "'s cbor_write_cb"
    and holds :: "'s \<Rightarrow> byte list \<Rightarrow> bool"
    and cap :: "'s \<Rightarrow> nat"
  assumes put: "holds s xs \<Longrightarrow> length xs + length ys \<le> cap s \<Longrightarrow>
      \<exists>s'. cb s (length xs) ys = Some s' \<and> holds s' (xs @ ys) \<and> cap s' = cap s"
begin

definition at :: "'s sTicosCborEncoder \<Rightarrow> nat \<Rightarrow> byte list \<Rightarrow> bool" where
  "at e n xs \<longleftrightarrow>
     \<not> compute_size_only e \<and> write_cb e = Some cb \<and> buf_len e = n \<and> encoded_size e = length xs \<and>
     (\<exists>s. write_cb_ctx e = Some s \<and> holds s xs \<and> n \<le> cap s)"

lemma init_at: "holds s [] \<Longrightarrow> n \<le> cap s \<Longrightarrow> at (ticos_cbor_encoder_init (Some cb) (Some s) n) n []"
  by (simp add: at_def ticos_cbor_encoder_init_def)

lemma add_fits:
  assumes "at e n xs" and "n < 2 ^ 32" and "length xs + length c \<le> n"
  shows "\<exists>e'. prv_add_to_result_buffer c e = Some (True, e') \<and> at e' n (xs @ c)"
proof -
  from assms(1) obtain s where s: "write_cb_ctx e = Some s" "holds s xs" "n \<le> cap s"
    by (auto simp: at_def)
  with assms(3) obtain s' where s': "cb s (length xs) c = Some s'" "holds s' (xs @ c)" "cap s' = cap s"
    using put [of s xs c] by auto
  let ?e = "e\<lparr>write_cb_ctx := Some s', encoded_size := length xs + length c\<rparr>"
  have "prv_add_to_result_buffer c e = Some (True, ?e)" if "c \<noteq> []"
    using assms s(1) s'(1) that
    by (simp add: prv_add_to_result_buffer_def at_def u32_of_id u64_of_id)
  moreover have "at ?e n (xs @ c)" using assms(1) s(3) s'(2,3) by (simp add: at_def)
  ultimately show ?thesis
    using assms(1) by (cases "c = []") (auto simp: prv_add_to_result_buffer_def)
qed

lemma chunks_fit:
  assumes "at e n xs" and "n < 2 ^ 32" and "length xs + length (concat cs) \<le> n"
  shows "\<exists>e'. add_chunks cs e = Some (True, e') \<and> at e' n (xs @ concat cs)"
  using assms
proof (induction cs arbitrary: e xs)
  case (Cons c cs)
  then obtain e' where "prv_add_to_result_buffer c e = Some (True, e')" "at e' n (xs @ c)"
    using add_fits [of e n xs c] by auto
  with Cons.IH [of e' "xs @ c"] Cons.prems show ?case by (auto simp: enc_and_def)
qed simp

text \<open>When the chunks do not fit, encoding stops early and never leaves the storage.\<close>

lemma chunks_overflow:
  assumes "at e n xs" and "n < 2 ^ 32" and "length xs \<le> n" and "n < length xs + length (concat cs)"
    and "\<forall>c \<in> set cs. length c < 2 ^ 63"
  shows "\<exists>e' ds. add_chunks cs e = Some (False, e') \<and> at e' n (xs @ concat ds) \<and>
           length (xs @ concat ds) \<le> n \<and> (\<exists>es. es \<noteq> [] \<and> cs = ds @ es)"
  using assms
proof (induction cs arbitrary: e xs)
  case (Cons c cs)
  show ?case
  proof (cases "length xs + length c \<le> n")
    case True
    then obtain e' where e': "prv_add_to_result_buffer c e = Some (True, e')" "at e' n (xs @ c)"
      using add_fits [OF Cons.prems(1,2)] by auto
    with True Cons.prems obtain e'' ds es where "add_chunks cs e' = Some (False, e'')"
      "at e'' n (xs @ c @ concat ds)" "length (xs @ c @ concat ds) \<le> n" "es \<noteq> []" "cs = ds @ es"
      using Cons.IH [of e' "xs @ c"] by auto
    with e' show ?thesis by (intro exI [of _ e''] exI [of _ "c # ds"]) (auto simp: enc_and_def)
  next
    case False
    then have "prv_add_to_result_buffer c e = Some (False, e)"
      using Cons.prems by (auto simp: prv_add_to_result_buffer_def at_def u64_of_id)
    with Cons.prems(1,3) show ?thesis
      by (intro exI [of _ e] exI [of _ "[]"]) (simp add: enc_and_def)
  qed
qed simp

end

section \<open>Decoding\<close>

datatype cbor_token =
    TInt int
  | TBytes "byte list"
  | TText "byte list"
  | TArray nat
  | TMap nat
  | TDouble u64

fun be_nat :: "nat \<Rightarrow> byte list \<Rightarrow> nat" where
  "be_nat acc [] = acc"
| "be_nat acc (b # bs) = be_nat (256 * acc + unat b) bs"

text \<open>The initial byte and the argument that follows it: major type, additional information, value.\<close>

fun decode_head :: "byte list \<Rightarrow> (nat \<times> nat \<times> nat \<times> byte list) option" where
  "decode_head [] = None"
| "decode_head (b # bs) =
     (let mt = unat b div 32; info = unat b mod 32; n = 2 ^ (info - 24) in
      if info < 24 then Some (mt, info, info, bs)
      else if info \<le> 27 \<and> n \<le> length bs then Some (mt, info, be_nat 0 (take n bs), drop n bs)
      else None)"

definition decode_token :: "byte list \<Rightarrow> (cbor_token \<times> byte list) option" where
  "decode_token bs = do {
     (mt, info, v, bs) \<leftarrow> decode_head bs;
     if mt = 0 then Some (TInt (int v), bs)
     else if mt = 1 then Some (TInt (- 1 - int v), bs)
     else if mt = 2 then (if v \<le> length bs then Some (TBytes (take v bs), drop v bs) else None)
     else if mt = 3 then (if v \<le> length bs then Some (TText (take v bs), drop v bs) else None)
     else if mt = 4 then Some (TArray v, bs)
     else if mt = 5 then Some (TMap v, bs)
     else if mt = 7 \<and> info = 27 then Some (TDouble (word_of_nat v), bs)
     else None
   }"

fun decode_tokens :: "nat \<Rightarrow> byte list \<Rightarrow> (cbor_token list \<times> byte list) option" where
  "decode_tokens 0 bs = Some ([], bs)"
| "decode_tokens (Suc n) bs = do {
     (t, bs) \<leftarrow> decode_token bs;
     (ts, bs) \<leftarrow> decode_tokens n bs;
     Some (t # ts, bs)
   }"

text \<open>The calls of the encoder's interface, and the data item each of them stands for.\<close>

datatype cbor_call =
    EUnsigned nat
  | ESigned u32
  | ELongSigned u64
  | EDouble u64
  | EByteString "byte list"
  | EString "byte list"
  | EDictionary nat
  | EArray nat

fun encode_call :: "cbor_call \<Rightarrow> 's encode" where
  "encode_call (EUnsigned v) = ticos_cbor_encode_unsigned_integer v"
| "encode_call (ESigned v) = ticos_cbor_encode_signed_integer v"
| "encode_call (ELongSigned v) = ticos_cbor_encode_long_signed_integer v"
| "encode_call (EDouble v) = ticos_cbor_encode_uint64_as_double v"
| "encode_call (EByteString bs) = ticos_cbor_encode_byte_string bs"
| "encode_call (EString bs) = ticos_cbor_encode_string bs"
| "encode_call (EDictionary n) = ticos_cbor_encode_dictionary_begin n"
| "encode_call (EArray n) = ticos_cbor_encode_array_begin n"

fun encode_calls :: "cbor_call list \<Rightarrow> 's encode" where
  "encode_calls [] e = Some (True, e)"
| "encode_calls (c # cs) e = enc_and (encode_call c) (encode_calls cs) e"

fun token_of :: "cbor_call \<Rightarrow> cbor_token" where
  "token_of (EUnsigned v) = TInt (int v)"
| "token_of (ESigned v) = TInt (sint v)"
| "token_of (ELongSigned v) = TInt (sint v)"
| "token_of (EDouble v) = TDouble v"
| "token_of (EByteString bs) = TBytes bs"
| "token_of (EString bs) = TText bs"
| "token_of (EDictionary n) = TMap n"
| "token_of (EArray n) = TArray n"

text \<open>Lengths and counts are passed as \<^verbatim>\<open>uint32_t\<close>.\<close>

fun fits_u32 :: "cbor_call \<Rightarrow> bool" where
  "fits_u32 (EUnsigned v) = (v < 2 ^ 32)"
| "fits_u32 (EByteString bs) = (length bs < 2 ^ 32)"
| "fits_u32 (EString bs) = (length bs < 2 ^ 32)"
| "fits_u32 (EDictionary n) = (n < 2 ^ 32)"
| "fits_u32 (EArray n) = (n < 2 ^ 32)"
| "fits_u32 _ = True"

subsection \<open>Heads\<close>

lemma unat_byte_sum: "n < 256 \<Longrightarrow> unat (word_of_nat n :: byte) = n"
  by (simp add: unat_of_nat)

lemma head_byte:
  assumes "mt < 8" and "i < 32"
  shows "unat (CBOR_SERIALIZE_MAJOR_TYPE mt + word_of_nat i) = mt * 32 + i"
proof -
  have eq: "CBOR_SERIALIZE_MAJOR_TYPE mt + word_of_nat i = word_of_nat (mt * 32 + i)"
    using assms(1) by (simp add: CBOR_SERIALIZE_MAJOR_TYPE_def)
  show ?thesis unfolding eq by (rule unat_byte_sum) (use assms in arith)
qed

lemma head_byte_or:
  assumes "mt < 8"
  shows "CBOR_SERIALIZE_MAJOR_TYPE mt OR 27 = CBOR_SERIALIZE_MAJOR_TYPE mt + word_of_nat 27"
proof -
  have "mt \<in> {0, 1, 2, 3, 4, 5, 6, 7}" using assms by auto
  then show ?thesis by (auto simp: CBOR_SERIALIZE_MAJOR_TYPE_def)
qed

lemma be_nat_append: "be_nat acc (xs @ [b]) = 256 * be_nat acc xs + unat b"
  by (induction xs arbitrary: acc) simp_all

lemma be_nat_rev: "be_nat 0 (rev xs) = le_nat xs"
  by (induction xs) (simp_all add: be_nat_append)

lemma be_nat_le: "v < 256 ^ n \<Longrightarrow> be_nat 0 (rev (nat_le n v)) = v"
  by (simp add: be_nat_rev le_nat_nat_le)

lemma nat_le_rec: "nat_le n x = (if n = 0 then [] else word_of_nat x # nat_le (n - 1) (x div 256))"
  by (cases n) simp_all

lemma nat_le_unfold:
  "nat_le 1 v = [word_of_nat v]" "nat_le 2 v = [word_of_nat v, word_of_nat (v div 2 ^ 8)]"
  "nat_le 4 v = [word_of_nat v, word_of_nat (v div 2 ^ 8), word_of_nat (v div 2 ^ 16),
                 word_of_nat (v div 2 ^ 24)]"
  by (simp_all add: nat_le_rec [of 1] nat_le_rec [of 2] nat_le_rec [of 3] nat_le_rec [of 4] nat_le_rec [of 0]
      div_mult2_eq [symmetric])

lemma cbor_head_eq:
  "cbor_head mt v =
     (if v < 24 then [CBOR_SERIALIZE_MAJOR_TYPE mt + word_of_nat v]
      else if v \<le> 0xff then (CBOR_SERIALIZE_MAJOR_TYPE mt + word_of_nat 24) # rev (nat_le 1 v)
      else if v \<le> 0xffff then (CBOR_SERIALIZE_MAJOR_TYPE mt + word_of_nat 25) # rev (nat_le 2 v)
      else (CBOR_SERIALIZE_MAJOR_TYPE mt + word_of_nat 26) # rev (nat_le 4 v))"
  by (simp add: cbor_head_def Let_def nat_le_unfold)

lemma decode_head_bytes:
  assumes "mt < 8" and "i \<in> {24, 25, 26, 27}" and "n = 2 ^ (i - 24)" and "v < 256 ^ n"
  shows "decode_head ((CBOR_SERIALIZE_MAJOR_TYPE mt + word_of_nat i) # rev (nat_le n v) @ r) =
           Some (mt, i, v, r)"
proof -
  have i: "24 \<le> i" "i \<le> 27" using assms(2) by auto
  then have "unat (CBOR_SERIALIZE_MAJOR_TYPE mt + word_of_nat i) = mt * 32 + i"
    by (intro head_byte assms(1)) simp
  with i assms(3,4) show ?thesis by (simp add: Let_def be_nat_le)
qed

lemma decode_cbor_head:
  assumes "mt < 8" and "v < 2 ^ 32"
  shows "\<exists>i < 27. decode_head (cbor_head mt v @ r) = Some (mt, i, v, r)"
proof -
  consider "v < 24" | "24 \<le> v" "v \<le> 0xff" | "0xff < v" "v \<le> 0xffff" | "0xffff < v" by linarith
  then show ?thesis
  proof cases
    case 1
    then show ?thesis using head_byte [OF assms(1), of v] by (simp add: cbor_head_eq Let_def)
  next
    case 2
    with decode_head_bytes [OF assms(1), of 24 1 v r] show ?thesis
      by (intro exI [of _ 24]) (simp add: cbor_head_eq del: decode_head.simps)
  next
    case 3
    with decode_head_bytes [OF assms(1), of 25 2 v r] show ?thesis
      by (intro exI [of _ 25]) (simp add: cbor_head_eq del: decode_head.simps)
  next
    case 4
    with decode_head_bytes [OF assms(1), of 26 4 v r] assms(2) show ?thesis
      by (intro exI [of _ 26]) (simp add: cbor_head_eq del: decode_head.simps)
  qed
qed

subsection \<open>Signed and 64-bit integers\<close>

lemma sint_bounds: "- (2 ^ (LENGTH('a) - 1)) \<le> sint (w :: 'a :: len word)" "sint w < 2 ^ (LENGTH('a) - 1)"
  using sint_greater_eq [of w] sint_less [of w] by simp_all

lemma sign_word:
  "signed_drop_bit (LENGTH('a) - 1) w = (if sint w < 0 then - 1 else (0 :: 'a :: len word))"
proof (rule signed_word_eqI)
  have "drop_bit (LENGTH('a) - 1) (sint w) = (if sint w < 0 then - 1 else 0)"
  proof (cases "sint w < 0")
    case True
    have "sint w div 2 ^ (LENGTH('a) - 1) = - 1"
      using True sint_bounds(1) [of w] by (intro int_div_pos_eq [where r = "sint w + 2 ^ (LENGTH('a) - 1)"]) simp_all
    with True show ?thesis by (simp add: drop_bit_eq_div)
  qed (use sint_bounds(2) [of w] in \<open>simp add: drop_bit_eq_div\<close>)
  then show "sint (signed_drop_bit (LENGTH('a) - 1) w) = sint (if sint w < 0 then - 1 else 0 :: 'a word)"
    by (simp add: sint_signed_drop_bit_eq)
qed

lemma sint_not: "sint (NOT w) = - 1 - sint (w :: 'a :: len word)"
proof -
  have "sint (NOT w) = signed_take_bit LENGTH('a) (NOT (sint w))" by (rule signed_not_eq)
  also have "\<dots> = NOT (sint w)"
  proof (rule signed_take_bit_int_eq_self)
    have "(2 :: int) ^ (LENGTH('a) - 1) \<le> 2 ^ LENGTH('a)" by (rule power_increasing) simp_all
    with sint_bounds [of w] show "- (2 ^ LENGTH('a)) \<le> NOT (sint w)" "NOT (sint w) < 2 ^ LENGTH('a)"
      unfolding not_int_def by linarith+
  qed
  finally show ?thesis by (simp add: not_int_def)
qed

lemma unat_sint: "0 \<le> sint w \<Longrightarrow> unat (w :: 'a :: len word) = nat (sint w)"
proof -
  assume a: "0 \<le> sint w"
  have "(2 :: int) ^ (LENGTH('a) - 1) \<le> 2 ^ LENGTH('a)" by (rule power_increasing) simp_all
  with sint_bounds(2) [of w] have "sint w < 2 ^ LENGTH('a)" by linarith
  with a have "uint w = sint w" by (simp add: uint_sint take_bit_int_eq_self)
  then show ?thesis by (metis nat_uint_eq)
qed

text \<open>
  The two values both signed encoders compute: the sign bit as the major type, and the value or
  its complement.
\<close>

lemma signed_parts:
  fixes w :: "'a :: len word"
  defines "ui \<equiv> signed_drop_bit (LENGTH('a) - 1) w"
  shows "unat (ui AND 1) = (if sint w < 0 then 1 else 0)"
    and "sint (ui XOR w) = (if sint w < 0 then - 1 - sint w else sint w)"
    and "unat (ui XOR w) = nat (if sint w < 0 then - 1 - sint w else sint w)"
proof -
  show "unat (ui AND 1) = (if sint w < 0 then 1 else 0)" unfolding ui_def sign_word by simp
  have x: "ui XOR w = (if sint w < 0 then NOT w else w)" unfolding ui_def sign_word by simp
  then show s: "sint (ui XOR w) = (if sint w < 0 then - 1 - sint w else sint w)"
    by (simp add: sint_not)
  then show "unat (ui XOR w) = nat (if sint w < 0 then - 1 - sint w else sint w)"
    using unat_sint [of "ui XOR w"] by (simp split: if_splits)
qed

lemma encode_uint64_eq: "prv_encode_uint64 v = rev (nat_le 8 (unat v))"
proof -
  have byte: "ucast (drop_bit k v) = (word_of_nat (unat v div 2 ^ k) :: byte)" for k
    unfolding word_unat_eq_iff unat_of_nat unsigned_ucast_eq unat_drop_bit_eq
    by (simp add: drop_bit_eq_div take_bit_eq_mod)
  show ?thesis
    unfolding prv_encode_uint64_def byte list.map
    by (simp add: nat_le_rec [of 8] nat_le_rec [of 7] nat_le_rec [of 6] nat_le_rec [of 5] nat_le_rec [of 4]
        nat_le_rec [of 3] nat_le_rec [of 2] nat_le_rec [of 1] nat_le_rec [of 0] div_mult2_eq [symmetric])
qed

lemma decode_uint64_head:
  assumes "mt < 8"
  shows "decode_head ((CBOR_SERIALIZE_MAJOR_TYPE mt OR 27) # prv_encode_uint64 v @ r) =
     Some (mt, 27, unat v, r)"
  unfolding head_byte_or [OF assms] encode_uint64_eq
proof (rule decode_head_bytes [OF assms])
  have "unat v < 2 ^ 64" using unsigned_less [of v] by simp
  then show "unat v < 256 ^ 8" by simp
qed simp_all

subsection \<open>Round trip\<close>

fun call_chunks :: "cbor_call \<Rightarrow> byte list list" where
  "call_chunks (EUnsigned v) = [cbor_head 0 (u32_of v)]"
| "call_chunks (ESigned v) =
     [cbor_head (if sint v < 0 then 1 else 0) (nat (if sint v < 0 then - 1 - sint v else sint v))]"
| "call_chunks (ELongSigned v) =
     (let mt = (if sint v < 0 then 1 else 0); n = (if sint v < 0 then - 1 - sint v else sint v) in
      if n \<le> 2 ^ 32 - 1 then [cbor_head mt (nat n)]
      else [(CBOR_SERIALIZE_MAJOR_TYPE mt OR 27) # prv_encode_uint64 (word_of_int n)])"
| "call_chunks (EDouble v) = [(CBOR_SERIALIZE_MAJOR_TYPE 7 OR 27) # prv_encode_uint64 v]"
| "call_chunks (EByteString bs) = [cbor_head 2 (u32_of (length bs)), bs]"
| "call_chunks (EString bs) = [cbor_head 3 (u32_of (length bs)), bs]"
| "call_chunks (EDictionary n) = [cbor_head 5 (u32_of n)]"
| "call_chunks (EArray n) = [cbor_head 4 (u32_of n)]"

lemma signed_chunks: "ticos_cbor_encode_signed_integer v = add_chunks (call_chunks (ESigned v))"
proof -
  note p = signed_parts [of v, simplified]
  have "unat x < 2 ^ 32" for x :: u32 using unsigned_less [of x] by simp
  then have u: "u32_of (unat x) = unat x" for x :: u32 by (rule u32_of_id)
  have "unat (signed_drop_bit 31 v XOR v) = nat (if sint v < 0 then - 1 - sint v else sint v)"
    by (rule p(3))
  with p(1) show ?thesis
    by (simp add: ticos_cbor_encode_signed_integer_def Let_def encode_unsigned_chunks u del: add_chunks.simps)
qed

lemma long_signed_chunks:
  "ticos_cbor_encode_long_signed_integer v = add_chunks (call_chunks (ELongSigned v))"
proof -
  note p = signed_parts [where w = v, simplified]
  let ?n = "if sint v < 0 then - 1 - sint v else sint v"
  have n: "unat (signed_drop_bit 63 v XOR v) = nat ?n" by (rule p(3))
  have w: "signed_drop_bit 63 v XOR v = word_of_int ?n"
    unfolding p(2) [symmetric] by simp
  have "u32_of (nat ?n) = nat ?n" if "?n \<le> 2 ^ 32 - 1" using that by (simp add: u32_of_id)
  then show ?thesis
    unfolding ticos_cbor_encode_long_signed_integer_def Let_def p(1) p(2) n call_chunks.simps
    by (simp add: encode_unsigned_chunks add_chunk w del: add_chunks.simps)
qed

lemma encode_call_chunks: "encode_call c = add_chunks (call_chunks c)"
proof (cases c)
  case (ESigned v)
  show ?thesis unfolding ESigned encode_call.simps by (rule signed_chunks)
next
  case (ELongSigned v)
  show ?thesis unfolding ELongSigned encode_call.simps by (rule long_signed_chunks)
next
  case (EByteString bs)
  show ?thesis unfolding EByteString encode_call.simps call_chunks.simps by (rule encode_string_chunks)
next
  case (EString bs)
  show ?thesis unfolding EString encode_call.simps call_chunks.simps by (rule encode_string_chunks)
qed (simp_all add: ticos_cbor_encode_unsigned_integer_def ticos_cbor_encode_dictionary_begin_def
    ticos_cbor_encode_array_begin_def ticos_cbor_encode_uint64_as_double_def encode_unsigned_chunks
    add_chunk cbor_types del: add_chunks.simps)

lemma encode_calls_chunks: "(encode_calls cs :: 's encode) = add_chunks (concat (map call_chunks cs))"
proof (induction cs)
  case (Cons c cs)
  have "(encode_calls (c # cs) :: 's encode) = enc_and (encode_call c) (encode_calls cs)" by (rule ext) simp
  also have "\<dots> = add_chunks (call_chunks c @ concat (map call_chunks cs))"
    by (simp only: Cons encode_call_chunks enc_and_chunks)
  finally show ?case by simp
qed (simp add: fun_eq_iff)

lemma decode_head_int:
  "mt < 2 \<Longrightarrow> v < 2 ^ 32 \<Longrightarrow>
     decode_token (cbor_head mt v @ r) = Some (TInt (if mt = 1 then - 1 - int v else int v), r)"
  using decode_cbor_head [of mt v r] by (auto simp: decode_token_def)

lemma decode_head_string:
  "length bs < 2 ^ 32 \<Longrightarrow> decode_token (cbor_head 2 (length bs) @ bs @ r) = Some (TBytes bs, r)"
  "length bs < 2 ^ 32 \<Longrightarrow> decode_token (cbor_head 3 (length bs) @ bs @ r) = Some (TText bs, r)"
  using decode_cbor_head [of 2 "length bs" "bs @ r"] decode_cbor_head [of 3 "length bs" "bs @ r"]
  by (auto simp: decode_token_def)

lemma decode_head_container:
  "n < 2 ^ 32 \<Longrightarrow> decode_token (cbor_head 4 n @ r) = Some (TArray n, r)"
  "n < 2 ^ 32 \<Longrightarrow> decode_token (cbor_head 5 n @ r) = Some (TMap n, r)"
  using decode_cbor_head [of 4 n r] decode_cbor_head [of 5 n r] by (auto simp: decode_token_def)

lemma decode_signed:
  fixes v :: u32
  shows "decode_token (concat (call_chunks (ESigned v)) @ r) = Some (TInt (sint v), r)"
proof -
  let ?n = "nat (if sint v < 0 then - 1 - sint v else sint v)"
  have "?n < 2 ^ 32"
    using sint_bounds [of v] by (cases "sint v < 0") (simp_all add: nat_less_iff)
  then show ?thesis using decode_head_int [of "if sint v < 0 then 1 else 0" ?n r] by auto
qed

lemma decode_long_signed:
  fixes v :: u64
  shows "decode_token (concat (call_chunks (ELongSigned v)) @ r) = Some (TInt (sint v), r)"
proof -
  let ?n = "if sint v < 0 then - 1 - sint v else sint v" and ?mt = "if sint v < 0 then 1 else 0 :: nat"
  have n: "0 \<le> ?n" "?n < 2 ^ 63" using sint_bounds [of v] by (auto split: if_splits)
  show ?thesis
  proof (cases "?n \<le> 2 ^ 32 - 1")
    case True
    with n have "nat ?n < 2 ^ 32" by simp
    from decode_head_int [of ?mt, OF _ this, of r] True n show ?thesis by (auto simp: Let_def)
  next
    case False
    have "unat (word_of_int ?n :: u64) = nat ?n"
      using n by (simp add: unsigned_of_int take_bit_int_eq_self nat_eq_iff)
    then show ?thesis
      using False n decode_uint64_head [of ?mt "word_of_int ?n" r]
      by (auto simp: Let_def decode_token_def simp del: decode_head.simps)
  qed
qed

lemma decode_call: "fits_u32 c \<Longrightarrow> decode_token (concat (call_chunks c) @ r) = Some (token_of c, r)"
proof (cases c)
  case (ESigned v)
  then show ?thesis using decode_signed [of v r] by simp
next
  case (ELongSigned v)
  then show ?thesis using decode_long_signed [of v r] by simp
next
  case (EDouble v)
  then show ?thesis
    using decode_uint64_head [of 7 v r] by (simp add: decode_token_def del: decode_head.simps)
qed (simp_all add: u32_of_id decode_head_int decode_head_string decode_head_container)

lemma decode_calls:
  "\<forall>c \<in> set cs. fits_u32 c \<Longrightarrow>
     decode_tokens (length cs) (concat (concat (map call_chunks cs)) @ r) = Some (map token_of cs, r)"
  by (induction cs) (simp_all add: decode_call)

end
