(* ===== verification/Core_Elf_Metadata.thy ===== *)
theory Core_Elf_Metadata
  imports Cbor
begin

text \<open>
  ELF notes (src/plugins/coredump/core_elf_note.c) and the metadata note that ticosd adds to every
  core file (core_elf_metadata.c): the computation of the note's size and the routine that
  writes the note into a buffer. The buffer is a list of bytes and \<open>None\<close> is a write outside it.
  Strings are given by their bytes.
\<close>

section \<open>Notes\<close>

definition prv_calc_owner_name_size :: "byte list option \<Rightarrow> nat" where
  "prv_calc_owner_name_size owner_name =
     (let owner_name_strlen = (case owner_name of None \<Rightarrow> 0 | Some s \<Rightarrow> length s) in
      if owner_name_strlen > 0 then owner_name_strlen + 1 else 0)"

definition sizeof_Elf_Nhdr :: nat where "sizeof_Elf_Nhdr = 12"

definition ticos_core_elf_note_calculate_size :: "byte list option \<Rightarrow> nat \<Rightarrow> nat" where
  "ticos_core_elf_note_calculate_size owner_name description_size =
     u64_of (sizeof_Elf_Nhdr + TICOS_ALIGN_UP (prv_calc_owner_name_size owner_name) 4 +
             TICOS_ALIGN_UP description_size 4)"

definition elf_nhdr :: "nat \<Rightarrow> nat \<Rightarrow> nat \<Rightarrow> byte list" where
  "elf_nhdr n_namesz n_descsz n_type = nat_le 4 n_namesz @ nat_le 4 n_descsz @ nat_le 4 n_type"

text \<open>The bytes \<^verbatim>\<open>memcpy\<close> reads from the owner name: its characters and the terminating NUL.\<close>

definition owner_name_bytes :: "byte list option \<Rightarrow> nat \<Rightarrow> byte list" where
  "owner_name_bytes owner_name n = (case owner_name of None \<Rightarrow> [] | Some s \<Rightarrow> take n (s @ [0]))"

definition ticos_core_elf_note_init ::
  "byte list \<Rightarrow> byte list option \<Rightarrow> nat \<Rightarrow> nat \<Rightarrow> (byte list \<times> nat) option" where
  "ticos_core_elf_note_init out_buffer owner_name description_size n_type = do {
     let owner_name_size = prv_calc_owner_name_size owner_name;
     b \<leftarrow> mem_write out_buffer 0 (elf_nhdr owner_name_size description_size n_type);
     let payload = sizeof_Elf_Nhdr;
     let owner_name_and_padding_size = TICOS_ALIGN_UP owner_name_size 4;
     b \<leftarrow> mem_write b payload
       (replicate (u64_of (owner_name_and_padding_size + TICOS_ALIGN_UP description_size 4)) 0);
     b \<leftarrow> mem_write b payload (owner_name_bytes owner_name owner_name_size);
     Some (b, payload + owner_name_and_padding_size)
   }"

section \<open>Metadata\<close>

record sTicosCoreElfMetadata =
  linux_sdk_version :: "byte list"
  captured_time_epoch_s :: nat
  device_serial :: "byte list"
  hardware_version :: "byte list"
  software_type :: "byte list"
  software_version :: "byte list"

definition s_note_name :: "byte list" where "s_note_name = [0x54, 0x69, 0x63, 0x6f, 0x73]"
definition s_metadata_note_type :: nat where "s_metadata_note_type = 0x4154454d"

text \<open>The buffer the callback writes to, and the address in it that \<^verbatim>\<open>ctx\<close> points to.\<close>

definition prv_write_cbor_to_buffer_cb :: "(byte list \<times> nat) cbor_write_cb" where
  "prv_write_cbor_to_buffer_cb ctx offset data = do {
     b \<leftarrow> mem_write (fst ctx) (snd ctx + offset) data;
     Some (b, snd ctx)
   }"

definition prv_add_schema_version :: "'s encode" where
  "prv_add_schema_version =
     enc_and (ticos_cbor_encode_unsigned_integer 1) (ticos_cbor_encode_unsigned_integer 1)"

definition prv_add_linux_sdk_version :: "byte list \<Rightarrow> 's encode" where
  "prv_add_linux_sdk_version s =
     enc_and (ticos_cbor_encode_unsigned_integer 2) (ticos_cbor_encode_string s)"

definition prv_add_captured_time :: "nat \<Rightarrow> 's encode" where
  "prv_add_captured_time t =
     enc_and (ticos_cbor_encode_unsigned_integer 3) (ticos_cbor_encode_unsigned_integer t)"

definition prv_add_device_serial :: "byte list \<Rightarrow> 's encode" where
  "prv_add_device_serial s =
     enc_and (ticos_cbor_encode_unsigned_integer 4) (ticos_cbor_encode_string s)"

definition prv_add_hardware_version :: "byte list \<Rightarrow> 's encode" where
  "prv_add_hardware_version s =
     enc_and (ticos_cbor_encode_unsigned_integer 5) (ticos_cbor_encode_string s)"

definition prv_add_software_type :: "byte list \<Rightarrow> 's encode" where
  "prv_add_software_type s =
     enc_and (ticos_cbor_encode_unsigned_integer 6) (ticos_cbor_encode_string s)"

definition prv_add_software_version :: "byte list \<Rightarrow> 's encode" where
  "prv_add_software_version s =
     enc_and (ticos_cbor_encode_unsigned_integer 7) (ticos_cbor_encode_string s)"

definition prv_add_cbor_metadata :: "sTicosCoreElfMetadata \<Rightarrow> 's encode" where
  "prv_add_cbor_metadata metadata =
     enc_and (ticos_cbor_encode_dictionary_begin 7)
      (enc_and prv_add_schema_version
        (enc_and (prv_add_linux_sdk_version (linux_sdk_version metadata))
          (enc_and (prv_add_captured_time (captured_time_epoch_s metadata))
            (enc_and (prv_add_device_serial (device_serial metadata))
              (enc_and (prv_add_hardware_version (hardware_version metadata))
                (enc_and (prv_add_software_type (software_type metadata))
                  (prv_add_software_version (software_version metadata))))))))"

definition prv_cbor_calculate_size :: "sTicosCoreElfMetadata \<Rightarrow> nat" where
  "prv_cbor_calculate_size metadata =
     (case prv_add_cbor_metadata metadata (ticos_cbor_encoder_size_only_init :: unit sTicosCborEncoder) of
        None \<Rightarrow> 0 | Some (_, e) \<Rightarrow> fst (ticos_cbor_encoder_deinit e))"

definition ticos_core_elf_metadata_note_calculate_size :: "sTicosCoreElfMetadata \<Rightarrow> nat" where
  "ticos_core_elf_metadata_note_calculate_size metadata =
     ticos_core_elf_note_calculate_size (Some s_note_name) (prv_cbor_calculate_size metadata)"

definition ticos_core_elf_metadata_note_write ::
  "sTicosCoreElfMetadata \<Rightarrow> byte list \<Rightarrow> nat \<Rightarrow> (bool \<times> byte list) option" where
  "ticos_core_elf_metadata_note_write metadata note_buffer note_buffer_size = do {
     let description_size = prv_cbor_calculate_size metadata;
     (b, description_buffer) \<leftarrow>
       ticos_core_elf_note_init note_buffer (Some s_note_name) description_size s_metadata_note_type;
     let note_header_size = description_buffer;
     (ok, e) \<leftarrow> prv_add_cbor_metadata metadata
       (ticos_cbor_encoder_init (Some prv_write_cbor_to_buffer_cb) (Some (b, description_buffer))
         (u64_of (note_buffer_size + 2 ^ 64 - note_header_size)));
     ctx \<leftarrow> write_cb_ctx e;
     Some (ok, fst ctx)
   }"

section \<open>The metadata as a list of encoder calls\<close>

definition metadata_calls :: "sTicosCoreElfMetadata \<Rightarrow> cbor_call list" where
  "metadata_calls md =
     [EDictionary 7, EUnsigned 1, EUnsigned 1, EUnsigned 2, EString (linux_sdk_version md),
      EUnsigned 3, EUnsigned (captured_time_epoch_s md), EUnsigned 4, EString (device_serial md),
      EUnsigned 5, EString (hardware_version md), EUnsigned 6, EString (software_type md),
      EUnsigned 7, EString (software_version md)]"

definition metadata_cbor :: "sTicosCoreElfMetadata \<Rightarrow> byte list" where
  "metadata_cbor md = concat (concat (map call_chunks (metadata_calls md)))"

lemma add_cbor_metadata_calls: "prv_add_cbor_metadata md = encode_calls (metadata_calls md)"
proof -
  have step: "enc_and (encode_call c) (encode_calls cs) = encode_calls (c # cs)" for c cs
    by (rule ext) simp
  have assoc: "enc_and (enc_and f g) k = enc_and f (enc_and g k)" for f g k
    by (rule ext) (auto simp: enc_and_def split: bind_splits prod.splits)
  have last: "encode_call c = encode_calls [c]" for c
    by (rule ext) (auto simp: enc_and_def split: bind_splits prod.splits)
  show ?thesis
    unfolding prv_add_cbor_metadata_def prv_add_schema_version_def prv_add_linux_sdk_version_def
      prv_add_captured_time_def prv_add_device_serial_def prv_add_hardware_version_def
      prv_add_software_type_def prv_add_software_version_def assoc encode_call.simps [symmetric]
      metadata_calls_def
    by (simp only: last [of "EString (software_version md)"] step)
qed

lemma add_cbor_metadata_chunks:
  "prv_add_cbor_metadata md = add_chunks (concat (map call_chunks (metadata_calls md)))"
  by (simp only: add_cbor_metadata_calls encode_calls_chunks)

text \<open>The number of bytes a sequence of calls takes, computed by the encoder in its size-only mode.\<close>

definition encoded_length :: "cbor_call list \<Rightarrow> nat" where
  "encoded_length cs =
     (case encode_calls cs (ticos_cbor_encoder_size_only_init :: unit sTicosCborEncoder) of
        None \<Rightarrow> 0 | Some (_, e) \<Rightarrow> fst (ticos_cbor_encoder_deinit e))"

lemma encoded_length_eq:
  assumes "length (concat (concat (map call_chunks cs))) < 2 ^ 64"
  shows "encoded_length cs = length (concat (concat (map call_chunks cs)))"
proof -
  let ?e = "ticos_cbor_encoder_size_only_init :: unit sTicosCborEncoder"
  have "compute_size_only ?e" "encoded_size ?e = 0"
    by (simp_all add: ticos_cbor_encoder_size_only_init_def ticos_cbor_encoder_init_def)
  then obtain e' where "encode_calls cs ?e = Some (True, e')" "encoded_size e' < 2 ^ 64"
    "u64_of (encoded_size e') = u64_of (length (concat (concat (map call_chunks cs))))"
    using size_only_chunks [of ?e "concat (map call_chunks cs)"] by (auto simp: encode_calls_chunks)
  with assms show ?thesis
    by (simp add: encoded_length_def ticos_cbor_encoder_deinit_def u64_of_id)
qed

lemma calculate_size_eq:
  "length (metadata_cbor md) < 2 ^ 64 \<Longrightarrow> prv_cbor_calculate_size md = length (metadata_cbor md)"
  using encoded_length_eq [of "metadata_calls md"]
  by (simp add: prv_cbor_calculate_size_def add_cbor_metadata_calls encoded_length_def metadata_cbor_def)

section \<open>The note buffer as storage\<close>

definition note_holds :: "byte list \<Rightarrow> byte list \<Rightarrow> byte list \<times> nat \<Rightarrow> byte list \<Rightarrow> bool" where
  "note_holds p z ctx xs \<longleftrightarrow>
     snd ctx = length p \<and> length xs \<le> length z \<and> fst ctx = p @ xs @ drop (length xs) z"

definition note_cap :: "byte list \<times> nat \<Rightarrow> nat" where
  "note_cap ctx = length (fst ctx) - snd ctx"

interpretation note_sink: cbor_sink prv_write_cbor_to_buffer_cb "note_holds p z" note_cap for p z
  by unfold_locales
    (auto simp: note_holds_def note_cap_def prv_write_cbor_to_buffer_cb_def mem_write_def add.commute)

lemma note_init_eq:
  assumes "owner = Some s" and "s \<noteq> []" and "length s < 2 ^ 32" and "n < 2 ^ 32"
    and "length out = ticos_core_elf_note_calculate_size owner n"
  shows "ticos_core_elf_note_init out owner n ty =
     Some (elf_nhdr (length s + 1) n ty @ s @ replicate (TICOS_ALIGN_UP (length s + 1) 4 - length s) 0 @
           replicate (TICOS_ALIGN_UP n 4) 0,
           12 + TICOS_ALIGN_UP (length s + 1) 4)"
proof -
  let ?a = "TICOS_ALIGN_UP (length s + 1) 4" and ?d = "TICOS_ALIGN_UP n 4"
  have a: "length s + 1 \<le> ?a" "?a \<le> length s + 4" using align_up_4 [of "length s + 1"] assms(3) by simp_all
  have d: "n \<le> ?d" "?d \<le> n + 3" using align_up_4 [of n] assms(4) by simp_all
  have sz: "prv_calc_owner_name_size owner = length s + 1"
    using assms(1,2) by (simp add: prv_calc_owner_name_size_def)
  have out: "length out = 12 + ?a + ?d" and pad: "u64_of (?a + ?d) = ?a + ?d"
    using assms(3-5) a d sz
    by (simp_all add: ticos_core_elf_note_calculate_size_def sizeof_Elf_Nhdr_def u64_of_id)
  have rep: "replicate (?a + ?d) (0 :: byte) = replicate (length s + 1) 0 @ replicate (?a - (length s + 1)) 0 @ replicate ?d 0"
  proof -
    have "?a + ?d = (length s + 1) + ((?a - (length s + 1)) + ?d)" using a by simp
    then show ?thesis by (metis replicate_add)
  qed
  have pad': "0 # replicate (?a - (length s + 1)) 0 = replicate (?a - length s) (0 :: byte)"
    using a by (simp flip: replicate_Suc add: Suc_diff_le)
  have h: "length (elf_nhdr (length s + 1) n ty) = 12" by (simp add: elf_nhdr_def)
  have "mem_write out 0 (elf_nhdr (length s + 1) n ty) = Some (elf_nhdr (length s + 1) n ty @ drop 12 out)"
    using out h by (simp add: mem_write_def)
  moreover have "mem_write (elf_nhdr (length s + 1) n ty @ drop 12 out) 12 (replicate (?a + ?d) 0) =
      Some (elf_nhdr (length s + 1) n ty @ replicate (?a + ?d) 0)"
    using out h by (simp add: mem_write_def)
  moreover have "mem_write (elf_nhdr (length s + 1) n ty @ replicate (?a + ?d) 0) 12 (s @ [0]) =
      Some (elf_nhdr (length s + 1) n ty @ s @ [0] @ replicate (?a - (length s + 1)) 0 @ replicate ?d 0)"
    using a h unfolding rep by (simp add: mem_write_def)
  ultimately show ?thesis
    unfolding ticos_core_elf_note_init_def sz sizeof_Elf_Nhdr_def pad Let_def
    using assms(1) pad' by (simp add: owner_name_bytes_def)
qed

section \<open>Properties\<close>

text \<open>
  C19. Encoding any sequence of data items into a large enough buffer and decoding the bytes gives
  the items back: integers of either sign and any width, byte strings, text, containers and
  doubles all survive. The encoder writes exactly as many bytes as its size-only mode computes.
\<close>

theorem cbor_roundtrip:
  assumes "\<forall>c \<in> set cs. fits_u32 c" and "length (concat (concat (map call_chunks cs))) < 2 ^ 64"
    and "encoded_length cs \<le> length z" and "length z < 2 ^ 32"
  shows "\<exists>e b. encode_calls cs
             (ticos_cbor_encoder_init (Some prv_write_cbor_to_buffer_cb) (Some (z, 0)) (length z)) = Some (True, e) \<and>
           write_cb_ctx e = Some (b, 0) \<and> length b = length z \<and>
           fst (ticos_cbor_encoder_deinit e) = encoded_length cs \<and>
           decode_tokens (length cs) b = Some (map token_of cs, drop (encoded_length cs) z)"
proof -
  let ?cs = "concat (map call_chunks cs)"
  let ?i = "ticos_cbor_encoder_init (Some prv_write_cbor_to_buffer_cb) (Some (z, 0)) (length z)"
  note n = encoded_length_eq [OF assms(2)]
  have "note_sink.at [] z ?i (length z) []"
    by (rule note_sink.init_at) (simp_all add: note_holds_def note_cap_def)
  then obtain e where e: "add_chunks ?cs ?i = Some (True, e)"
    "note_sink.at [] z e (length z) (concat ?cs)"
    using note_sink.chunks_fit [of "[]" z ?i "length z" "[]" ?cs] assms(3,4) n by auto
  then obtain b where "write_cb_ctx e = Some (b, 0)" "b = concat ?cs @ drop (length (concat ?cs)) z"
    "encoded_size e = length (concat ?cs)" "length (concat ?cs) \<le> length z"
    by (auto simp: note_sink.at_def note_holds_def)
  with e(1) n decode_calls [OF assms(1)] show ?thesis
    by (auto simp: encode_calls_chunks ticos_cbor_encoder_deinit_def)
qed

lemma metadata_note_written:
  assumes "length (metadata_cbor md) < 2 ^ 31" and "captured_time_epoch_s md < 2 ^ 32"
    and "length out = ticos_core_elf_metadata_note_calculate_size md"
  shows "\<exists>pad. ticos_core_elf_metadata_note_write md out (length out) =
           Some (True, elf_nhdr 6 (length (metadata_cbor md)) s_metadata_note_type @
                       s_note_name @ [0, 0, 0] @ metadata_cbor md @ replicate pad 0) \<and>
         pad < 4 \<and> length out = 20 + length (metadata_cbor md) + pad \<and> length out mod 4 = 0 \<and>
         decode_tokens 15 (metadata_cbor md) =
           Some ([TMap 7, TInt 1, TInt 1, TInt 2, TText (linux_sdk_version md),
                  TInt 3, TInt (int (captured_time_epoch_s md)), TInt 4, TText (device_serial md),
                  TInt 5, TText (hardware_version md), TInt 6, TText (software_type md),
                  TInt 7, TText (software_version md)], [])"
proof -
  let ?n = "length (metadata_cbor md)" and ?d = "TICOS_ALIGN_UP (length (metadata_cbor md)) 4"
  have n: "prv_cbor_calculate_size md = ?n" using calculate_size_eq [of md] assms(1) by simp
  have a: "TICOS_ALIGN_UP (length s_note_name + 1) 4 = 8" by code_simp
  have d: "?n \<le> ?d" "?d \<le> ?n + 3" "?d mod 4 = 0" using align_up_4 [of ?n] assms(1) by simp_all
  have out: "length out = ticos_core_elf_note_calculate_size (Some s_note_name) ?n"
    using assms(3) n by (simp add: ticos_core_elf_metadata_note_calculate_size_def)
  then have len: "length out = 20 + ?d"
    using d assms(1) a
    by (simp add: ticos_core_elf_note_calculate_size_def sizeof_Elf_Nhdr_def
        prv_calc_owner_name_size_def s_note_name_def u64_of_id)
  let ?p = "elf_nhdr 6 ?n s_metadata_note_type @ s_note_name @ [0, 0, 0]" and ?z = "replicate ?d (0 :: byte)"
  have init: "ticos_core_elf_note_init out (Some s_note_name) ?n s_metadata_note_type = Some (?p @ ?z, 20)"
  proof -
    have l: "length s_note_name = 5" "s_note_name \<noteq> []" by (simp_all add: s_note_name_def)
    have "replicate 3 (0 :: byte) = [0, 0, 0]" by (simp add: numeral_3_eq_3)
    with note_init_eq [OF refl l(2) _ _ out, of s_metadata_note_type] a assms(1) show ?thesis
      by (simp add: l(1))
  qed
  have p: "length ?p = 20" by (simp add: elf_nhdr_def s_note_name_def)
  let ?cs = "concat (map call_chunks (metadata_calls md))"
  let ?i = "ticos_cbor_encoder_init (Some prv_write_cbor_to_buffer_cb) (Some (?p @ ?z, 20)) ?d"
  have "note_sink.at ?p ?z ?i ?d []"
    by (rule note_sink.init_at) (use p in \<open>simp_all add: note_holds_def note_cap_def del: append_assoc\<close>)
  then obtain e where e: "add_chunks ?cs ?i = Some (True, e)" "note_sink.at ?p ?z e ?d (metadata_cbor md)"
    using note_sink.chunks_fit [of ?p ?z ?i ?d "[]" ?cs] d assms(1) by (auto simp: metadata_cbor_def)
  have room: "u64_of (length out + 2 ^ 64 - 20) = ?d" using len d assms(1) by (simp add: u64_of_def)
  have "write_cb_ctx e = Some (?p @ metadata_cbor md @ replicate (?d - ?n) 0, 20)"
    using e(2) p by (auto simp: note_sink.at_def note_holds_def)
  then have "ticos_core_elf_metadata_note_write md out (length out) =
      Some (True, ?p @ metadata_cbor md @ replicate (?d - ?n) 0)"
    using e(1) unfolding ticos_core_elf_metadata_note_write_def n Let_def init Option.bind.bind_lunit
      prod.case room add_cbor_metadata_chunks by simp
  moreover have "\<forall>c \<in> set (metadata_calls md). fits_u32 c"
    using assms(1,2) by (auto simp: metadata_calls_def metadata_cbor_def)
  then have toks: "decode_tokens 15 (metadata_cbor md) = Some (map token_of (metadata_calls md), [])"
  proof -
    have "length (metadata_calls md) = 15" by (simp add: metadata_calls_def)
    with decode_calls [OF \<open>\<forall>c \<in> set (metadata_calls md). fits_u32 c\<close>, of "[]"] show ?thesis
      by (simp add: metadata_cbor_def)
  qed
  ultimately show ?thesis
    unfolding toks using d len
    by (intro exI [of _ "?d - ?n"]) (auto simp: metadata_calls_def mod_add_right_eq [of 20 _ 4, symmetric])
qed

text \<open>
  C18. The metadata note. Written into a buffer of the size that
  \<^verbatim>\<open>ticos_core_elf_metadata_note_calculate_size\<close> returns, the note is produced completely and
  without leaving or underusing the buffer: the header, the owner name and its padding, the metadata as one
  CBOR map with the seven keys in order, and zero padding up to a multiple of four.
\<close>

theorem metadata_note_complete:
  assumes "length (metadata_cbor md) < 2 ^ 31" and "captured_time_epoch_s md < 2 ^ 32"
    and "length out = ticos_core_elf_metadata_note_calculate_size md"
  shows "\<exists>pad. ticos_core_elf_metadata_note_write md out (length out) =
           Some (True, elf_nhdr 6 (length (metadata_cbor md)) s_metadata_note_type @
                       s_note_name @ [0, 0, 0] @ metadata_cbor md @ replicate pad 0) \<and>
         pad < 4 \<and> length out = 20 + length (metadata_cbor md) + pad \<and> length out mod 4 = 0 \<and>
         decode_tokens 15 (metadata_cbor md) =
           Some ([TMap 7, TInt 1, TInt 1, TInt 2, TText (linux_sdk_version md),
                  TInt 3, TInt (int (captured_time_epoch_s md)), TInt 4, TText (device_serial md),
                  TInt 5, TText (hardware_version md), TInt 6, TText (software_type md),
                  TInt 7, TText (software_version md)], [])"
  using assms by (rule metadata_note_written)

definition sample_metadata :: sTicosCoreElfMetadata where
  "sample_metadata = \<lparr>linux_sdk_version = [0x31], captured_time_epoch_s = 70000, device_serial = [0x41, 0x42],
     hardware_version = [0x68], software_type = [0x74], software_version = [0x76]\<rparr>"

theorem metadata_note_complete_witness:
  "\<exists>pad. ticos_core_elf_metadata_note_write sample_metadata (replicate 48 0) 48 =
     Some (True, elf_nhdr 6 (length (metadata_cbor sample_metadata)) s_metadata_note_type @ s_note_name @ [0, 0, 0] @
       metadata_cbor sample_metadata @ replicate pad 0)"
proof -
  have "ticos_core_elf_metadata_note_calculate_size sample_metadata = 48"
    and "length (metadata_cbor sample_metadata) < 2 ^ 31" and "captured_time_epoch_s sample_metadata < 2 ^ 32"
    by code_simp+
  with metadata_note_complete [of sample_metadata "replicate 48 0"] show ?thesis by auto
qed

theorem cbor_roundtrip_witness:
  "\<exists>e b. encode_calls [EDictionary 1, EString [0x61, 0x62], ELongSigned (- 5000000000)]
       (ticos_cbor_encoder_init (Some prv_write_cbor_to_buffer_cb) (Some ([1, 2, 3, 4, 5, 6, 7, 8, 9, 10, 11, 12, 13, 14], 0)) 14) =
         Some (True, e) \<and>
     write_cb_ctx e = Some (b, 0) \<and>
     decode_tokens 3 b = Some ([TMap 1, TText [0x61, 0x62], TInt (- 5000000000)], [14])"
proof -
  let ?cs = "[EDictionary 1, EString [0x61, 0x62], ELongSigned (- 5000000000)]"
  have toks: "map token_of ?cs = [TMap 1, TText [0x61, 0x62], TInt (- 5000000000)]" by code_simp
  have len: "length (concat (concat (map call_chunks ?cs))) < 2 ^ 64" by code_simp
  have size: "encoded_length ?cs = 13" by code_simp
  let ?z = "[1, 2, 3, 4, 5, 6, 7, 8, 9, 10, 11, 12, 13, 14] :: byte list"
  have eqs: "length ?cs = 3" "length ?z = 14" "drop 13 ?z = [14]" by simp_all
  have "\<forall>c \<in> set ?cs. fits_u32 c" by simp
  moreover have "encoded_length ?cs \<le> length ?z" unfolding size by simp
  moreover have "length ?z < 2 ^ 32" by simp
  ultimately show ?thesis
    using cbor_roundtrip [of ?cs ?z] len unfolding toks size eqs by blast
qed

end
