(* ===== verification/Core_Elf_Writer.thy ===== *)
theory Core_Elf_Writer
  imports Core_Elf_Metadata
begin

text \<open>
  The streaming writer of core files (src/plugins/coredump/core_elf_writer.c): segments are
  collected, then the ELF header, the segment table and the segment data are written in one pass.
  The output is an interface with the contract \<open>elf_sink\<close>; the file implementation with its size
  limit meets it. The layout is that of 64-bit ELF. \<open>None\<close> is a loop that does not return, a
  read past the end of a segment's buffer or a store outside the array of segments.
\<close>

section \<open>ELF structures\<close>

record Elf_Phdr =
  p_type :: nat
  p_flags :: nat
  p_offset :: nat
  p_vaddr :: nat
  p_paddr :: nat
  p_filesz :: nat
  p_memsz :: nat
  p_align :: nat

definition phdr_bytes :: "Elf_Phdr \<Rightarrow> byte list" where
  "phdr_bytes h =
     nat_le 4 (p_type h) @ nat_le 4 (p_flags h) @ nat_le 8 (p_offset h) @ nat_le 8 (p_vaddr h) @
     nat_le 8 (p_paddr h) @ nat_le 8 (p_filesz h) @ nat_le 8 (p_memsz h) @ nat_le 8 (p_align h)"

definition sizeof_Elf_Phdr :: nat where "sizeof_Elf_Phdr = 56"
definition sizeof_Elf_Ehdr :: nat where "sizeof_Elf_Ehdr = 64"

record Elf_Ehdr =
  e_ident :: "byte list"
  e_type :: nat
  e_machine :: nat
  e_version :: nat
  e_entry :: nat
  e_phoff :: nat
  e_shoff :: nat
  e_flags :: nat
  e_ehsize :: nat
  e_phentsize :: nat
  e_phnum :: nat
  e_shentsize :: nat
  e_shnum :: nat
  e_shstrndx :: nat

definition ehdr_bytes :: "Elf_Ehdr \<Rightarrow> byte list" where
  "ehdr_bytes h =
     take 16 (e_ident h @ replicate 16 0) @ nat_le 2 (e_type h) @ nat_le 2 (e_machine h) @
     nat_le 4 (e_version h) @ nat_le 8 (e_entry h) @ nat_le 8 (e_phoff h) @ nat_le 8 (e_shoff h) @
     nat_le 4 (e_flags h) @ nat_le 2 (e_ehsize h) @ nat_le 2 (e_phentsize h) @ nat_le 2 (e_phnum h) @
     nat_le 2 (e_shentsize h) @ nat_le 2 (e_shnum h) @ nat_le 2 (e_shstrndx h)"

lemma length_phdr_bytes [simp]: "length (phdr_bytes h) = sizeof_Elf_Phdr"
  by (simp add: phdr_bytes_def sizeof_Elf_Phdr_def)

lemma length_ehdr_bytes [simp]: "length (ehdr_bytes h) = sizeof_Elf_Ehdr"
  by (simp add: ehdr_bytes_def sizeof_Elf_Ehdr_def)

section \<open>Output\<close>

text \<open>What \<^verbatim>\<open>write\<close> answers: the number of bytes written, an interruption, or another error.\<close>

datatype write_result = Written nat | Write_EINTR | Write_Failed

record 'io sTicosCoreElfWriteIO =
  io_write :: "'io \<Rightarrow> byte list \<Rightarrow> (write_result \<times> 'io) option"
  io_sync :: "'io \<Rightarrow> (bool \<times> 'io) option"

partial_function (option) prv_io_write_all ::
  "'io sTicosCoreElfWriteIO \<Rightarrow> byte list \<Rightarrow> 'io \<Rightarrow> (bool \<times> 'io) option" where
  "prv_io_write_all ops data io =
     (if data = [] then Some (True, io)
      else do {
        (r, io) \<leftarrow> io_write ops io data;
        (case r of
           Write_EINTR \<Rightarrow> prv_io_write_all ops data io
         | Write_Failed \<Rightarrow> Some (False, io)
         | Written n \<Rightarrow> prv_io_write_all ops (drop n data) io)
      })"

declare prv_io_write_all.simps [code]

record 'io elf_out =
  out_io :: 'io
  write_offset :: nat

datatype 'io segment_data =
    Buffer "byte list"
  | Callback "Elf_Phdr \<Rightarrow> 'io elf_out \<Rightarrow> (bool \<times> 'io elf_out) option"

record 'io sTicosCoreElfWriterSegment =
  header :: Elf_Phdr
  seg_data :: "'io segment_data"

text \<open>\<open>segments_alloc\<close> is the number of elements the array \<^verbatim>\<open>segments\<close> has room for.\<close>

record 'io sTicosCoreElfWriter =
  w_ops :: "'io sTicosCoreElfWriteIO"
  w_out :: "'io elf_out"
  w_machine :: nat
  w_flags :: nat
  segments :: "'io sTicosCoreElfWriterSegment list"
  segments_alloc :: nat
  segments_max :: nat
  segments_idx :: int

definition SEGMENTS_REALLOC_STEP_SIZE :: nat where "SEGMENTS_REALLOC_STEP_SIZE = 32"
definition PADDING_WRITE_SIZE :: nat where "PADDING_WRITE_SIZE = 4096"

section \<open>Operations\<close>

definition ticos_core_elf_writer_init :: "'io sTicosCoreElfWriteIO \<Rightarrow> 'io \<Rightarrow> 'io sTicosCoreElfWriter" where
  "ticos_core_elf_writer_init ops io =
     \<lparr>w_ops = ops, w_out = \<lparr>out_io = io, write_offset = 0\<rparr>, w_machine = 0, w_flags = 0, segments = [],
      segments_alloc = 0, segments_max = 0, segments_idx = - 1\<rparr>"

definition ticos_core_elf_writer_set_elf_header_fields ::
  "nat \<Rightarrow> nat \<Rightarrow> 'io sTicosCoreElfWriter \<Rightarrow> 'io sTicosCoreElfWriter" where
  "ticos_core_elf_writer_set_elf_header_fields machine flags w = w\<lparr>w_machine := machine, w_flags := flags\<rparr>"

text \<open>\<open>realloc_ok\<close> is whether the array can be enlarged to a number of elements.\<close>

definition prv_alloc_next_segment ::
  "(nat \<Rightarrow> bool) \<Rightarrow> 'io sTicosCoreElfWriter \<Rightarrow> bool \<times> 'io sTicosCoreElfWriter" where
  "prv_alloc_next_segment realloc_ok w =
     (if segments_idx w \<ge> int (segments_max w) - 1 then
        let w = w\<lparr>segments_max := segments_max w + SEGMENTS_REALLOC_STEP_SIZE\<rparr> in
        if \<not> realloc_ok (segments_max w) then (False, w)
        else (True, w\<lparr>segments_alloc := segments_max w, segments_idx := segments_idx w + 1\<rparr>)
      else (True, w\<lparr>segments_idx := segments_idx w + 1\<rparr>))"

definition add_segment ::
  "(nat \<Rightarrow> bool) \<Rightarrow> Elf_Phdr \<Rightarrow> 'io segment_data \<Rightarrow> 'io sTicosCoreElfWriter \<Rightarrow>
   (bool \<times> 'io sTicosCoreElfWriter) option" where
  "add_segment realloc_ok segment data w =
     (let (ok, w) = prv_alloc_next_segment realloc_ok w in
      if \<not> ok then Some (False, w)
      else if int (segments_alloc w) \<le> segments_idx w then None
      else Some (True, w\<lparr>segments := segments w @ [\<lparr>header = segment, seg_data = data\<rparr>]\<rparr>))"

definition ticos_core_elf_writer_add_segment_with_buffer ::
  "(nat \<Rightarrow> bool) \<Rightarrow> Elf_Phdr \<Rightarrow> byte list \<Rightarrow> 'io sTicosCoreElfWriter \<Rightarrow> (bool \<times> 'io sTicosCoreElfWriter) option" where
  "ticos_core_elf_writer_add_segment_with_buffer realloc_ok segment data w =
     add_segment realloc_ok segment (Buffer data) w"

definition ticos_core_elf_writer_add_segment_with_callback ::
  "(nat \<Rightarrow> bool) \<Rightarrow> Elf_Phdr \<Rightarrow> (Elf_Phdr \<Rightarrow> 'io elf_out \<Rightarrow> (bool \<times> 'io elf_out) option) \<Rightarrow>
   'io sTicosCoreElfWriter \<Rightarrow> (bool \<times> 'io sTicosCoreElfWriter) option" where
  "ticos_core_elf_writer_add_segment_with_callback realloc_ok segment fn w =
     add_segment realloc_ok segment (Callback fn) w"

definition prv_write_all ::
  "'io sTicosCoreElfWriteIO \<Rightarrow> byte list \<Rightarrow> 'io elf_out \<Rightarrow> (bool \<times> 'io elf_out) option" where
  "prv_write_all ops data out = do {
     (ok, io) \<leftarrow> prv_io_write_all ops data (out_io out);
     if \<not> ok then Some (False, out\<lparr>out_io := io\<rparr>)
     else Some (True, out\<lparr>out_io := io, write_offset := u64_of (write_offset out + length data)\<rparr>)
   }"

definition ticos_core_elf_writer_write_segment_data ::
  "'io sTicosCoreElfWriteIO \<Rightarrow> byte list \<Rightarrow> 'io elf_out \<Rightarrow> (bool \<times> 'io elf_out) option" where
  "ticos_core_elf_writer_write_segment_data ops data out = prv_write_all ops data out"

definition prv_calc_padding :: "nat \<Rightarrow> Elf_Phdr \<Rightarrow> nat" where
  "prv_calc_padding offset segment =
     (if p_align segment \<le> 1 then 0
      else u64_of (TICOS_ALIGN_UP offset (p_align segment) + 2 ^ 64 - offset))"

function prv_write_padding ::
  "'io sTicosCoreElfWriteIO \<Rightarrow> nat \<Rightarrow> 'io elf_out \<Rightarrow> (bool \<times> 'io elf_out) option" where
  "prv_write_padding ops pad_size out =
     (if pad_size = 0 then Some (True, out)
      else do {
        let sz = min PADDING_WRITE_SIZE pad_size;
        (ok, out) \<leftarrow> prv_write_all ops (replicate sz 0) out;
        if ok then prv_write_padding ops (pad_size - sz) out else Some (False, out)
      })"
  by pat_completeness auto
termination by (relation "measure (\<lambda>(ops, n, out). n)") (auto simp: PADDING_WRITE_SIZE_def)

declare prv_write_padding.simps [simp del]

text \<open>The loop that plans the offset of each segment and writes the segment table.\<close>

fun write_segment_table ::
  "'io sTicosCoreElfWriteIO \<Rightarrow> nat \<Rightarrow> 'io sTicosCoreElfWriterSegment list \<Rightarrow> 'io elf_out \<Rightarrow>
   (bool \<times> 'io sTicosCoreElfWriterSegment list \<times> 'io elf_out) option" where
  "write_segment_table ops offset [] out = Some (True, [], out)"
| "write_segment_table ops offset (wrapper # ws) out = do {
     let pad_size = prv_calc_padding offset (header wrapper);
     let h = (header wrapper)\<lparr>p_offset := u64_of (offset + pad_size)\<rparr>;
     let wrapper = wrapper\<lparr>header := h\<rparr>;
     (ok, out) \<leftarrow> prv_write_all ops (phdr_bytes h) out;
     if \<not> ok then Some (False, wrapper # ws, out)
     else do {
       (ok, ws, out) \<leftarrow> write_segment_table ops (u64_of (offset + p_filesz h + pad_size)) ws out;
       Some (ok, wrapper # ws, out)
     }
   }"

text \<open>The loop that writes the data of the segments.\<close>

fun write_segment_blocks ::
  "'io sTicosCoreElfWriteIO \<Rightarrow> 'io sTicosCoreElfWriterSegment list \<Rightarrow> 'io elf_out \<Rightarrow> (bool \<times> 'io elf_out) option" where
  "write_segment_blocks ops [] out = Some (True, out)"
| "write_segment_blocks ops (wrapper # ws) out = do {
     let h = header wrapper;
     (ok, out) \<leftarrow> prv_write_padding ops (u64_of (p_offset h + 2 ^ 64 - write_offset out)) out;
     if \<not> ok then Some (False, out)
     else do {
       (ok, out) \<leftarrow>
         (case seg_data wrapper of
            Callback fn \<Rightarrow> fn h out
          | Buffer data \<Rightarrow> do {
              block \<leftarrow> mem_read data 0 (p_filesz h);
              prv_write_all ops block out
            });
       if \<not> ok then Some (False, out)
       else if write_offset out \<noteq> u64_of (p_offset h + p_filesz h) then Some (False, out)
       else write_segment_blocks ops ws out
     }
   }"

definition writer_header :: "nat \<Rightarrow> 'io sTicosCoreElfWriter \<Rightarrow> Elf_Ehdr" where
  "writer_header num_segments w =
     \<lparr>e_ident = [0x7f, 0x45, 0x4c, 0x46, 2, 1, 1], e_type = 4, e_machine = w_machine w, e_version = 1,
      e_entry = 0, e_phoff = (if num_segments > 0 then sizeof_Elf_Ehdr else 0), e_shoff = 0,
      e_flags = w_flags w, e_ehsize = sizeof_Elf_Ehdr,
      e_phentsize = (if num_segments > 0 then sizeof_Elf_Phdr else 0), e_phnum = num_segments,
      e_shentsize = 0, e_shnum = 0, e_shstrndx = 0\<rparr>"

definition ticos_core_elf_writer_write ::
  "'io sTicosCoreElfWriter \<Rightarrow> (bool \<times> 'io sTicosCoreElfWriter) option" where
  "ticos_core_elf_writer_write w = do {
     let num_segments = nat (segments_idx w + 1);
     (ok, out) \<leftarrow> prv_write_all (w_ops w) (ehdr_bytes (writer_header num_segments w)) (w_out w);
     if \<not> ok then Some (False, w\<lparr>w_out := out\<rparr>)
     else do {
       (ok, segs, out) \<leftarrow> write_segment_table (w_ops w)
         (u64_of (write_offset out + sizeof_Elf_Phdr * num_segments)) (segments w) out;
       if \<not> ok then Some (False, w\<lparr>w_out := out, segments := segs\<rparr>)
       else do {
         (ok, out) \<leftarrow> write_segment_blocks (w_ops w) segs out;
         if \<not> ok then Some (False, w\<lparr>w_out := out, segments := segs\<rparr>)
         else do {
           (ok, io) \<leftarrow> io_sync (w_ops w) (out_io out);
           Some (ok, w\<lparr>w_out := out\<lparr>out_io := io\<rparr>, segments := segs\<rparr>)
         }
       }
     }
   }"

text \<open>The buffers that are released, and the writer without its array. What a callback refers to is not released.\<close>

definition ticos_core_elf_writer_finalize :: "'io sTicosCoreElfWriter \<Rightarrow> byte list list \<times> 'io sTicosCoreElfWriter" where
  "ticos_core_elf_writer_finalize w =
     (concat (map (\<lambda>wrapper. case seg_data wrapper of Buffer data \<Rightarrow> [data] | Callback fn \<Rightarrow> []) (segments w)),
      w\<lparr>segments := [], segments_alloc := 0\<rparr>)"

section \<open>Writing to a file\<close>

text \<open>
  The file, the limit, the count the code keeps, whether the last error the C library recorded was an
  interruption, and the answers of the system to the coming writes (complete writes once they run out).
\<close>

record sTicosCoreElfWriteFileIO =
  fio_bytes :: "byte list"
  max_size :: nat
  written_size :: nat
  errno_is_EINTR :: bool
  os_answers :: "write_result list"
  fsync_ok :: bool

definition prv_fio_write ::
  "sTicosCoreElfWriteFileIO \<Rightarrow> byte list \<Rightarrow> write_result \<times> sTicosCoreElfWriteFileIO" where
  "prv_fio_write fio data =
     (if u64_of (written_size fio + length data) > max_size fio
      then (if errno_is_EINTR fio then Write_EINTR else Write_Failed, fio)
      else
        let (answer, rest) = (case os_answers fio of [] \<Rightarrow> (Written (length data), []) | a # as \<Rightarrow> (a, as));
            fio = fio\<lparr>os_answers := rest\<rparr>
        in case answer of
             Written n \<Rightarrow>
               let bytes = min n (length data) in
               (Written bytes, fio\<lparr>fio_bytes := fio_bytes fio @ take bytes data,
                                   written_size := u64_of (written_size fio + bytes)\<rparr>)
           | Write_EINTR \<Rightarrow>
               (Write_EINTR, fio\<lparr>errno_is_EINTR := True, written_size := u64_of (written_size fio + (2 ^ 64 - 1))\<rparr>)
           | Write_Failed \<Rightarrow>
               (Write_Failed, fio\<lparr>errno_is_EINTR := False, written_size := u64_of (written_size fio + (2 ^ 64 - 1))\<rparr>))"

definition prv_fio_sync :: "sTicosCoreElfWriteFileIO \<Rightarrow> bool \<times> sTicosCoreElfWriteFileIO" where
  "prv_fio_sync fio = (fsync_ok fio, fio)"

definition file_ops :: "sTicosCoreElfWriteFileIO sTicosCoreElfWriteIO" where
  "file_ops = \<lparr>io_write = \<lambda>fio data. Some (prv_fio_write fio data), io_sync = \<lambda>fio. Some (prv_fio_sync fio)\<rparr>"

definition ticos_core_elf_write_file_io_init :: "byte list \<Rightarrow> nat \<Rightarrow> write_result list \<Rightarrow> bool \<Rightarrow> sTicosCoreElfWriteFileIO" where
  "ticos_core_elf_write_file_io_init bytes limit answers sync_ok =
     \<lparr>fio_bytes = bytes, max_size = limit, written_size = 0, errno_is_EINTR = False, os_answers = answers,
      fsync_ok = sync_ok\<rparr>"

section \<open>The plan\<close>

text \<open>
  Offsets as they should be: every segment starts at or after the end of the one before it, less than
  one alignment later, and aligned when its alignment is a power of two.
\<close>

fun planned :: "nat \<Rightarrow> Elf_Phdr list \<Rightarrow> bool" where
  "planned off [] = True"
| "planned off (h # hs) =
     (off \<le> p_offset h \<and> p_offset h < off + max 1 (p_align h) \<and>
      (\<forall>k. p_align h = 2 ^ k \<longrightarrow> p_offset h mod p_align h = 0) \<and>
      planned (p_offset h + p_filesz h) hs)"

definition demand :: "Elf_Phdr list \<Rightarrow> nat" where
  "demand hs = sum_list (map (\<lambda>h. p_filesz h + max 1 (p_align h)) hs)"

definition replanned :: "Elf_Phdr \<Rightarrow> Elf_Phdr \<Rightarrow> bool" where
  "replanned h h' \<longleftrightarrow> h' = h\<lparr>p_offset := p_offset h'\<rparr>"

lemma length_table: "length (concat (map phdr_bytes hs)) = sizeof_Elf_Phdr * length hs"
  by (induction hs) simp_all

lemma demand_replanned: "list_all2 replanned hs hs' \<Longrightarrow> demand hs' = demand hs"
proof (induction rule: list_all2_induct)
  case (Cons h hs h' hs')
  then obtain x where "h' = h\<lparr>p_offset := x\<rparr>" by (auto simp: replanned_def)
  with Cons.IH show ?case by (simp add: demand_def)
qed simp

lemma u64_of_diff:
  assumes "a \<le> b" and "b - a < 2 ^ 64"
  shows "u64_of (b + 2 ^ 64 - a) = b - a"
proof -
  have "b + 2 ^ 64 - a = (b - a) + 2 ^ 64" using assms(1) by simp
  with assms(2) show ?thesis by (simp only: u64_of_def mod_add_self2 mod_less)
qed

lemma padding_plan:
  assumes "off + max 1 (p_align h) < 2 ^ 64"
  shows "prv_calc_padding off h < max 1 (p_align h)"
    and "p_align h = 2 ^ k \<Longrightarrow> (off + prv_calc_padding off h) mod p_align h = 0"
proof -
  let ?up = "TICOS_ALIGN_UP off (p_align h)"
  have p: "prv_calc_padding off h = ?up - off \<and> off \<le> ?up \<and> ?up < off + p_align h" if "1 < p_align h"
  proof -
    have b: "off \<le> ?up" "?up < off + p_align h"
      using align_up_bounds [of "p_align h" off] assms that by simp_all
    then have "u64_of (?up + 2 ^ 64 - off) = ?up - off" using assms by (intro u64_of_diff) simp_all
    with that b show ?thesis by (simp add: prv_calc_padding_def)
  qed
  show "prv_calc_padding off h < max 1 (p_align h)"
    using p by (cases "1 < p_align h") (auto simp: prv_calc_padding_def)
  show "(off + prv_calc_padding off h) mod p_align h = 0" if "p_align h = 2 ^ k"
  proof (cases "1 < p_align h")
    case True
    with p that align_up_pow2 [of off k] show ?thesis by auto
  next
    case False
    with that have "p_align h = 1" by (metis nat_neq_iff less_one power_not_zero zero_neq_numeral)
    then show ?thesis by simp
  qed
qed

text \<open>What a segment contributes: the start of its buffer, or what its callback always writes.\<close>

definition emits ::
  "('io \<Rightarrow> bool) \<Rightarrow> ('io \<Rightarrow> byte list) \<Rightarrow> (Elf_Phdr \<Rightarrow> 'io elf_out \<Rightarrow> (bool \<times> 'io elf_out) option) \<Rightarrow>
   Elf_Phdr \<Rightarrow> byte list \<Rightarrow> bool" where
  "emits invar contents fn h ys \<longleftrightarrow>
     (\<forall>off out out'. invar (out_io out) \<longrightarrow> write_offset out < 2 ^ 64 \<longrightarrow>
        fn (h\<lparr>p_offset := off\<rparr>) out = Some (True, out') \<longrightarrow>
        invar (out_io out') \<and> contents (out_io out') = contents (out_io out) @ ys \<and>
        write_offset out' = u64_of (write_offset out + length ys))"

definition yields ::
  "('io \<Rightarrow> bool) \<Rightarrow> ('io \<Rightarrow> byte list) \<Rightarrow> 'io sTicosCoreElfWriterSegment \<Rightarrow> byte list \<Rightarrow> bool" where
  "yields invar contents w ys \<longleftrightarrow> length ys = p_filesz (header w) \<and>
     (case seg_data w of
        Buffer d \<Rightarrow> ys = take (p_filesz (header w)) d
      | Callback fn \<Rightarrow> emits invar contents fn (header w) ys)"

lemma emitsD:
  assumes "emits invar contents fn h ys" and "invar (out_io out)" and "write_offset out < 2 ^ 64"
    and "fn h out = Some (True, out')"
  shows "invar (out_io out') \<and> contents (out_io out') = contents (out_io out) @ ys \<and>
    write_offset out' = u64_of (write_offset out + length ys)"
proof -
  have "fn (h\<lparr>p_offset := p_offset h\<rparr>) out = Some (True, out')" using assms(4) by simp
  with assms(1-3) show ?thesis unfolding emits_def by blast
qed

lemma emits_replanned: "emits i c fn (h\<lparr>p_offset := x\<rparr>) ys = emits i c fn h ys"
  by (simp only: emits_def) simp

lemma yields_replanned:
  assumes "yields i c s ys" and "replanned (header s) (header s')" and "seg_data s' = seg_data s"
  shows "yields i c s' ys"
proof -
  obtain x where "header s' = (header s)\<lparr>p_offset := x\<rparr>" using assms(2) by (auto simp: replanned_def)
  with assms(1,3) show ?thesis by (cases "seg_data s") (auto simp: yields_def emits_replanned)
qed

text \<open>The bytes \<open>ys\<close> are where the header of a segment says its data is.\<close>

definition placed :: "byte list \<Rightarrow> Elf_Phdr \<Rightarrow> byte list \<Rightarrow> bool" where
  "placed c h ys \<longleftrightarrow>
     length ys = p_filesz h \<and> p_offset h + p_filesz h \<le> length c \<and> take (p_filesz h) (drop (p_offset h) c) = ys"

lemma placed_append: "placed c h ys \<Longrightarrow> placed (c @ d) h ys"
  by (simp add: placed_def)

section \<open>The contract of an output\<close>

locale elf_sink =
  fixes ops :: "'io sTicosCoreElfWriteIO"
    and invar :: "'io \<Rightarrow> bool"
    and contents :: "'io \<Rightarrow> byte list"
  assumes write_law: "invar io \<Longrightarrow> io_write ops io data = Some (r, io') \<Longrightarrow> r \<noteq> Write_Failed \<Longrightarrow>
      invar io' \<and> contents io' = contents io @ (case r of Written n \<Rightarrow> take n data | _ \<Rightarrow> [])"
    and sync_law: "invar io \<Longrightarrow> io_sync ops io = Some (True, io') \<Longrightarrow> contents io' = contents io"
begin

abbreviation written :: "'io elf_out \<Rightarrow> byte list" where
  "written out \<equiv> contents (out_io out)"

definition in_step :: "'io elf_out \<Rightarrow> bool" where
  "in_step out \<longleftrightarrow> invar (out_io out) \<and> write_offset out = length (written out)"

lemma io_write_all_appends:
  assumes "prv_io_write_all ops data io = Some (True, io')" and "invar io"
  shows "contents io' = contents io @ data \<and> invar io'"
proof -
  define P where "P os d i y \<longleftrightarrow> os = ops \<longrightarrow> invar i \<longrightarrow> fst y \<longrightarrow> contents (snd y) = contents i @ d \<and> invar (snd y)" for os d i y
  have "P ops data io (True, io')"
  proof (rule prv_io_write_all.raw_induct [of P, OF _ assms(1)])
    fix f os d i y
    assume ih: "\<And>os d i y. f os d i = Some y \<Longrightarrow> P os d i y"
      and eq: "(if d = [] then Some (True, i)
        else io_write os i d \<bind> (\<lambda>(r, i). case r of Written n \<Rightarrow> f os (drop n d) i
          | Write_EINTR \<Rightarrow> f os d i | Write_Failed \<Rightarrow> Some (False, i))) = Some y"
    show "P os d i y"
    proof (cases "os = ops \<and> d \<noteq> []")
      case True
      with eq obtain r i1 where w: "io_write ops i d = Some (r, i1)" by (auto split: bind_splits)
      with True eq write_law [OF _ w] ih [of ops _ i1 y] show ?thesis
        by (cases r) (auto simp: P_def)
    qed (use eq in \<open>auto simp: P_def split: if_splits\<close>)
  qed
  with assms(2) show ?thesis by (simp add: P_def)
qed

lemma write_all_appends:
  assumes "prv_write_all ops data out = Some (True, out')" and "in_step out" and "length (written out) + length data < 2 ^ 64"
  shows "written out' = written out @ data" and "in_step out'"
  using assms io_write_all_appends
  by (auto simp: prv_write_all_def in_step_def u64_of_id split: bind_splits if_splits)

lemma write_padding_appends:
  assumes "prv_write_padding ops n out = Some (True, out')" and "in_step out" and "length (written out) + n < 2 ^ 64"
  shows "written out' = written out @ replicate n 0 \<and> in_step out'"
  using assms
proof (induction n arbitrary: out rule: less_induct)
  case (less n)
  show ?case
  proof (cases "n = 0")
    case False
    let ?sz = "min PADDING_WRITE_SIZE n"
    from less.prems(1) False obtain out1 where o: "prv_write_all ops (replicate ?sz 0) out = Some (True, out1)"
        "prv_write_padding ops (n - ?sz) out1 = Some (True, out')"
      by (subst (asm) prv_write_padding.simps) (auto simp: Let_def split: bind_splits if_splits)
    note w = write_all_appends [OF o(1) less.prems(2)]
    have "n - ?sz < n" using False by (simp add: PADDING_WRITE_SIZE_def)
    with less.IH [OF _ o(2)] w less.prems(3) show ?thesis by (simp flip: replicate_add)
  qed (use less.prems in \<open>auto simp: prv_write_padding.simps\<close>)
qed

text \<open>The table is written as planned.\<close>

lemma table_appends:
  assumes "write_segment_table ops off ws out = Some (True, ws', out')" and "in_step out"
    and "off + demand (map header ws) < 2 ^ 64"
    and "length (written out) + sizeof_Elf_Phdr * length ws < 2 ^ 64"
  shows "written out' = written out @ concat (map phdr_bytes (map header ws')) \<and> in_step out' \<and>
    planned off (map header ws') \<and> list_all2 replanned (map header ws) (map header ws') \<and>
    map seg_data ws' = map seg_data ws"
  using assms
proof (induction ws arbitrary: off out ws')
  case (Cons w ws)
  let ?pad = "prv_calc_padding off (header w)"
  let ?h = "(header w)\<lparr>p_offset := off + ?pad\<rparr>"
  have d: "off + p_filesz (header w) + max 1 (p_align (header w)) + demand (map header ws) < 2 ^ 64"
    using Cons.prems(3) by (simp add: demand_def)
  have pd: "?pad < max 1 (p_align (header w))" using padding_plan(1) d by simp
  have u: "u64_of (off + ?pad) = off + ?pad"
      "u64_of (off + p_filesz (header w) + ?pad) = off + ?pad + p_filesz (header w)"
    using d pd by (simp_all add: u64_of_id)
  from Cons.prems(1) obtain out1 ws1 where o: "prv_write_all ops (phdr_bytes ?h) out = Some (True, out1)"
      "write_segment_table ops (off + ?pad + p_filesz (header w)) ws out1 = Some (True, ws1, out')"
      "ws' = w\<lparr>header := ?h\<rparr> # ws1"
    by (auto simp: Let_def u split: bind_splits if_splits)
  have "written out1 = written out @ phdr_bytes ?h" "in_step out1"
    using write_all_appends [OF o(1) Cons.prems(2)] Cons.prems(4) by simp_all
  with Cons.IH [OF o(2)] Cons.prems(4) d pd padding_plan(2) [of off "header w"] o(3) show ?case
    by (auto simp: replanned_def)
qed (auto simp: in_step_def)

lemma segment_appends:
  assumes "(case seg_data w of Callback fn \<Rightarrow> fn (header w) out
      | Buffer data \<Rightarrow> do { block \<leftarrow> mem_read data 0 (p_filesz (header w)); prv_write_all ops block out }) = Some (True, out')"
    and "in_step out" and "yields invar contents w ys" and "write_offset out + p_filesz (header w) < 2 ^ 64"
  shows "written out' = written out @ ys \<and> in_step out' \<and> write_offset out' = write_offset out + p_filesz (header w)"
proof -
  have len: "length ys = p_filesz (header w)" using assms(3) by (simp add: yields_def)
  show ?thesis
  proof (cases "seg_data w")
    case (Buffer data)
    with assms(1) obtain block where bl: "mem_read data 0 (p_filesz (header w)) = Some block"
        "prv_write_all ops block out = Some (True, out')"
      by (auto split: bind_splits)
    then have "block = ys" using Buffer assms(3) by (auto simp: yields_def mem_read_def split: if_splits)
    with write_all_appends [OF bl(2) assms(2)] assms(2,4) len show ?thesis by (simp add: in_step_def)
  next
    case (Callback fn)
    then have "emits invar contents fn (header w) ys" using assms(3) by (simp add: yields_def)
    from emitsD [OF this, of out out'] assms(1,2,4) Callback
    have "invar (out_io out') \<and> written out' = written out @ ys \<and>
        write_offset out' = u64_of (write_offset out + length ys)" by (simp add: in_step_def)
    with assms(2,4) len show ?thesis by (simp add: in_step_def u64_of_id)
  qed
qed

lemma blocks_append:
  assumes "write_segment_blocks ops ws out = Some (True, out')" and "in_step out"
    and "planned (write_offset out) (map header ws)" and "list_all2 (yields invar contents) ws yss"
    and "write_offset out + demand (map header ws) < 2 ^ 64"
  shows "(\<exists>body. written out' = written out @ body) \<and> list_all2 (placed (written out')) (map header ws) yss \<and> in_step out'"
  using assms
proof (induction ws arbitrary: out yss)
  case (Cons w ws)
  let ?h = "header w" and ?n = "p_filesz (header w)"
  obtain ys yss' where yss: "yss = ys # yss'" "yields invar contents w ys" "list_all2 (yields invar contents) ws yss'"
    using Cons.prems(4) by (auto simp: list_all2_Cons1)
  have pl: "write_offset out \<le> p_offset ?h" "p_offset ?h < write_offset out + max 1 (p_align ?h)"
      "planned (p_offset ?h + ?n) (map header ws)" using Cons.prems(3) by simp_all
  have d: "write_offset out + (?n + max 1 (p_align ?h)) + demand (map header ws) < 2 ^ 64"
    using Cons.prems(5) by (simp add: demand_def)
  let ?pad = "p_offset ?h - write_offset out"
  have "u64_of (p_offset ?h + 2 ^ 64 - write_offset out) = ?pad"
    using pl d by (intro u64_of_diff) simp_all
  with Cons.prems(1) obtain out1 out2 where o: "prv_write_padding ops ?pad out = Some (True, out1)"
      "(case seg_data w of Callback fn \<Rightarrow> fn ?h out1
        | Buffer data \<Rightarrow> do { block \<leftarrow> mem_read data 0 ?n; prv_write_all ops block out1 }) = Some (True, out2)"
      "write_offset out2 = u64_of (p_offset ?h + ?n)" "write_segment_blocks ops ws out2 = Some (True, out')"
    by (auto simp: Let_def split: bind_splits if_splits)
  have p1: "written out1 = written out @ replicate ?pad 0" "in_step out1"
    using write_padding_appends [OF o(1) Cons.prems(2)] Cons.prems(2) pl d by (auto simp: in_step_def)
  then have l1: "length (written out1) = p_offset ?h" using pl(1) Cons.prems(2) by (simp add: in_step_def)
  have "write_offset out1 = p_offset ?h" using p1(2) l1 by (simp add: in_step_def)
  then have b: "written out2 = written out1 @ ys \<and> in_step out2"
    using segment_appends [OF o(2) p1(2) yss(2)] pl d by simp
  have l2: "write_offset out2 = p_offset ?h + ?n"
    using b l1 yss(2) by (simp add: in_step_def yields_def)
  have "(\<exists>body. written out' = written out2 @ body) \<and> list_all2 (placed (written out')) (map header ws) yss' \<and> in_step out'"
    by (rule Cons.IH [OF o(4)]) (use b l2 pl d yss(3) in auto)
  then obtain body where body: "written out' = written out2 @ body"
    and rest: "list_all2 (placed (written out')) (map header ws) yss'" "in_step out'" by blast
  have "placed (written out2) ?h ys" using b l1 yss(2) by (simp add: placed_def yields_def)
  then have "placed (written out') ?h ys" using body placed_append by simp
  with body b p1(1) rest yss(1) show ?case by simp
qed simp

text \<open>The state between the table and the data.\<close>

lemma table_written:
  fixes w :: "'io sTicosCoreElfWriter"
  defines "n \<equiv> length (segments w)" and "eh \<equiv> ehdr_bytes (writer_header (length (segments w)) w)"
  assumes "prv_write_all ops eh (w_out w) = Some (True, out1)"
    and "write_segment_table ops (u64_of (write_offset out1 + sizeof_Elf_Phdr * n)) (segments w) out1 = Some (True, segs, out2)"
    and "in_step (w_out w)" and "written (w_out w) = []" and "list_all2 (yields invar contents) (segments w) yss"
    and "sizeof_Elf_Ehdr + sizeof_Elf_Phdr * n + demand (map header (segments w)) < 2 ^ 64"
  shows "written out2 = eh @ concat (map phdr_bytes (map header segs))" and "in_step out2"
    and "write_offset out2 = sizeof_Elf_Ehdr + sizeof_Elf_Phdr * n" and "planned (write_offset out2) (map header segs)"
    and "list_all2 replanned (map header (segments w)) (map header segs)" and "map seg_data segs = map seg_data (segments w)"
    and "list_all2 (yields invar contents) segs yss" and "demand (map header segs) = demand (map header (segments w))"
proof -
  have h: "written out1 = eh" "in_step out1"
    using write_all_appends [OF assms(3,5)] assms(6,8) by (simp_all add: eh_def sizeof_Elf_Ehdr_def)
  have off: "u64_of (write_offset out1 + sizeof_Elf_Phdr * n) = sizeof_Elf_Ehdr + sizeof_Elf_Phdr * n"
    using h assms(8) by (simp add: in_step_def u64_of_id eh_def)
  note t = table_appends [OF assms(4) [unfolded off] h(2)]
  show wr: "written out2 = eh @ concat (map phdr_bytes (map header segs))" and st: "in_step out2"
    and rp: "list_all2 replanned (map header (segments w)) (map header segs)"
    and sd: "map seg_data segs = map seg_data (segments w)"
    using t assms(8) h(1) by (simp_all add: eh_def n_def)
  have pl: "planned (sizeof_Elf_Ehdr + sizeof_Elf_Phdr * n) (map header segs)"
    using t assms(8) h(1) by (simp add: eh_def n_def)
  have len: "length segs = n" using sd unfolding n_def by (metis length_map)
  show "list_all2 (yields invar contents) segs yss"
    using assms(7) rp sd len [unfolded n_def]
    by (simp add: list_all2_conv_all_nth list_eq_iff_nth_eq) (metis yields_replanned)
  show "write_offset out2 = sizeof_Elf_Ehdr + sizeof_Elf_Phdr * n"
    using wr st len length_table [of "map header segs"] by (simp add: in_step_def eh_def)
  with pl show "planned (write_offset out2) (map header segs)" by simp
  show "demand (map header segs) = demand (map header (segments w))" using rp demand_replanned by metis
qed

lemma write_layout:
  assumes "ticos_core_elf_writer_write w = Some (True, w')" and "w_ops w = ops"
    and "written (w_out w) = []" and "write_offset (w_out w) = 0"
    and "segments_idx w + 1 = int (length (segments w))" and "list_all2 (yields invar contents) (segments w) yss"
    and "sizeof_Elf_Ehdr + sizeof_Elf_Phdr * length (segments w) + demand (map header (segments w)) < 2 ^ 64"
    and "invar (out_io (w_out w))"
  shows "(\<exists>hs body. written (w_out w') =
      ehdr_bytes (writer_header (length (segments w)) w) @ concat (map phdr_bytes hs) @ body \<and>
    list_all2 replanned (map header (segments w)) hs \<and>
    planned (sizeof_Elf_Ehdr + sizeof_Elf_Phdr * length hs) hs \<and>
    list_all2 (placed (written (w_out w'))) hs yss) \<and>
    (\<exists>io. invar io \<and> io_sync ops io = Some (True, out_io (w_out w')))"
proof -
  let ?n = "length (segments w)" and ?eh = "ehdr_bytes (writer_header (length (segments w)) w)"
  have n: "nat (segments_idx w + 1) = ?n" using assms(5) by simp
  have s0: "in_step (w_out w)" using assms(3,4,8) by (simp add: in_step_def)
  from assms(1,2) n obtain out1 segs out2 out3 io where o:
      "prv_write_all ops ?eh (w_out w) = Some (True, out1)"
      "write_segment_table ops (u64_of (write_offset out1 + sizeof_Elf_Phdr * ?n)) (segments w) out1 = Some (True, segs, out2)"
      "write_segment_blocks ops segs out2 = Some (True, out3)" "io_sync ops (out_io out3) = Some (True, io)"
      "w' = w\<lparr>w_out := out3\<lparr>out_io := io\<rparr>, segments := segs\<rparr>"
    by (auto simp: ticos_core_elf_writer_write_def Let_def split: bind_splits if_splits prod.splits)
  note t = table_written [OF o(1,2) s0 assms(3,6,7)]
  have len: "length segs = ?n" using t(6) by (metis length_map)
  have b: "(\<exists>body. written out3 = written out2 @ body) \<and> list_all2 (placed (written out3)) (map header segs) yss \<and> in_step out3"
    using blocks_append [OF o(3) t(2,4,7)] t(3,8) assms(7) by simp
  have "written (w_out w') = written out3" using sync_law [OF _ o(4)] b o(5) by (simp add: in_step_def)
  with b t(1,4,5) len have "\<exists>hs body. written (w_out w') = ?eh @ concat (map phdr_bytes hs) @ body \<and>
      list_all2 replanned (map header (segments w)) hs \<and>
      planned (sizeof_Elf_Ehdr + sizeof_Elf_Phdr * length hs) hs \<and> list_all2 (placed (written (w_out w'))) hs yss"
    unfolding t(3) by (intro exI [of _ "map header segs"]) auto
  moreover have "invar (out_io out3) \<and> io_sync ops (out_io out3) = Some (True, out_io (w_out w'))"
    using b o(4,5) by (simp add: in_step_def)
  ultimately show ?thesis by blast
qed

end

section \<open>Files meet the contract\<close>

lemma fio_write_law:
  "prv_fio_write io data = (r, io') \<Longrightarrow>
   fio_bytes io' = fio_bytes io @ (case r of Written n \<Rightarrow> take n data | _ \<Rightarrow> [])"
  by (auto simp: prv_fio_write_def Let_def split: if_splits list.splits write_result.splits)

interpretation file_sink: elf_sink file_ops "\<lambda>_. True" fio_bytes
  by unfold_locales (auto simp: file_ops_def fio_write_law prv_fio_sync_def)

text \<open>The counter agrees with the file, the file is within its limit and nothing was or will be interrupted.\<close>

definition within_limit :: "sTicosCoreElfWriteFileIO \<Rightarrow> bool" where
  "within_limit io \<longleftrightarrow> written_size io = length (fio_bytes io) \<and> length (fio_bytes io) \<le> max_size io \<and>
     max_size io < 2 ^ 63 \<and> \<not> errno_is_EINTR io \<and> Write_EINTR \<notin> set (os_answers io)"

lemma next_answer:
  assumes "(case os_answers io of [] \<Rightarrow> (Written (length data), []) | a # as \<Rightarrow> (a, as)) = (answer, rest)"
    and "Write_EINTR \<notin> set (os_answers io)" and "data \<noteq> []"
  shows "answer \<noteq> Write_EINTR" and "Write_EINTR \<notin> set rest"
    and "answer = Written n \<Longrightarrow>
      length rest + (length data - min n (length data)) < length (os_answers io) + length data"
  using assms by (auto split: list.splits)

lemma fio_write_cases:
  assumes "within_limit io" and "length data < 2 ^ 63" and "data \<noteq> []" and "prv_fio_write io data = (r, io')"
  obtains (wrote) n where "r = Written n" "n \<le> length data" "within_limit io'" "max_size io' = max_size io"
      "fio_bytes io' = fio_bytes io @ take n data"
      "length (os_answers io') + (length data - n) < length (os_answers io) + length data"
    | (failed) "r = Write_Failed" "fio_bytes io' = fio_bytes io"
proof -
  obtain answer rest where ans:
      "(case os_answers io of [] \<Rightarrow> (Written (length data), []) | a # as \<Rightarrow> (a, as)) = (answer, rest)" by fastforce
  have lim: "written_size io = length (fio_bytes io)" "length (fio_bytes io) \<le> max_size io" "max_size io < 2 ^ 63"
      "\<not> errno_is_EINTR io" "Write_EINTR \<notin> set (os_answers io)" using assms(1) unfolding within_limit_def by simp_all
  note na = next_answer [OF ans lim(5) assms(3)]
  have u: "u64_of (length (fio_bytes io) + k) = length (fio_bytes io) + k" if "k \<le> length data" for k
    using that lim(2,3) assms(2) by (intro u64_of_id) simp
  show ?thesis
  proof (cases "max_size io < length (fio_bytes io) + length data")
    case True
    with assms(4) lim(1,4) u [of "length data"] show ?thesis
      by (intro failed) (simp_all add: prv_fio_write_def)
  next
    case False
    note eq = assms(4) [unfolded prv_fio_write_def lim(1) u [OF order_refl] if_not_P [OF False] ans Let_def prod.case]
    show ?thesis
    proof (cases answer)
      case (Written n)
      define k where "k = min n (length data)"
      have e: "r = Written k" "io' = io\<lparr>os_answers := rest, fio_bytes := fio_bytes io @ take k data,
          written_size := length (fio_bytes io) + k\<rparr>"
        using eq lim(1) u [of k] min.cobounded2 [of n "length data"] by (simp_all add: Written k_def [symmetric])
      have "within_limit io'" using False lim na(2) by (simp add: e within_limit_def k_def)
      then show ?thesis using na(3) [OF Written] by (intro wrote [OF e(1)]) (simp_all add: e k_def)
    next
      case Write_Failed
      with eq show ?thesis by (intro failed) auto
    qed (use na(1) in simp)
  qed
qed

text \<open>
  Writing a block to a file comes to an end unless a system call is interrupted, however the system
  divides the block; what is written is a prefix of the block, all of it on success, and the file never
  grows past its limit.
\<close>

theorem file_write_terminates:
  assumes "within_limit io" and "length data < 2 ^ 63"
  shows "\<exists>ok io' n. prv_io_write_all file_ops data io = Some (ok, io') \<and>
    fio_bytes io' = fio_bytes io @ take n data \<and> (ok \<longrightarrow> length data \<le> n \<and> within_limit io') \<and>
    length (fio_bytes io') \<le> max_size io"
  using assms
proof (induction "length (os_answers io) + length data" arbitrary: io data rule: less_induct)
  case less
  show ?case
  proof (cases "data = []")
    case True
    with less.prems show ?thesis
      by (subst prv_io_write_all.simps) (auto simp: within_limit_def)
  next
    case False
    obtain r io1 where w: "prv_fio_write io data = (r, io1)" by fastforce
    from less.prems(1) less.prems(2) False w show ?thesis
    proof (cases rule: fio_write_cases)
      case (wrote n)
      have "length (drop n data) < 2 ^ 63" using less.prems(2) by simp
      moreover have "length (os_answers io1) + length (drop n data) < length (os_answers io) + length data"
        using wrote(6) by simp
      ultimately obtain ok io' m where h: "prv_io_write_all file_ops (drop n data) io1 = Some (ok, io')"
        "fio_bytes io' = fio_bytes io1 @ take m (drop n data)"
        "ok \<longrightarrow> length (drop n data) \<le> m \<and> within_limit io'" "length (fio_bytes io') \<le> max_size io1"
        using less.hyps [of io1 "drop n data", OF _ wrote(3)] by blast
      have "take (n + m) data = take n data @ take m (drop n data)" by (simp add: take_add)
      with h wrote w False show ?thesis
        by (subst prv_io_write_all.simps) (auto simp: file_ops_def intro!: exI [of _ "n + m"])
    next
      case failed
      with w False less.prems show ?thesis
        by (subst prv_io_write_all.simps) (auto simp: file_ops_def within_limit_def intro!: exI [of _ 0])
    qed
  qed
qed

theorem file_write_terminates_witness:
  "\<exists>ok io' n. prv_io_write_all file_ops [1, 2, 3]
      (ticos_core_elf_write_file_io_init [] 10 [Written 1, Written 0, Write_Failed] True) = Some (ok, io') \<and>
    fio_bytes io' = take n [1, 2, 3] \<and> (ok \<longrightarrow> length [1 :: byte, 2, 3] \<le> n \<and> within_limit io') \<and> length (fio_bytes io') \<le> 10"
  using file_write_terminates [of "ticos_core_elf_write_file_io_init [] 10 [Written 1, Written 0, Write_Failed] True" "[1, 2, 3]"]
  by (simp add: within_limit_def ticos_core_elf_write_file_io_init_def)

text \<open>
  The size limit reports an error without setting \<^verbatim>\<open>errno\<close>: when the last system call that
  failed was interrupted, the loop that writes a block treats the limit as an interruption and never
  ends.
\<close>

theorem limit_after_interrupt_hangs:
  assumes "errno_is_EINTR io" and "max_size io < u64_of (written_size io + length data)" and "data \<noteq> []"
  shows "prv_io_write_all file_ops data io = None"
proof (rule ccontr)
  assume "prv_io_write_all file_ops data io \<noteq> None"
  then obtain y where y: "prv_io_write_all file_ops data io = Some y" by blast
  define P where "P os d i (y :: bool \<times> sTicosCoreElfWriteFileIO) \<longleftrightarrow> \<not> (os = file_ops \<and> d = data \<and> i = io)" for os d i y
  have "P file_ops data io y"
  proof (rule prv_io_write_all.raw_induct [of P, OF _ y])
    fix f os d i z
    assume ih: "\<And>os d i y. f os d i = Some y \<Longrightarrow> P os d i y"
      and eq: "(if d = [] then Some (True, i)
        else io_write os i d \<bind> (\<lambda>(r, i). case r of Written n \<Rightarrow> f os (drop n d) i
          | Write_EINTR \<Rightarrow> f os d i | Write_Failed \<Rightarrow> Some (False, i))) = Some z"
    have "prv_fio_write io data = (Write_EINTR, io)" using assms by (simp add: prv_fio_write_def)
    with eq ih [of os d i z] show "P os d i z" using assms(3) by (auto simp: P_def file_ops_def)
  qed
  then show False by (simp add: P_def)
qed

definition interrupted_file :: sTicosCoreElfWriteFileIO where
  "interrupted_file = snd (prv_fio_write (ticos_core_elf_write_file_io_init [] 2 [Write_EINTR] True) [1, 2])"

theorem limit_after_interrupt_hangs_witness:
  "prv_io_write_all file_ops [1, 2, 3, 4] interrupted_file = None"
  using limit_after_interrupt_hangs [of interrupted_file "[1, 2, 3, 4]"]
  by (simp add: interrupted_file_def prv_fio_write_def ticos_core_elf_write_file_io_init_def u64_of_def)

text \<open>
  When the array of segments cannot be enlarged the segment is refused, but the recorded capacity has
  already grown: adding the next segment stores outside the array.
\<close>

theorem failed_realloc_corrupts:
  assumes "segments_idx w + 1 = int (segments_alloc w)" and "segments_max w = segments_alloc w"
    and "\<not> realloc_ok (segments_max w + SEGMENTS_REALLOC_STEP_SIZE)"
  shows "\<exists>w1. ticos_core_elf_writer_add_segment_with_buffer realloc_ok h d w = Some (False, w1) \<and>
    ticos_core_elf_writer_add_segment_with_buffer realloc_ok' h' d' w1 = None"
  using assms
  by (simp add: ticos_core_elf_writer_add_segment_with_buffer_def add_segment_def prv_alloc_next_segment_def Let_def
      SEGMENTS_REALLOC_STEP_SIZE_def)

definition empty_writer :: "sTicosCoreElfWriteFileIO sTicosCoreElfWriter" where
  "empty_writer = ticos_core_elf_writer_init file_ops (ticos_core_elf_write_file_io_init [] 1000 [] True)"

definition data_segment :: "nat \<Rightarrow> Elf_Phdr" where
  "data_segment n =
     \<lparr>p_type = 1, p_flags = 5, p_offset = 0, p_vaddr = 4096, p_paddr = 0, p_filesz = n, p_memsz = n, p_align = 8\<rparr>"

theorem failed_realloc_corrupts_witness:
  "\<exists>w1. ticos_core_elf_writer_add_segment_with_buffer (\<lambda>_. False) (data_segment 1) [7] empty_writer = Some (False, w1) \<and>
    ticos_core_elf_writer_add_segment_with_buffer (\<lambda>_. True) (data_segment 2) [8, 9] w1 = None"
  using failed_realloc_corrupts [of empty_writer "\<lambda>_. False" "data_segment 1" "[7]" "\<lambda>_. True" "data_segment 2" "[8, 9]"]
  by (simp add: empty_writer_def ticos_core_elf_writer_init_def)

text \<open>
  C15. When the writer reports success, the file is the ELF header, the segment table and a body. The
  table lists the segments in the order they were added with only their file offsets changed; offsets
  do not overlap the table or each other, and are aligned when the alignment is a power of two; and
  the bytes at each planned offset are exactly the data of that segment (\<open>yss\<close>).
\<close>

theorem writer_layout:
  assumes "ticos_core_elf_writer_write w = Some (True, w')" and "w_ops w = file_ops"
    and "fio_bytes (out_io (w_out w)) = []" and "write_offset (w_out w) = 0"
    and "segments_idx w + 1 = int (length (segments w))"
    and "list_all2 (yields (\<lambda>_. True) fio_bytes) (segments w) yss"
    and "sizeof_Elf_Ehdr + sizeof_Elf_Phdr * length (segments w) + demand (map header (segments w)) < 2 ^ 64"
  shows "\<exists>hs body. fio_bytes (out_io (w_out w')) =
      ehdr_bytes (writer_header (length (segments w)) w) @ concat (map phdr_bytes hs) @ body \<and>
    list_all2 replanned (map header (segments w)) hs \<and>
    planned (sizeof_Elf_Ehdr + sizeof_Elf_Phdr * length hs) hs \<and>
    list_all2 (placed (fio_bytes (out_io (w_out w')))) hs yss"
  using file_sink.write_layout [OF assms] by simp

definition sample_segments :: "(Elf_Phdr \<times> byte list) list" where
  "sample_segments =
     [(\<lparr>p_type = 4, p_flags = 0, p_offset = 0, p_vaddr = 0, p_paddr = 0, p_filesz = 3, p_memsz = 0, p_align = 0\<rparr>, [1, 2, 3]),
      (\<lparr>p_type = 1, p_flags = 5, p_offset = 0, p_vaddr = 4096, p_paddr = 0, p_filesz = 2, p_memsz = 2, p_align = 8\<rparr>, [9, 8, 7])]"

definition sample_writer :: "sTicosCoreElfWriteFileIO sTicosCoreElfWriter" where
  "sample_writer =
     fold (\<lambda>(h, d) w. case ticos_core_elf_writer_add_segment_with_buffer (\<lambda>_. True) h d w of
             Some (_, w) \<Rightarrow> w | None \<Rightarrow> w) sample_segments
       (ticos_core_elf_writer_set_elf_header_fields 183 0
         (ticos_core_elf_writer_init file_ops (ticos_core_elf_write_file_io_init [] 1000 [Written 10] True)))"

lemma sample_writer_fields:
  "w_ops sample_writer = file_ops" "fio_bytes (out_io (w_out sample_writer)) = []"
  "write_offset (w_out sample_writer) = 0" "segments_idx sample_writer = 1"
  "segments sample_writer = map (\<lambda>(h, d). \<lparr>header = h, seg_data = Buffer d\<rparr>) sample_segments"
  by (simp_all add: sample_writer_def sample_segments_def ticos_core_elf_writer_init_def add_segment_def
      ticos_core_elf_writer_set_elf_header_fields_def ticos_core_elf_write_file_io_init_def
      ticos_core_elf_writer_add_segment_with_buffer_def prv_alloc_next_segment_def SEGMENTS_REALLOC_STEP_SIZE_def)

lemma sample_writer_succeeds: "map_option fst (ticos_core_elf_writer_write sample_writer) = Some True"
  by code_simp

theorem writer_layout_witness:
  "\<exists>w' hs body. ticos_core_elf_writer_write sample_writer = Some (True, w') \<and>
    fio_bytes (out_io (w_out w')) =
      ehdr_bytes (writer_header 2 sample_writer) @ concat (map phdr_bytes hs) @ body \<and>
    list_all2 (placed (fio_bytes (out_io (w_out w')))) hs [[1, 2, 3], [9, 8]]"
proof -
  obtain w' where w: "ticos_core_elf_writer_write sample_writer = Some (True, w')"
    using sample_writer_succeeds by auto
  have "list_all2 (yields (\<lambda>_. True) fio_bytes) (segments sample_writer) [[1, 2, 3], [9, 8]]"
    by (simp add: sample_writer_fields sample_segments_def yields_def)
  note y = this
  have "sizeof_Elf_Ehdr + sizeof_Elf_Phdr * length (segments sample_writer) + demand (map header (segments sample_writer)) < 2 ^ 64"
    by (simp add: sample_writer_fields sample_segments_def demand_def sizeof_Elf_Ehdr_def sizeof_Elf_Phdr_def)
  moreover have "length (segments sample_writer) = 2" by (simp add: sample_writer_fields sample_segments_def)
  ultimately show ?thesis
    using writer_layout [OF w sample_writer_fields(1-3) _ y] w by (auto simp: sample_writer_fields(4))
qed

end
