(* ===== verification/Core_Elf_Gzip.thy ===== *)
theory Core_Elf_Gzip
  imports Core_Elf_Writer
begin

text \<open>
  The compressing output of the core file writer (the gzip part of
  src/plugins/coredump/core_elf_writer.c). zlib is a parameter: one call of \<^verbatim>\<open>deflate\<close> takes
  the stream, whether the stream is to be finished, the available input and the room for output, and
  answers the return code, the number of input bytes taken, the output and the stream.
\<close>

section \<open>Definitions\<close>

datatype deflate_rv = Z_OK | Z_STREAM_END | Z_ERROR

type_synonym 'zs deflate = "'zs \<Rightarrow> bool \<Rightarrow> byte list \<Rightarrow> nat \<Rightarrow> deflate_rv \<times> nat \<times> byte list \<times> 'zs"

record ('zs, 'io) sTicosCoreElfWriteGzipIO =
  gz_next :: 'io
  gz_stream :: 'zs
  avail_in :: "byte list"

definition GZIP_COMPRESSION_BUFFER_SIZE :: nat where "GZIP_COMPRESSION_BUFFER_SIZE = 4096"

partial_function (option) gz_write_loop ::
  "'zs deflate \<Rightarrow> 'io sTicosCoreElfWriteIO \<Rightarrow> ('zs, 'io) sTicosCoreElfWriteGzipIO \<Rightarrow>
   (deflate_rv \<times> bool \<times> ('zs, 'io) sTicosCoreElfWriteGzipIO) option" where
  "gz_write_loop deflate nops gzio =
     (if avail_in gzio = [] then Some (Z_OK, True, gzio)
      else case deflate (gz_stream gzio) False (avail_in gzio) GZIP_COMPRESSION_BUFFER_SIZE of
        (rv, taken, buffer, zs) \<Rightarrow>
          (let gzio = gzio\<lparr>gz_stream := zs, avail_in := drop taken (avail_in gzio)\<rparr> in
           if rv \<noteq> Z_OK then Some (rv, False, gzio)
           else do {
             (ok, io) \<leftarrow> prv_io_write_all nops buffer (gz_next gzio);
             let gzio = gzio\<lparr>gz_next := io\<rparr>;
             if \<not> ok then Some (rv, False, gzio) else gz_write_loop deflate nops gzio
           }))"

declare gz_write_loop.simps [code]

text \<open>
  A failure returns -1 without setting \<^verbatim>\<open>errno\<close> when \<^verbatim>\<open>deflate\<close> failed; \<open>interrupted\<close> is
  whether the error the C library recorded last is an interruption.
\<close>

definition gz_prv_write ::
  "'zs deflate \<Rightarrow> 'io sTicosCoreElfWriteIO \<Rightarrow> ('io \<Rightarrow> bool) \<Rightarrow> ('zs, 'io) sTicosCoreElfWriteGzipIO \<Rightarrow> byte list \<Rightarrow>
   (write_result \<times> ('zs, 'io) sTicosCoreElfWriteGzipIO) option" where
  "gz_prv_write deflate nops interrupted gzio data = do {
     (rv, ok, gzio) \<leftarrow> gz_write_loop deflate nops (gzio\<lparr>avail_in := data\<rparr>);
     if ok then Some (Written (length data), gzio)
     else if rv \<noteq> Z_OK \<and> interrupted (gz_next gzio) then Some (Write_EINTR, gzio)
     else Some (Write_Failed, gzio)
   }"

partial_function (option) gz_prv_sync ::
  "'zs deflate \<Rightarrow> 'io sTicosCoreElfWriteIO \<Rightarrow> ('zs, 'io) sTicosCoreElfWriteGzipIO \<Rightarrow>
   (bool \<times> ('zs, 'io) sTicosCoreElfWriteGzipIO) option" where
  "gz_prv_sync deflate nops gzio =
     (case deflate (gz_stream gzio) True (avail_in gzio) GZIP_COMPRESSION_BUFFER_SIZE of
        (rv, taken, buffer, zs) \<Rightarrow>
          (let gzio = gzio\<lparr>gz_stream := zs, avail_in := drop taken (avail_in gzio)\<rparr> in
           if rv = Z_ERROR then Some (False, gzio)
           else do {
             (ok, io) \<leftarrow> prv_io_write_all nops buffer (gz_next gzio);
             let gzio = gzio\<lparr>gz_next := io\<rparr>;
             if \<not> ok then Some (False, gzio)
             else if rv = Z_STREAM_END then Some (True, gzio)
             else gz_prv_sync deflate nops gzio
           }))"

declare gz_prv_sync.simps [code]

definition gzip_ops ::
  "'zs deflate \<Rightarrow> 'io sTicosCoreElfWriteIO \<Rightarrow> ('io \<Rightarrow> bool) \<Rightarrow>
   ('zs, 'io) sTicosCoreElfWriteGzipIO sTicosCoreElfWriteIO" where
  "gzip_ops deflate nops interrupted =
     \<lparr>io_write = gz_prv_write deflate nops interrupted, io_sync = gz_prv_sync deflate nops\<rparr>"

text \<open>\<open>deflateInit2\<close> gets the window bits and the memory level.\<close>

definition ticos_core_elf_write_gzip_io_init ::
  "(int \<Rightarrow> int \<Rightarrow> 'zs option) \<Rightarrow> 'io \<Rightarrow> ('zs, 'io) sTicosCoreElfWriteGzipIO option" where
  "ticos_core_elf_write_gzip_io_init deflateInit2 next_io =
     (let mem_level = 8; window_bits = 15; gzip_header_inc = 16 in
      case deflateInit2 (window_bits + gzip_header_inc) mem_level of
        None \<Rightarrow> None
      | Some zs \<Rightarrow> Some \<lparr>gz_next = next_io, gz_stream = zs, avail_in = []\<rparr>)"

definition ticos_core_elf_write_gzip_io_deinit ::
  "('zs \<Rightarrow> bool) \<Rightarrow> ('zs, 'io) sTicosCoreElfWriteGzipIO \<Rightarrow> bool" where
  "ticos_core_elf_write_gzip_io_deinit deflateEnd gzio = deflateEnd (gz_stream gzio)"

section \<open>The compressed file\<close>

text \<open>
  What the code relies on of zlib: a call takes a prefix of its input and keeps to the room for output;
  with input and room it makes progress and does not fail; and when the stream has ended, its whole
  output decompresses to everything that was fed to it. \<open>fed\<close> and \<open>emitted\<close> are the input and the
  output of a stream so far.
\<close>

definition zlib_laws ::
  "'zs deflate \<Rightarrow> (byte list \<Rightarrow> byte list option) \<Rightarrow> ('zs \<Rightarrow> byte list) \<Rightarrow> ('zs \<Rightarrow> byte list) \<Rightarrow> bool" where
  "zlib_laws deflate inflate fed emitted \<longleftrightarrow>
     (\<forall>zs fin inp room rv taken out zs'. deflate zs fin inp room = (rv, taken, out, zs') \<longrightarrow>
        taken \<le> length inp \<and> length out \<le> room \<and> fed zs' = fed zs @ take taken inp \<and> emitted zs' = emitted zs @ out \<and>
        (\<not> fin \<and> inp \<noteq> [] \<and> room > 0 \<longrightarrow> rv = Z_OK) \<and>
        (rv = Z_STREAM_END \<longrightarrow> inflate (emitted zs') = Some (fed zs')))"

lemma zlib_call:
  assumes "zlib_laws deflate inflate fed emitted" and "deflate zs fin inp room = (rv, taken, out, zs')"
  shows "taken \<le> length inp" "fed zs' = fed zs @ take taken inp" "emitted zs' = emitted zs @ out"
    and "\<not> fin \<Longrightarrow> inp \<noteq> [] \<Longrightarrow> room > 0 \<Longrightarrow> rv = Z_OK"
    and "rv = Z_STREAM_END \<Longrightarrow> inflate (emitted zs') = Some (fed zs')"
  using assms unfolding zlib_laws_def by blast+

text \<open>What holds of a compressing output between calls: no input is left and all output has been passed on.\<close>

definition gz_settled ::
  "('zs \<Rightarrow> byte list) \<Rightarrow> ('io \<Rightarrow> bool) \<Rightarrow> ('io \<Rightarrow> byte list) \<Rightarrow> ('zs, 'io) sTicosCoreElfWriteGzipIO \<Rightarrow> bool" where
  "gz_settled emitted invar contents g \<longleftrightarrow>
     invar (gz_next g) \<and> contents (gz_next g) = emitted (gz_stream g) \<and> avail_in g = []"

context elf_sink
begin

definition gz_forwarded ::
  "('zs \<Rightarrow> byte list) \<Rightarrow> ('zs, 'io) sTicosCoreElfWriteGzipIO \<Rightarrow> bool" where
  "gz_forwarded emitted g \<longleftrightarrow> invar (gz_next g) \<and> contents (gz_next g) = emitted (gz_stream g)"

lemma gz_step_forwarded:
  assumes "prv_io_write_all ops out (gz_next g) = Some (True, io)" and "gz_forwarded emitted g"
    and "emitted zs = emitted (gz_stream g) @ out"
  shows "gz_forwarded emitted (g\<lparr>gz_stream := zs, avail_in := inp, gz_next := io\<rparr>)"
  using io_write_all_appends [OF assms(1)] assms(2,3) by (simp add: gz_forwarded_def)

lemma gz_write_loop_feeds:
  assumes "gz_write_loop deflate ops g = Some (rv, ok, g')" and "zlib_laws deflate inflate fed emitted"
    and "gz_forwarded emitted g"
  shows "rv = Z_OK \<and> (ok \<longrightarrow> fed (gz_stream g') = fed (gz_stream g) @ avail_in g \<and>
    avail_in g' = [] \<and> gz_forwarded emitted g')"
proof -
  define P where "P d os g y \<longleftrightarrow> d = deflate \<longrightarrow> os = ops \<longrightarrow> gz_forwarded emitted g \<longrightarrow>
    (case y of (rv, ok, g') \<Rightarrow> rv = Z_OK \<and> (ok \<longrightarrow> fed (gz_stream g') = fed (gz_stream g) @ avail_in g \<and>
       avail_in g' = [] \<and> gz_forwarded emitted g'))" for d os and g :: "('a, 'io) sTicosCoreElfWriteGzipIO" and y
  have "P deflate ops g (rv, ok, g')"
  proof (rule gz_write_loop.raw_induct [of P, OF _ assms(1)])
    fix f d os g y
    assume ih: "\<And>d os g y. f d os g = Some y \<Longrightarrow> P d os g y"
      and eq: "(if avail_in g = [] then Some (Z_OK, True, g)
        else case d (gz_stream g) False (avail_in g) GZIP_COMPRESSION_BUFFER_SIZE of
          (rv, taken, buffer, zs) \<Rightarrow>
            let gzio = g\<lparr>gz_stream := zs, avail_in := drop taken (avail_in g)\<rparr> in
            if rv \<noteq> Z_OK then Some (rv, False, gzio)
            else prv_io_write_all os buffer (gz_next gzio) \<bind>
              (\<lambda>(ok, io). let gzio = gzio\<lparr>gz_next := io\<rparr> in
                 if \<not> ok then Some (rv, False, gzio) else f d os gzio)) = Some y"
    show "P d os g y"
    proof (cases "avail_in g = [] \<or> \<not> (d = deflate \<and> os = ops \<and> gz_forwarded emitted g)")
      case True
      with eq show ?thesis by (auto simp: P_def split: if_splits)
    next
      case False
      obtain rv taken out zs where dfl:
          "deflate (gz_stream g) False (avail_in g) GZIP_COMPRESSION_BUFFER_SIZE = (rv, taken, out, zs)"
        by (metis prod.exhaust)
      note z = zlib_call [OF assms(2) dfl]
      have "rv = Z_OK" using z(4) False by (simp add: GZIP_COMPRESSION_BUFFER_SIZE_def)
      with eq dfl False obtain ok io where w: "prv_io_write_all ops out (gz_next g) = Some (ok, io)"
        "(if \<not> ok then Some (rv, False, g\<lparr>gz_stream := zs, avail_in := drop taken (avail_in g), gz_next := io\<rparr>)
          else f deflate ops (g\<lparr>gz_stream := zs, avail_in := drop taken (avail_in g), gz_next := io\<rparr>)) = Some y"
        by (auto simp: Let_def split: bind_splits)
      show ?thesis
      proof (cases ok)
        case True
        have "gz_forwarded emitted (g\<lparr>gz_stream := zs, avail_in := drop taken (avail_in g), gz_next := io\<rparr>)"
          using gz_step_forwarded [of out g io emitted zs] w(1) True False z(3) by simp
        with ih [of deflate ops _ y] w(2) True z(2) False show ?thesis by (fastforce simp: P_def)
      qed (use w(2) \<open>rv = Z_OK\<close> in \<open>auto simp: P_def\<close>)
    qed
  qed
  with assms(3) show ?thesis by (simp add: P_def)
qed

lemma gz_sync_finishes:
  assumes "gz_prv_sync deflate ops g = Some (True, g')" and "zlib_laws deflate inflate fed emitted"
    and "gz_forwarded emitted g" and "avail_in g = []"
  shows "fed (gz_stream g') = fed (gz_stream g) \<and> inflate (contents (gz_next g')) = Some (fed (gz_stream g'))"
proof -
  define P where "P d os g y \<longleftrightarrow> d = deflate \<longrightarrow> os = ops \<longrightarrow> gz_forwarded emitted g \<longrightarrow> avail_in g = [] \<longrightarrow> fst y \<longrightarrow>
    fed (gz_stream (snd y)) = fed (gz_stream g) \<and> inflate (contents (gz_next (snd y))) = Some (fed (gz_stream (snd y)))"
    for d os and g :: "('a, 'io) sTicosCoreElfWriteGzipIO" and y :: "bool \<times> ('a, 'io) sTicosCoreElfWriteGzipIO"
  have "P deflate ops g (True, g')"
  proof (rule gz_prv_sync.raw_induct [of P, OF _ assms(1)])
    fix f d os g y
    assume ih: "\<And>d os g y. f d os g = Some y \<Longrightarrow> P d os g y"
      and eq: "(case d (gz_stream g) True (avail_in g) GZIP_COMPRESSION_BUFFER_SIZE of
          (rv, taken, buffer, zs) \<Rightarrow>
            let gzio = g\<lparr>gz_stream := zs, avail_in := drop taken (avail_in g)\<rparr> in
            if rv = Z_ERROR then Some (False, gzio)
            else prv_io_write_all os buffer (gz_next gzio) \<bind>
              (\<lambda>(ok, io). let gzio = gzio\<lparr>gz_next := io\<rparr> in
                 if \<not> ok then Some (False, gzio) else if rv = Z_STREAM_END then Some (True, gzio)
                 else f d os gzio)) = Some y"
    show "P d os g y"
    proof (cases "d = deflate \<and> os = ops \<and> gz_forwarded emitted g \<and> avail_in g = [] \<and> fst y")
      case True
      obtain rv taken out zs where dfl:
          "deflate (gz_stream g) True (avail_in g) GZIP_COMPRESSION_BUFFER_SIZE = (rv, taken, out, zs)"
        by (metis prod.exhaust)
      note z = zlib_call [OF assms(2) dfl]
      from eq dfl True obtain io where w: "prv_io_write_all ops out (gz_next g) = Some (True, io)"
        "(if rv = Z_STREAM_END then Some (True, g\<lparr>gz_stream := zs, avail_in := [], gz_next := io\<rparr>)
          else f deflate ops (g\<lparr>gz_stream := zs, avail_in := [], gz_next := io\<rparr>)) = Some y"
        by (auto simp: Let_def split: bind_splits if_splits)
      have fw: "gz_forwarded emitted (g\<lparr>gz_stream := zs, avail_in := [], gz_next := io\<rparr>)"
        using gz_step_forwarded [OF w(1), of emitted zs "[]"] True z(3) by simp
      show ?thesis
      proof (cases "rv = Z_STREAM_END")
        case True
        with w(2) z(2,5) fw \<open>d = deflate \<and> _\<close> show ?thesis by (auto simp: P_def gz_forwarded_def)
      next
        case False
        with ih [of deflate ops _ y] w(2) fw z(2) \<open>d = deflate \<and> _\<close> show ?thesis by (fastforce simp: P_def)
      qed
    qed (auto simp: P_def)
  qed
  with assms(3,4) show ?thesis by (simp add: P_def)
qed

text \<open>Compression on top of an output is again an output; its contents are what was fed to the stream.\<close>

lemma gz_sink:
  assumes "zlib_laws deflate inflate fed emitted"
  shows "elf_sink (gzip_ops deflate ops interrupted) (gz_settled emitted invar contents) (\<lambda>g. fed (gz_stream g))"
proof
  fix g data r g'
  assume inv: "gz_settled emitted invar contents g" and r: "r \<noteq> Write_Failed"
    and w: "io_write (gzip_ops deflate ops interrupted) g data = Some (r, g')"
  then obtain rv ok g1 where l: "gz_write_loop deflate ops (g\<lparr>avail_in := data\<rparr>) = Some (rv, ok, g1)"
    by (auto simp: gzip_ops_def gz_prv_write_def split: bind_splits)
  have "gz_forwarded emitted (g\<lparr>avail_in := data\<rparr>)" using inv by (simp add: gz_settled_def gz_forwarded_def)
  note f = gz_write_loop_feeds [OF l assms this]
  have "ok" "r = Written (length data)" "g' = g1"
    using w l f r by (auto simp: gzip_ops_def gz_prv_write_def split: if_splits)
  with f show "gz_settled emitted invar contents g' \<and>
      fed (gz_stream g') = fed (gz_stream g) @ (case r of Written n \<Rightarrow> take n data | _ \<Rightarrow> [])"
    by (simp add: gz_settled_def gz_forwarded_def)
next
  fix g g'
  assume inv: "gz_settled emitted invar contents g"
    and w: "io_sync (gzip_ops deflate ops interrupted) g = Some (True, g')"
  with gz_sync_finishes [OF _ assms, of g g'] show "fed (gz_stream g') = fed (gz_stream g)"
    by (simp add: gzip_ops_def gz_settled_def gz_forwarded_def)
qed

end


text \<open>A compressor for the witness: it stores the bytes unchanged. A stream is everything it was fed.\<close>

definition stored_deflate :: "byte list deflate" where
  "stored_deflate zs fin inp room =
     (let n = min room (length inp) in
      (if fin \<and> n = length inp then Z_STREAM_END else Z_OK, n, take n inp, zs @ take n inp))"

lemma stored_zlib: "zlib_laws stored_deflate Some (\<lambda>zs. zs) (\<lambda>zs. zs)"
  by (auto simp: zlib_laws_def stored_deflate_def Let_def)

definition sample_gz :: "(byte list, sTicosCoreElfWriteFileIO) sTicosCoreElfWriteGzipIO" where
  "sample_gz = the (ticos_core_elf_write_gzip_io_init (\<lambda>bits level. Some []) (ticos_core_elf_write_file_io_init [] 1000 [] True))"

definition sample_gz_writer :: "(byte list, sTicosCoreElfWriteFileIO) sTicosCoreElfWriteGzipIO sTicosCoreElfWriter" where
  "sample_gz_writer =
     (case ticos_core_elf_writer_add_segment_with_buffer (\<lambda>_. True) (data_segment 3) [1, 2, 3]
        (ticos_core_elf_writer_init (gzip_ops stored_deflate file_ops errno_is_EINTR) sample_gz) of
        Some (_, w) \<Rightarrow> w)"

lemma sample_gz_writer_fields:
  "w_ops sample_gz_writer = gzip_ops stored_deflate file_ops errno_is_EINTR"
  "w_out sample_gz_writer = \<lparr>out_io = sample_gz, write_offset = 0\<rparr>" "segments_idx sample_gz_writer = 0"
  "segments sample_gz_writer = [\<lparr>header = data_segment 3, seg_data = Buffer [1, 2, 3]\<rparr>]"
  by (simp_all add: sample_gz_writer_def ticos_core_elf_writer_init_def add_segment_def
      ticos_core_elf_writer_add_segment_with_buffer_def prv_alloc_next_segment_def SEGMENTS_REALLOC_STEP_SIZE_def)

lemma sample_gz_settled:
  "gz_settled (\<lambda>zs. zs) (\<lambda>_. True) fio_bytes sample_gz" "gz_stream sample_gz = []"
  by (simp_all add: sample_gz_def gz_settled_def ticos_core_elf_write_gzip_io_init_def ticos_core_elf_write_file_io_init_def)

lemma sample_gz_writer_succeeds: "map_option fst (ticos_core_elf_writer_write sample_gz_writer) = Some True"
  by code_simp


end
