(* ===== verification/C_Text.thy ===== *)
theory C_Text
  imports Prelude
begin

text \<open>
  The parts of \<^verbatim>\<open>printf\<close> and \<^verbatim>\<open>scanf\<close> the program uses: decimal numbers as
  \<^verbatim>\<open>%ld\<close> prints and reads them.
\<close>

definition is_space :: "char \<Rightarrow> bool" where
  "is_space c \<longleftrightarrow> c \<in> set [CHR '' '', CHR 0x09, CHR 0x0A, CHR 0x0B, CHR 0x0C, CHR 0x0D]"

definition is_digit :: "char \<Rightarrow> bool" where
  "is_digit c \<longleftrightarrow> 48 \<le> (of_char c :: nat) \<and> (of_char c :: nat) \<le> 57"

definition digit_char :: "nat \<Rightarrow> char" where
  "digit_char n = char_of (48 + n)"

fun show_nat :: "nat \<Rightarrow> string" where
  "show_nat n = (if n < 10 then [digit_char n] else show_nat (n div 10) @ [digit_char (n mod 10)])"

definition show_int :: "int \<Rightarrow> string" where
  "show_int z = (if z < 0 then CHR ''-'' # show_nat (nat (- z)) else show_nat (nat z))"

definition read_digits :: "string \<Rightarrow> nat" where
  "read_digits ds = foldl (\<lambda>a c. 10 * a + (of_char c - 48)) 0 ds"

text \<open>\<^verbatim>\<open>%ld\<close>: white space, an optional sign, digits; the value is clamped to 64 bits.\<close>

definition clamp64 :: "int \<Rightarrow> int" where
  "clamp64 z = max (- (2 ^ 63)) (min (2 ^ 63 - 1) z)"

definition scan_long :: "string \<Rightarrow> (int \<times> string) option" where
  "scan_long s =
     (let s = dropWhile is_space s;
          (neg, s) = (case s of
             [] \<Rightarrow> (False, [])
           | c # cs \<Rightarrow> if c = CHR ''-'' then (True, cs) else if c = CHR ''+'' then (False, cs) else (False, s));
          ds = takeWhile is_digit s
      in if ds = [] then None
         else Some (clamp64 (if neg then - int (read_digits ds) else int (read_digits ds)),
                    dropWhile is_digit s))"

declare show_nat.simps [simp del]

lemma of_char_digit: "n < 10 \<Longrightarrow> of_char (digit_char n) = 48 + n"
  by (simp add: digit_char_def)

lemma is_digit_digit: "n < 10 \<Longrightarrow> is_digit (digit_char n)"
  by (simp add: is_digit_def of_char_digit)

lemma show_nat_digits: "\<forall>c \<in> set (show_nat n). is_digit c"
proof (induction n rule: show_nat.induct)
  case (1 n)
  then show ?case by (subst show_nat.simps) (auto simp: is_digit_digit)
qed

lemma show_nat_nonempty [simp]: "show_nat n \<noteq> []"
  by (subst show_nat.simps) simp

lemma read_show_nat: "read_digits (show_nat n) = n"
proof (induction n rule: show_nat.induct)
  case (1 n)
  then show ?case
    by (subst show_nat.simps) (auto simp: read_digits_def of_char_digit)
qed

lemma digit_not_space_sign:
  "is_digit c \<Longrightarrow> \<not> is_space c \<and> c \<noteq> CHR ''-'' \<and> c \<noteq> CHR ''+''"
  by (auto simp: is_digit_def is_space_def)

lemma takeWhile_digits:
  assumes "\<forall>c \<in> set ds. is_digit c" and "r = [] \<or> \<not> is_digit (hd r)"
  shows "takeWhile is_digit (ds @ r) = ds" and "dropWhile is_digit (ds @ r) = r"
  using assms by (cases r; simp)+

lemma scan_show_nat:
  assumes "r = [] \<or> \<not> is_digit (hd r)" and "n < 2 ^ 63"
  shows "scan_long (show_nat n @ r) = Some (int n, r)"
proof -
  obtain d ds where d: "show_nat n = d # ds" by (cases "show_nat n") auto
  note dig = show_nat_digits [of n]
  note tw = takeWhile_digits [OF dig assms(1)]
  have "\<not> is_space d" "d \<noteq> CHR ''-''" "d \<noteq> CHR ''+''" using digit_not_space_sign dig d by auto
  with d tw read_show_nat [of n] assms(2) show ?thesis
    by (auto simp: scan_long_def Let_def clamp64_def)
qed

lemma scan_show_int:
  assumes "r = [] \<or> \<not> is_digit (hd r)" and "- (2 ^ 63) \<le> z" and "z < 2 ^ 63"
  shows "scan_long (show_int z @ r) = Some (z, r)"
proof (cases "z < 0")
  case False
  with assms scan_show_nat [of r "nat z"] show ?thesis by (simp add: show_int_def)
next
  case True
  note tw = takeWhile_digits [OF show_nat_digits [of "nat (- z)"] assms(1)]
  have "\<not> is_space (CHR ''-'')" by (simp add: is_space_def)
  with True tw read_show_nat [of "nat (- z)"] assms(2) show ?thesis
    by (simp add: show_int_def scan_long_def Let_def clamp64_def)
qed

lemma scan_skips_space: "is_space c \<Longrightarrow> scan_long (c # s) = scan_long s"
  by (simp add: scan_long_def)

end
