(* ===== verification/Core_Elf_Reader.thy ===== *)
theory Core_Elf_Reader
  imports Core_Elf_Writer C_Text
begin

text \<open>
  The streaming reader of core files (src/plugins/coredump/core_elf_reader.c): a state machine of
  actions that reads the ELF header and the segment table and passes them to a handler. The input is
  an interface with the contract \<open>elf_source\<close>, which the file implementation meets. \<open>None\<close> is a loop
  that does not return, a failed assertion or an access outside a buffer. A buffer is the list of the
  bytes read into it.
\<close>

section \<open>Headers\<close>

definition field :: "byte list \<Rightarrow> nat \<Rightarrow> nat \<Rightarrow> nat" where
  "field bs off n = le_nat (take n (drop off bs))"

text \<open>The structures that the bytes of a file are read into.\<close>

definition ehdr_of :: "byte list \<Rightarrow> Elf_Ehdr" where
  "ehdr_of bs =
     \<lparr>e_ident = take 16 bs, e_type = field bs 16 2, e_machine = field bs 18 2, e_version = field bs 20 4,
      e_entry = field bs 24 8, e_phoff = field bs 32 8, e_shoff = field bs 40 8, e_flags = field bs 48 4,
      e_ehsize = field bs 52 2, e_phentsize = field bs 54 2, e_phnum = field bs 56 2,
      e_shentsize = field bs 58 2, e_shnum = field bs 60 2, e_shstrndx = field bs 62 2\<rparr>"

definition phdr_of :: "byte list \<Rightarrow> Elf_Phdr" where
  "phdr_of bs =
     \<lparr>p_type = field bs 0 4, p_flags = field bs 4 4, p_offset = field bs 8 8, p_vaddr = field bs 16 8,
      p_paddr = field bs 24 8, p_filesz = field bs 32 8, p_memsz = field bs 40 8, p_align = field bs 48 8\<rparr>"

fun phdrs_of :: "nat \<Rightarrow> byte list \<Rightarrow> Elf_Phdr list" where
  "phdrs_of 0 bs = []"
| "phdrs_of (Suc n) bs = phdr_of (take sizeof_Elf_Phdr bs) # phdrs_of n (drop sizeof_Elf_Phdr bs)"

definition ticos_core_elf_reader_is_valid_core_elf :: "byte list option \<Rightarrow> bool" where
  "ticos_core_elf_reader_is_valid_core_elf elf_buffer =
     (case elf_buffer of
        None \<Rightarrow> False
      | Some bs \<Rightarrow>
          if length bs < sizeof_Elf_Ehdr then False
          else
            let header = ehdr_of bs in
            e_ident header ! 0 = 0x7f \<and> e_ident header ! 1 = 0x45 \<and> e_ident header ! 2 = 0x4c \<and>
            e_ident header ! 3 = 0x46 \<and> e_ident header ! 4 = 2 \<and> e_version header = 1 \<and>
            e_ehsize header = sizeof_Elf_Ehdr \<and> e_phentsize header = sizeof_Elf_Phdr \<and> e_type header = 4)"

section \<open>Input\<close>

text \<open>
  What \<^verbatim>\<open>read\<close> answers: bytes (none at the end of the stream), an interruption, or another
  error with its text. The truth value says whether a buffer is passed.
\<close>

datatype read_result = Got "byte list" | Read_EINTR | Read_Failed string

record 'r sTicosCoreElfReadIO =
  io_read :: "'r \<Rightarrow> bool \<Rightarrow> nat \<Rightarrow> read_result \<times> 'r"

datatype reader_action =
    prv_action_read_elf_header
  | prv_action_skip_to_segment_headers
  | prv_action_prepare_segment_headers
  | prv_action_read_segment_headers
  | prv_action_done

text \<open>\<open>r_owner\<close> is the object the reader is embedded in and the handler finds through the reader.\<close>

record ('r, 'h) sTicosCoreElfReader =
  r_io :: 'r
  action :: "reader_action option"
  stream_pos :: nat
  elf_header :: Elf_Ehdr
  r_segments :: "Elf_Phdr list option"
  r_owner :: 'h

record ('r, 'h) sTicosCoreElfReaderHandler =
  handle_elf_header :: "Elf_Ehdr \<Rightarrow> ('r, 'h) sTicosCoreElfReader \<Rightarrow> ('r, 'h) sTicosCoreElfReader option"
  handle_segments :: "Elf_Phdr list \<Rightarrow> ('r, 'h) sTicosCoreElfReader \<Rightarrow> ('r, 'h) sTicosCoreElfReader option"
  handle_warning :: "string option \<Rightarrow> ('r, 'h) sTicosCoreElfReader \<Rightarrow> ('r, 'h) sTicosCoreElfReader option"
  handle_done :: "('r, 'h) sTicosCoreElfReader \<Rightarrow> ('r, 'h) sTicosCoreElfReader option"

text \<open>The parts a reader works with; \<open>alloc\<close> is whether an allocation of a number of bytes succeeds.\<close>

record ('r, 'h) reader_env =
  rd_io :: "'r sTicosCoreElfReadIO"
  rd_handler :: "('r, 'h) sTicosCoreElfReaderHandler"
  alloc :: "nat \<Rightarrow> bool"

definition c_strdup :: "(nat \<Rightarrow> bool) \<Rightarrow> string \<Rightarrow> string option" where
  "c_strdup al s = (if al (length s + 1) then Some s else None)"

definition warn ::
  "('r, 'h) reader_env \<Rightarrow> string \<Rightarrow> ('r, 'h) sTicosCoreElfReader \<Rightarrow> ('r, 'h) sTicosCoreElfReader option" where
  "warn env msg r = handle_warning (rd_handler env) (c_strdup (alloc env) msg) r"

section \<open>Operations\<close>

definition ticos_core_elf_reader_init :: "'r \<Rightarrow> 'h \<Rightarrow> ('r, 'h) sTicosCoreElfReader" where
  "ticos_core_elf_reader_init io owner =
     \<lparr>r_io = io, action = None, stream_pos = 0, elf_header = ehdr_of (replicate 64 0), r_segments = None,
      r_owner = owner\<rparr>"

definition action_done ::
  "('r, 'h) reader_env \<Rightarrow> ('r, 'h) sTicosCoreElfReader \<Rightarrow> ('r, 'h) sTicosCoreElfReader option" where
  "action_done env r = do {
     r \<leftarrow> handle_done (rd_handler env) r;
     Some (r\<lparr>action := None\<rparr>)
   }"

partial_function (option) read_loop ::
  "('r, 'h) reader_env \<Rightarrow> bool \<Rightarrow> nat \<Rightarrow> byte list \<Rightarrow> ('r, 'h) sTicosCoreElfReader \<Rightarrow>
   (byte list \<times> ('r, 'h) sTicosCoreElfReader) option" where
  "read_loop env buffer size_remaining got r =
     (if size_remaining = 0 then Some (got, r)
      else
        (case io_read (rd_io env) (r_io r) buffer size_remaining of
           (res, io) \<Rightarrow>
             (let r = r\<lparr>r_io := io\<rparr> in
              case res of
                Read_EINTR \<Rightarrow> read_loop env buffer size_remaining got r
              | Read_Failed e \<Rightarrow> do { r \<leftarrow> warn env (''read() failure: '' @ e) r; Some (got, r) }
              | Got bs \<Rightarrow>
                  if size_remaining < length bs then None
                  else
                    (let r = r\<lparr>stream_pos := u64_of (stream_pos r + length bs)\<rparr> in
                     if bs = [] then Some (got, r)
                     else read_loop env buffer (size_remaining - length bs) (got @ bs) r))))"

declare read_loop.simps [code]

definition prv_read_all ::
  "('r, 'h) reader_env \<Rightarrow> bool \<Rightarrow> nat \<Rightarrow> ('r, 'h) sTicosCoreElfReader \<Rightarrow>
   (byte list \<times> ('r, 'h) sTicosCoreElfReader) option" where
  "prv_read_all env buffer sz r = read_loop env buffer sz [] r"

definition action_read_segment_headers ::
  "('r, 'h) reader_env \<Rightarrow> ('r, 'h) sTicosCoreElfReader \<Rightarrow> ('r, 'h) sTicosCoreElfReader option" where
  "action_read_segment_headers env r = do {
     let total_segments_size = e_phnum (elf_header r) * sizeof_Elf_Phdr;
     (bs, r) \<leftarrow> prv_read_all env True total_segments_size r;
     r \<leftarrow> (if length bs = total_segments_size then
             let segs = phdrs_of (e_phnum (elf_header r)) bs in
             handle_segments (rd_handler env) segs (r\<lparr>r_segments := map_option (\<lambda>_. segs) (r_segments r)\<rparr>)
           else warn env ''Unexpected short read while reading segment headers'' r);
     Some (r\<lparr>action := Some prv_action_done\<rparr>)
   }"

definition action_prepare_segment_headers ::
  "('r, 'h) reader_env \<Rightarrow> ('r, 'h) sTicosCoreElfReader \<Rightarrow> ('r, 'h) sTicosCoreElfReader option" where
  "action_prepare_segment_headers env r =
     (if r_segments r \<noteq> None then None
      else
        let total_segments_size = e_phnum (elf_header r) * sizeof_Elf_Phdr in
        if total_segments_size > 0 \<and> \<not> alloc env total_segments_size then do {
          r \<leftarrow> warn env (''Not enough memory for '' @ show_nat (e_phnum (elf_header r)) @ '' segment headers'') r;
          Some (r\<lparr>action := Some prv_action_done\<rparr>)
        }
        else Some (r\<lparr>r_segments := (if total_segments_size > 0 then Some [] else None),
                     action := Some prv_action_read_segment_headers\<rparr>))"

definition action_skip_to_segment_headers ::
  "('r, 'h) reader_env \<Rightarrow> ('r, 'h) sTicosCoreElfReader \<Rightarrow> ('r, 'h) sTicosCoreElfReader option" where
  "action_skip_to_segment_headers env r =
     (if e_phoff (elf_header r) < stream_pos r then None
      else do {
        let skip_size = e_phoff (elf_header r) - stream_pos r;
        (bs, r) \<leftarrow> prv_read_all env False skip_size r;
        if length bs < skip_size then do {
          r \<leftarrow> warn env ''Unexpected short read while skipping'' r;
          Some (r\<lparr>action := Some prv_action_done\<rparr>)
        }
        else Some (r\<lparr>action := Some prv_action_prepare_segment_headers\<rparr>)
      })"

definition action_read_elf_header ::
  "('r, 'h) reader_env \<Rightarrow> ('r, 'h) sTicosCoreElfReader \<Rightarrow> ('r, 'h) sTicosCoreElfReader option" where
  "action_read_elf_header env r = do {
     (bs, r) \<leftarrow> prv_read_all env True sizeof_Elf_Ehdr r;
     if length bs < sizeof_Elf_Ehdr then do {
       r \<leftarrow> warn env ''Unexpected short read while reading ELF header'' r;
       Some (r\<lparr>action := Some prv_action_done\<rparr>)
     }
     else
       let r = r\<lparr>elf_header := ehdr_of bs\<rparr> in
       if \<not> ticos_core_elf_reader_is_valid_core_elf (Some bs) then do {
         r \<leftarrow> warn env ''Not an ELF coredump'' r;
         Some (r\<lparr>action := Some prv_action_done\<rparr>)
       }
       else do {
         r \<leftarrow> handle_elf_header (rd_handler env) (elf_header r) r;
         if e_phoff (elf_header r) = stream_pos r then
           Some (r\<lparr>action := Some prv_action_prepare_segment_headers\<rparr>)
         else if e_phoff (elf_header r) > stream_pos r then do {
           r \<leftarrow> warn env ''Ignoring data between header and segment table'' r;
           Some (r\<lparr>action := Some prv_action_skip_to_segment_headers\<rparr>)
         }
         else do {
           r \<leftarrow> warn env ''Unexpected segment table offset'' r;
           Some (r\<lparr>action := Some prv_action_done\<rparr>)
         }
       }
   }"

fun run_action ::
  "('r, 'h) reader_env \<Rightarrow> reader_action \<Rightarrow> ('r, 'h) sTicosCoreElfReader \<Rightarrow> ('r, 'h) sTicosCoreElfReader option" where
  "run_action env prv_action_read_elf_header r = action_read_elf_header env r"
| "run_action env prv_action_skip_to_segment_headers r = action_skip_to_segment_headers env r"
| "run_action env prv_action_prepare_segment_headers r = action_prepare_segment_headers env r"
| "run_action env prv_action_read_segment_headers r = action_read_segment_headers env r"
| "run_action env prv_action_done r = action_done env r"

partial_function (option) run_actions ::
  "('r, 'h) reader_env \<Rightarrow> ('r, 'h) sTicosCoreElfReader \<Rightarrow> ('r, 'h) sTicosCoreElfReader option" where
  "run_actions env r =
     (case action r of
        None \<Rightarrow> Some r
      | Some a \<Rightarrow> do { r \<leftarrow> run_action env a r; run_actions env r })"

declare run_actions.simps [code]

definition ticos_core_elf_reader_read_all ::
  "('r, 'h) reader_env \<Rightarrow> ('r, 'h) sTicosCoreElfReader \<Rightarrow> (bool \<times> ('r, 'h) sTicosCoreElfReader) option" where
  "ticos_core_elf_reader_read_all env r =
     (if action r \<noteq> None then Some (False, r)
      else do {
        r \<leftarrow> run_actions env (r\<lparr>action := Some prv_action_read_elf_header\<rparr>);
        Some (True, r)
      })"

definition ticos_core_elf_reader_read_segment_data ::
  "('r, 'h) reader_env \<Rightarrow> nat \<Rightarrow> nat \<Rightarrow> ('r, 'h) sTicosCoreElfReader \<Rightarrow>
   (byte list \<times> ('r, 'h) sTicosCoreElfReader) option" where
  "ticos_core_elf_reader_read_segment_data env at_pos buffer_size r =
     (if action r \<noteq> Some prv_action_read_segment_headers then None
      else if at_pos < stream_pos r then Some ([], r)
      else do {
        let skip_size = at_pos - stream_pos r;
        (skipped, r) \<leftarrow> (if skip_size > 0 then prv_read_all env False skip_size r else Some ([], r));
        if length skipped < skip_size then Some ([], r)
        else prv_read_all env True buffer_size r
      })"

section \<open>Reading from a file\<close>

text \<open>
  The bytes that are still to come and how the system answers the coming calls: it gives at most so many
  bytes (at least one if any are left), is interrupted or fails; everything that was asked for once the
  answers run out. Reading bytes without a buffer to store them fails.
\<close>

datatype read_answer = Give nat | Interrupt | Fail string

record sTicosCoreElfReadFileIO =
  rf_left :: "byte list"
  rf_answers :: "read_answer list"

definition give :: "bool \<Rightarrow> nat \<Rightarrow> sTicosCoreElfReadFileIO \<Rightarrow> read_result \<times> sTicosCoreElfReadFileIO" where
  "give buffer n fio =
     (if \<not> buffer \<and> take n (rf_left fio) \<noteq> [] then (Read_Failed ''Bad address'', fio)
      else (Got (take n (rf_left fio)), fio\<lparr>rf_left := drop n (rf_left fio)\<rparr>))"

definition prv_fio_read :: "sTicosCoreElfReadFileIO \<Rightarrow> bool \<Rightarrow> nat \<Rightarrow> read_result \<times> sTicosCoreElfReadFileIO" where
  "prv_fio_read fio buffer sz =
     (case rf_answers fio of
        [] \<Rightarrow> give buffer sz fio
      | Give n # as \<Rightarrow> give buffer (min sz (max 1 n)) (fio\<lparr>rf_answers := as\<rparr>)
      | Interrupt # as \<Rightarrow> (Read_EINTR, fio\<lparr>rf_answers := as\<rparr>)
      | Fail e # as \<Rightarrow> (Read_Failed e, fio\<lparr>rf_answers := as\<rparr>))"

definition file_read_io :: "sTicosCoreElfReadFileIO sTicosCoreElfReadIO" where
  "file_read_io = \<lparr>io_read = prv_fio_read\<rparr>"

definition ticos_core_elf_read_file_io_init :: "byte list \<Rightarrow> read_answer list \<Rightarrow> sTicosCoreElfReadFileIO" where
  "ticos_core_elf_read_file_io_init bytes answers = \<lparr>rf_left = bytes, rf_answers = answers\<rparr>"

section \<open>The contract of an input\<close>

text \<open>
  What a reader relies on: a call with a buffer delivers the next bytes, some of them unless none are left,
  or is interrupted; \<open>patience\<close> bounds the number of interruptions still to come.
\<close>

locale elf_source =
  fixes rio :: "'r sTicosCoreElfReadIO"
    and live :: "'r \<Rightarrow> bool"
    and pending :: "'r \<Rightarrow> byte list"
    and patience :: "'r \<Rightarrow> nat"
  assumes read_law: "live io \<Longrightarrow> 0 < n \<Longrightarrow> io_read rio io True n = (res, io') \<Longrightarrow>
      live io' \<and> patience io' \<le> patience io \<and>
      (case res of
         Got bs \<Rightarrow> pending io = bs @ pending io' \<and> length bs \<le> n \<and> (bs = [] \<longrightarrow> pending io = [])
       | Read_EINTR \<Rightarrow> pending io' = pending io \<and> patience io' < patience io
       | Read_Failed e \<Rightarrow> False)"
begin

lemma read_loop_delivers:
  assumes "live (r_io r)" and "rd_io env = rio" and "stream_pos r + length (pending (r_io r)) < 2 ^ 64"
  shows "\<exists>io. read_loop env True n got r =
      Some (got @ take n (pending (r_io r)),
            r\<lparr>r_io := io, stream_pos := stream_pos r + length (take n (pending (r_io r)))\<rparr>) \<and>
    live io \<and> pending io = drop n (pending (r_io r))"
  using assms
proof (induction "patience (r_io r) + n" arbitrary: n got r rule: less_induct)
  case less
  show ?case
  proof (cases "n = 0")
    case True
    then show ?thesis using less.prems by (subst read_loop.simps) (auto intro!: exI [of _ "r_io r"])
  next
    case False
    obtain res io where rd: "io_read rio (r_io r) True n = (res, io)" by fastforce
    note law = read_law [OF less.prems(1) _ rd]
    show ?thesis
    proof (cases res)
      case (Got bs)
      with law False have l: "live io" "patience io \<le> patience (r_io r)" "pending (r_io r) = bs @ pending io"
        "length bs \<le> n" "bs = [] \<longrightarrow> pending (r_io r) = []" by auto
      have u: "u64_of (stream_pos r + length bs) = stream_pos r + length bs"
        using less.prems(3) l(3) by (simp add: u64_of_id)
      show ?thesis
      proof (cases "bs = []")
        case True
        with l Got rd False less.prems u show ?thesis
          by (subst read_loop.simps) (auto intro!: exI [of _ io])
      next
        case bs: False
        let ?r = "r\<lparr>r_io := io, stream_pos := stream_pos r + length bs\<rparr>"
        have lt: "patience (r_io ?r) + (n - length bs) < patience (r_io r) + n"
          using l(2,4) bs by (cases bs) simp_all
        have pre: "live (r_io ?r)" "stream_pos ?r + length (pending (r_io ?r)) < 2 ^ 64"
          using l less.prems(3) by simp_all
        from less.hyps [OF lt pre(1) less.prems(2) pre(2), of "got @ bs"] rd Got False l bs u less.prems(2) show ?thesis
          by (subst read_loop.simps) (fastforce simp: Let_def add.assoc)
      qed
    next
      case Read_EINTR
      with law False have l: "live io" "patience io < patience (r_io r)" "pending io = pending (r_io r)" by auto
      have lt: "patience (r_io (r\<lparr>r_io := io\<rparr>)) + n < patience (r_io r) + n" using l(2) by simp
      from less.hyps [OF lt, of got] l rd Read_EINTR False less.prems show ?thesis
        by (subst read_loop.simps) (simp add: Let_def)
    next
      case (Read_Failed e)
      with law False show ?thesis by simp
    qed
  qed
qed

lemma read_all_delivers:
  assumes "live (r_io r)" and "rd_io env = rio" and "stream_pos r + length (pending (r_io r)) < 2 ^ 64"
  obtains io where "prv_read_all env True n r =
      Some (take n (pending (r_io r)),
            r\<lparr>r_io := io, stream_pos := stream_pos r + length (take n (pending (r_io r)))\<rparr>)"
    "live io" "pending io = drop n (pending (r_io r))"
  using read_loop_delivers [OF assms, of n "[]"] by (auto simp: prv_read_all_def)

end

section \<open>Files meet the contract\<close>

definition no_failure :: "sTicosCoreElfReadFileIO \<Rightarrow> bool" where
  "no_failure fio \<longleftrightarrow> (\<forall>a \<in> set (rf_answers fio). \<forall>e. a \<noteq> Fail e)"

lemma give_law:
  assumes "give True n fio = (res, fio')"
  obtains "res = Got (take n (rf_left fio))" "rf_left fio' = drop n (rf_left fio)" "rf_answers fio' = rf_answers fio"
  using assms by (auto simp: give_def)

interpretation file_source: elf_source file_read_io no_failure rf_left "\<lambda>fio. length (rf_answers fio)"
proof
  fix io n res io'
  assume ok: "no_failure io" and n: "0 < n" and rd: "io_read file_read_io io True n = (res, io')"
  show "no_failure io' \<and> length (rf_answers io') \<le> length (rf_answers io) \<and>
      (case res of
         Got bs \<Rightarrow> rf_left io = bs @ rf_left io' \<and> length bs \<le> n \<and> (bs = [] \<longrightarrow> rf_left io = [])
       | Read_EINTR \<Rightarrow> rf_left io' = rf_left io \<and> length (rf_answers io') < length (rf_answers io)
       | Read_Failed e \<Rightarrow> False)"
  proof (cases "rf_answers io")
    case Nil
    with rd have "give True n io = (res, io')" by (simp add: file_read_io_def prv_fio_read_def)
    with ok n Nil show ?thesis by (auto elim!: give_law simp: no_failure_def)
  next
    case (Cons a as)
    show ?thesis
    proof (cases a)
      case (Give k)
      with rd Cons have "give True (min n (max 1 k)) (io\<lparr>rf_answers := as\<rparr>) = (res, io')"
        by (simp add: file_read_io_def prv_fio_read_def)
      with ok n Cons show ?thesis by (auto elim!: give_law simp: no_failure_def)
    next
      case Interrupt
      with rd Cons ok show ?thesis by (auto simp: file_read_io_def prv_fio_read_def no_failure_def)
    next
      case (Fail e)
      with ok Cons show ?thesis by (simp add: no_failure_def)
    qed
  qed
qed

section \<open>Headers that are written are read back\<close>

definition ehdr_ok :: "Elf_Ehdr \<Rightarrow> bool" where
  "ehdr_ok h \<longleftrightarrow> length (e_ident h) = 16 \<and> e_type h < 2 ^ 16 \<and> e_machine h < 2 ^ 16 \<and> e_version h < 2 ^ 32 \<and>
     e_entry h < 2 ^ 64 \<and> e_phoff h < 2 ^ 64 \<and> e_shoff h < 2 ^ 64 \<and> e_flags h < 2 ^ 32 \<and> e_ehsize h < 2 ^ 16 \<and>
     e_phentsize h < 2 ^ 16 \<and> e_phnum h < 2 ^ 16 \<and> e_shentsize h < 2 ^ 16 \<and> e_shnum h < 2 ^ 16 \<and> e_shstrndx h < 2 ^ 16"

definition phdr_ok :: "Elf_Phdr \<Rightarrow> bool" where
  "phdr_ok h \<longleftrightarrow> p_type h < 2 ^ 32 \<and> p_flags h < 2 ^ 32 \<and> p_offset h < 2 ^ 64 \<and> p_vaddr h < 2 ^ 64 \<and>
     p_paddr h < 2 ^ 64 \<and> p_filesz h < 2 ^ 64 \<and> p_memsz h < 2 ^ 64 \<and> p_align h < 2 ^ 64"

lemma field_here: "field (nat_le n x @ rest) 0 n = x mod 256 ^ n"
  by (simp add: field_def le_nat_nat_le)

lemma field_there: "length bs \<le> off \<Longrightarrow> field (bs @ rest) off n = field rest (off - length bs) n"
  by (simp add: field_def)

lemmas field_simps' = field_here field_there field_here [of _ _ "[]", simplified]

lemma ehdr_of_fields:
  "e_version (ehdr_of (ehdr_bytes h)) = e_version h mod 2 ^ 32" "e_ehsize (ehdr_of (ehdr_bytes h)) = e_ehsize h mod 2 ^ 16"
  "e_type (ehdr_of (ehdr_bytes h)) = e_type h mod 2 ^ 16" "e_phentsize (ehdr_of (ehdr_bytes h)) = e_phentsize h mod 2 ^ 16"
  by (simp_all add: ehdr_of_def ehdr_bytes_def field_simps')

lemma ehdr_of_bytes: "ehdr_ok h \<Longrightarrow> ehdr_of (ehdr_bytes h) = h"
  by (cases h) (simp add: ehdr_ok_def ehdr_of_def ehdr_bytes_def field_simps')

lemma phdr_of_bytes: "phdr_ok h \<Longrightarrow> phdr_of (phdr_bytes h) = h"
  by (cases h) (simp add: phdr_ok_def phdr_of_def phdr_bytes_def field_simps')

lemma phdrs_of_bytes:
  "\<forall>h \<in> set hs. phdr_ok h \<Longrightarrow> phdrs_of (length hs) (concat (map phdr_bytes hs)) = hs"
  by (induction hs) (simp_all add: phdr_of_bytes)

text \<open>
  C34. The reader accepts the ELF header that the writer produces exactly when the core has a segment: with
  none, the writer leaves the size of a table entry 0 and the reader rejects the file.
\<close>

theorem reader_accepts_writer:
  "ticos_core_elf_reader_is_valid_core_elf (Some (ehdr_bytes (writer_header n w))) \<longleftrightarrow> 0 < n"
proof -
  let ?bs = "ehdr_bytes (writer_header n w)"
  have "take 7 (e_ident (ehdr_of ?bs)) = [0x7f, 0x45, 0x4c, 0x46, 2, 1, 1]"
    by (simp add: ehdr_of_def ehdr_bytes_def writer_header_def)
  then have "\<forall>i<7. e_ident (ehdr_of ?bs) ! i = [0x7f, 0x45, 0x4c, 0x46, 2, 1, 1] ! i" by (metis nth_take)
  then have i: "e_ident (ehdr_of ?bs) ! 0 = 0x7f" "e_ident (ehdr_of ?bs) ! 1 = 0x45" "e_ident (ehdr_of ?bs) ! 2 = 0x4c"
      "e_ident (ehdr_of ?bs) ! 3 = 0x46" "e_ident (ehdr_of ?bs) ! 4 = 2" by simp_all
  have f: "e_version (ehdr_of ?bs) = 1" "e_ehsize (ehdr_of ?bs) = sizeof_Elf_Ehdr" "e_type (ehdr_of ?bs) = 4"
      "e_phentsize (ehdr_of ?bs) = (if n > 0 then sizeof_Elf_Phdr else 0)"
    by (simp_all add: ehdr_of_fields writer_header_def sizeof_Elf_Ehdr_def sizeof_Elf_Phdr_def)
  show ?thesis
    by (simp add: ticos_core_elf_reader_is_valid_core_elf_def Let_def i [simplified] f sizeof_Elf_Phdr_def)
qed

section \<open>Runs of the reader\<close>

text \<open>How far an action is from the end: every action leads to one that is closer.\<close>

lemma run_actions_None: "action r = None \<Longrightarrow> run_actions env r = Some r"
  by (subst run_actions.simps) simp

lemma run_actions_Some: "action r = Some a \<Longrightarrow> run_actions env r = run_action env a r \<bind> run_actions env"
  by (subst run_actions.simps) simp

text \<open>The reader when it passes the segment table to its handler.\<close>

definition at_segments ::
  "'r \<Rightarrow> Elf_Ehdr \<Rightarrow> Elf_Phdr list \<Rightarrow> 'h \<Rightarrow> ('r, 'h) sTicosCoreElfReader" where
  "at_segments io h hs owner =
     \<lparr>r_io = io, action = Some prv_action_read_segment_headers,
      stream_pos = sizeof_Elf_Ehdr + sizeof_Elf_Phdr * length hs, elf_header = h,
      r_segments = (if hs = [] then None else Some hs), r_owner = owner\<rparr>"

lemma reader_run:
  assumes "ehdr_ok h" and "\<forall>p \<in> set hs. phdr_ok p" and "ticos_core_elf_reader_is_valid_core_elf (Some (ehdr_bytes h))"
    and "e_phoff h = sizeof_Elf_Ehdr" and "e_phnum h = length hs"
    and "rd_io env = file_read_io" and "\<forall>n. alloc env n"
    and "handle_elf_header (rd_handler env) = (\<lambda>h r. Some (r\<lparr>r_owner := f h (r_owner r)\<rparr>))"
    and "\<forall>a \<in> set answers. \<forall>e. a \<noteq> Fail e" and "length rest < 2 ^ 63"
  shows "\<exists>io. ticos_core_elf_reader_read_all env
      (ticos_core_elf_reader_init
        (ticos_core_elf_read_file_io_init (ehdr_bytes h @ concat (map phdr_bytes hs) @ rest) answers) owner) =
      do { r \<leftarrow> handle_segments (rd_handler env) hs (at_segments io h hs (f h owner));
           r \<leftarrow> handle_done (rd_handler env) (r\<lparr>action := Some prv_action_done\<rparr>);
           Some (True, r\<lparr>action := None\<rparr>) } \<and>
    no_failure io \<and> rf_left io = rest"
proof -
  let ?tab = "concat (map phdr_bytes hs)" and ?n = "sizeof_Elf_Phdr * length hs"
  define r0 where "r0 = (ticos_core_elf_reader_init
    (ticos_core_elf_read_file_io_init (ehdr_bytes h @ ?tab @ rest) answers) owner)\<lparr>action := Some prv_action_read_elf_header\<rparr>"
  have hs: "length hs < 2 ^ 16" using assms(1,5) by (simp add: ehdr_ok_def)
  have r0: "no_failure (r_io r0)" "rf_left (r_io r0) = ehdr_bytes h @ ?tab @ rest" "stream_pos r0 = 0"
    using assms(9) by (simp_all add: r0_def ticos_core_elf_reader_init_def ticos_core_elf_read_file_io_init_def no_failure_def)
  have fits: "stream_pos r0 + length (rf_left (r_io r0)) < 2 ^ 64"
    using hs assms(10) r0 length_table [of hs] by (simp add: sizeof_Elf_Ehdr_def sizeof_Elf_Phdr_def)
  obtain io1 where rd1: "prv_read_all env True sizeof_Elf_Ehdr r0 =
      Some (ehdr_bytes h, r0\<lparr>r_io := io1, stream_pos := sizeof_Elf_Ehdr\<rparr>)"
    "no_failure io1" "rf_left io1 = ?tab @ rest"
    using file_source.read_all_delivers [OF r0(1) assms(6) fits, of sizeof_Elf_Ehdr] r0(2,3) by auto
  define r1 where "r1 = r0\<lparr>r_io := io1, stream_pos := sizeof_Elf_Ehdr, elf_header := h, r_owner := f h owner,
    r_segments := (if hs = [] then None else Some []), action := Some prv_action_read_segment_headers\<rparr>"
  have a1: "run_action env prv_action_read_elf_header r0 =
      Some (r0\<lparr>r_io := io1, stream_pos := sizeof_Elf_Ehdr, elf_header := h, r_owner := f h owner,
               action := Some prv_action_prepare_segment_headers\<rparr>)"
    using rd1(1) assms(3,4) ehdr_of_bytes [OF assms(1)]
    by (simp add: action_read_elf_header_def assms(8) r0_def ticos_core_elf_reader_init_def)
  have a2: "run_action env prv_action_prepare_segment_headers
      (r0\<lparr>r_io := io1, stream_pos := sizeof_Elf_Ehdr, elf_header := h, r_owner := f h owner,
          action := Some prv_action_prepare_segment_headers\<rparr>) = Some r1"
    using assms(5,7)
    by (auto simp: action_prepare_segment_headers_def r0_def r1_def ticos_core_elf_reader_init_def sizeof_Elf_Phdr_def)
  have f1: "no_failure (r_io r1)" "stream_pos r1 + length (rf_left (r_io r1)) < 2 ^ 64"
    using rd1(2,3) hs assms(10) length_table [of hs] by (simp_all add: r1_def sizeof_Elf_Ehdr_def sizeof_Elf_Phdr_def)
  obtain io2 where rd2: "prv_read_all env True ?n r1 =
      Some (?tab, r1\<lparr>r_io := io2, stream_pos := sizeof_Elf_Ehdr + ?n\<rparr>)" "no_failure io2" "rf_left io2 = rest"
    using file_source.read_all_delivers [OF f1(1) assms(6) f1(2), of ?n] rd1(3) length_table [of hs] by (auto simp: r1_def)
  have "r1\<lparr>r_io := io2, stream_pos := sizeof_Elf_Ehdr + ?n, r_segments := map_option (\<lambda>_. hs) (r_segments r1)\<rparr> =
      at_segments io2 h hs (f h owner)"
    by (auto simp: r1_def r0_def ticos_core_elf_reader_init_def at_segments_def)
  then have a3: "run_action env prv_action_read_segment_headers r1 =
      do { r \<leftarrow> handle_segments (rd_handler env) hs (at_segments io2 h hs (f h owner)); Some (r\<lparr>action := Some prv_action_done\<rparr>) }"
    using rd2(1) assms(5) phdrs_of_bytes [OF assms(2)] length_table [of hs]
    by (simp add: action_read_segment_headers_def r1_def mult.commute)
  have "action r0 = Some prv_action_read_elf_header" by (simp add: r0_def)
  then have "run_actions env r0 = run_actions env r1" by (simp add: run_actions_Some a1 [simplified] a2 [simplified])
  also have "\<dots> = do { r \<leftarrow> handle_segments (rd_handler env) hs (at_segments io2 h hs (f h owner));
      run_actions env (r\<lparr>action := Some prv_action_done\<rparr>) }"
    using run_actions_Some [of r1 prv_action_read_segment_headers env] a3 by (simp add: r1_def bind_assoc)
  finally have "ticos_core_elf_reader_read_all env
      (ticos_core_elf_reader_init (ticos_core_elf_read_file_io_init (ehdr_bytes h @ ?tab @ rest) answers) owner) =
      do { r \<leftarrow> handle_segments (rd_handler env) hs (at_segments io2 h hs (f h owner));
           r \<leftarrow> handle_done (rd_handler env) (r\<lparr>action := Some prv_action_done\<rparr>);
           Some (True, r\<lparr>action := None\<rparr>) }"
    unfolding r0_def
    by (simp add: ticos_core_elf_reader_read_all_def ticos_core_elf_reader_init_def bind_assoc
        run_actions_Some action_done_def run_actions_None)
  with rd2(2,3) show ?thesis by blast
qed

text \<open>
  C16. On a file that starts with a valid ELF header directly followed by its segment table the reader calls
  its handler with exactly that header and that table, with the stream positioned right after the
  table, and then once to say it is done, however the system divides the reads and interrupts them.
\<close>

theorem reader_passes_table:
  assumes "ehdr_ok h" and "\<forall>p \<in> set hs. phdr_ok p" and "ticos_core_elf_reader_is_valid_core_elf (Some (ehdr_bytes h))"
    and "e_phoff h = sizeof_Elf_Ehdr" and "e_phnum h = length hs"
    and "rd_io env = file_read_io" and "\<forall>n. alloc env n"
    and "handle_elf_header (rd_handler env) = (\<lambda>h r. Some (r\<lparr>r_owner := f h (r_owner r)\<rparr>))"
    and "\<forall>a \<in> set answers. \<forall>e. a \<noteq> Fail e" and "length rest < 2 ^ 63"
  shows "\<exists>io. ticos_core_elf_reader_read_all env
      (ticos_core_elf_reader_init
        (ticos_core_elf_read_file_io_init (ehdr_bytes h @ concat (map phdr_bytes hs) @ rest) answers) owner) =
      do { r \<leftarrow> handle_segments (rd_handler env) hs (at_segments io h hs (f h owner));
           r \<leftarrow> handle_done (rd_handler env) (r\<lparr>action := Some prv_action_done\<rparr>);
           Some (True, r\<lparr>action := None\<rparr>) } \<and>
    no_failure io \<and> rf_left io = rest"
  using assms by (rule reader_run)

text \<open>A handler that keeps the segment table.\<close>

definition keep_table :: "(sTicosCoreElfReadFileIO, Elf_Phdr list) sTicosCoreElfReaderHandler" where
  "keep_table =
     \<lparr>handle_elf_header = \<lambda>h r. Some (r\<lparr>r_owner := r_owner r\<rparr>), handle_segments = \<lambda>hs r. Some (r\<lparr>r_owner := hs\<rparr>),
      handle_warning = \<lambda>msg r. Some r, handle_done = \<lambda>r. Some r\<rparr>"

definition keep_env :: "(sTicosCoreElfReadFileIO, Elf_Phdr list) reader_env" where
  "keep_env = \<lparr>rd_io = file_read_io, rd_handler = keep_table, alloc = \<lambda>_. True\<rparr>"

definition small_header :: Elf_Ehdr where
  "small_header = ehdr_of (ehdr_bytes (writer_header 1 sample_writer))"

lemma small_header_ok:
  "ehdr_ok small_header" "e_phoff small_header = sizeof_Elf_Ehdr" "e_phnum small_header = 1"
  "ticos_core_elf_reader_is_valid_core_elf (Some (ehdr_bytes small_header))" "phdr_ok (data_segment 5)"
  by code_simp+

theorem reader_passes_table_witness:
  "map_option (\<lambda>(ok, r). (ok, r_owner r)) (ticos_core_elf_reader_read_all keep_env
     (ticos_core_elf_reader_init
       (ticos_core_elf_read_file_io_init (ehdr_bytes small_header @ concat (map phdr_bytes [data_segment 5]) @ [1, 2])
         [Give 3, Interrupt, Give 0]) [])) = Some (True, [data_segment 5])"
proof -
  obtain io where "ticos_core_elf_reader_read_all keep_env
     (ticos_core_elf_reader_init
       (ticos_core_elf_read_file_io_init (ehdr_bytes small_header @ concat (map phdr_bytes [data_segment 5]) @ [1, 2])
         [Give 3, Interrupt, Give 0]) []) =
      do { r \<leftarrow> handle_segments (rd_handler keep_env) [data_segment 5] (at_segments io small_header [data_segment 5] []);
           r \<leftarrow> handle_done (rd_handler keep_env) (r\<lparr>action := Some prv_action_done\<rparr>);
           Some (True, r\<lparr>action := None\<rparr>) }"
    using reader_passes_table [of small_header "[data_segment 5]" keep_env "\<lambda>h owner. owner" "[Give 3, Interrupt, Give 0]" "[1, 2]" "[]"]
      small_header_ok
    by (auto simp: keep_env_def keep_table_def)
  then show ?thesis by (simp add: keep_env_def keep_table_def)
qed

text \<open>
  Skipping reads without a buffer, which the system refuses: segment data that does not start exactly at the
  current position of the file cannot be read. The reader reports the failed read and answers no bytes,
  although its description promises the data.
\<close>

theorem gap_cannot_be_skipped:
  assumes "rd_io env = file_read_io" and "action r = Some prv_action_read_segment_headers"
    and "stream_pos r < at_pos" and "rf_left (r_io r) \<noteq> []" and "rf_answers (r_io r) = []"
  shows "ticos_core_elf_reader_read_segment_data env at_pos n r =
    map_option (Pair []) (warn env ''read() failure: Bad address'' r)"
proof -
  let ?k = "at_pos - stream_pos r"
  have "io_read (rd_io env) (r_io r) False ?k = (Read_Failed ''Bad address'', r_io r)"
    using assms by (simp add: file_read_io_def prv_fio_read_def give_def)
  then have "prv_read_all env False ?k r = map_option (Pair []) (warn env ''read() failure: Bad address'' r)"
    using assms(3) unfolding prv_read_all_def
    by (subst read_loop.simps) (cases "warn env ''read() failure: Bad address'' r"; simp)
  with assms(2,3) show ?thesis
    by (cases "warn env ''read() failure: Bad address'' r") (simp_all add: ticos_core_elf_reader_read_segment_data_def Let_def)
qed

theorem gap_cannot_be_skipped_witness:
  "map_option fst (ticos_core_elf_reader_read_segment_data keep_env 5 2
     ((ticos_core_elf_reader_init (ticos_core_elf_read_file_io_init [1, 2, 3, 4, 5, 6, 7, 8] []) [])
       \<lparr>action := Some prv_action_read_segment_headers\<rparr>)) = Some []"
  using gap_cannot_be_skipped [of keep_env "(ticos_core_elf_reader_init (ticos_core_elf_read_file_io_init [1, 2, 3, 4, 5, 6, 7, 8] []) [])
       \<lparr>action := Some prv_action_read_segment_headers\<rparr>" 5 2]
  by (simp add: keep_env_def keep_table_def ticos_core_elf_reader_init_def ticos_core_elf_read_file_io_init_def warn_def
      c_strdup_def option.map_comp comp_def)

end
