(* ===== verification/Core_Elf_Transformer.thy ===== *)
theory Core_Elf_Transformer
  imports Core_Elf_Gzip Core_Elf_Reader
begin

text \<open>
  The transformer of core files (src/plugins/coredump/core_elf_transformer.c): the handler of the reader
  that copies notes, arranges for the memory of the process to be copied while the output is written,
  and adds the metadata note. \<open>None\<close> is undefined behaviour or a loop that does not return, as in
  the reader and the writer. Reading the memory of the process is a function \<open>copy_proc_mem\<close> of the
  address and the number of bytes that answers the bytes or an error.
\<close>

section \<open>Definitions\<close>

record 'w sTicosCoreElfTransformer =
  t_writer :: "'w sTicosCoreElfWriter"
  t_metadata :: sTicosCoreElfMetadata
  warnings :: "string list"
  next_warning_idx :: nat
  write_success :: bool

type_synonym 'w reader_of = "(sTicosCoreElfReadFileIO, 'w sTicosCoreElfTransformer) sTicosCoreElfReader"

definition WARNINGS_SIZE :: nat where "WARNINGS_SIZE = 16"
definition PROC_MEM_COPY_BUFFER_SIZE :: nat where "PROC_MEM_COPY_BUFFER_SIZE = 4 * 1024"
definition sizeof_writer_segment :: nat where "sizeof_writer_segment = 80"
definition PT_LOAD :: nat where "PT_LOAD = 1"
definition PT_NOTE :: nat where "PT_NOTE = 4"

definition prv_add_warning ::
  "string option \<Rightarrow> 'w sTicosCoreElfTransformer \<Rightarrow> 'w sTicosCoreElfTransformer option" where
  "prv_add_warning warning_msg t =
     (case warning_msg of
        None \<Rightarrow> Some t
      | Some msg \<Rightarrow>
          if next_warning_idx t > WARNINGS_SIZE then Some t
          else if next_warning_idx t \<ge> WARNINGS_SIZE then None
          else Some (t\<lparr>warnings := warnings t @ [msg], next_warning_idx := next_warning_idx t + 1\<rparr>))"

text \<open>An operation on the object a reader is embedded in.\<close>

definition on_owner :: "('h \<Rightarrow> 'h option) \<Rightarrow> ('r, 'h) sTicosCoreElfReader \<Rightarrow> ('r, 'h) sTicosCoreElfReader option" where
  "on_owner f r = do { t \<leftarrow> f (r_owner r); Some (r\<lparr>r_owner := t\<rparr>) }"

definition prv_handle_warning ::
  "string option \<Rightarrow> ('r, 'w sTicosCoreElfTransformer) sTicosCoreElfReader \<Rightarrow>
   ('r, 'w sTicosCoreElfTransformer) sTicosCoreElfReader option" where
  "prv_handle_warning msg r = on_owner (prv_add_warning msg) r"

definition prv_handle_elf_header ::
  "Elf_Ehdr \<Rightarrow> ('r, 'w sTicosCoreElfTransformer) sTicosCoreElfReader \<Rightarrow>
   ('r, 'w sTicosCoreElfTransformer) sTicosCoreElfReader option" where
  "prv_handle_elf_header h r =
     Some (r\<lparr>r_owner := (r_owner r)\<lparr>t_writer :=
       ticos_core_elf_writer_set_elf_header_fields (e_machine h) (e_flags h) (t_writer (r_owner r))\<rparr>\<rparr>)"

definition realloc_segments :: "(nat \<Rightarrow> bool) \<Rightarrow> nat \<Rightarrow> bool" where
  "realloc_segments al n = al (sizeof_writer_segment * n)"

definition prv_process_note_segment ::
  "('r, 'w sTicosCoreElfTransformer) reader_env \<Rightarrow> Elf_Phdr \<Rightarrow>
   ('r, 'w sTicosCoreElfTransformer) sTicosCoreElfReader \<Rightarrow>
   ('r, 'w sTicosCoreElfTransformer) sTicosCoreElfReader option" where
  "prv_process_note_segment env segment r =
     (let note_segment_buffer_size = p_filesz segment in
      if \<not> alloc env note_segment_buffer_size then
        on_owner (prv_add_warning (c_strdup (alloc env)
          (''Failed to allocate '' @ show_nat note_segment_buffer_size @ '' bytes for note buffer''))) r
      else do {
        (note_buffer, r) \<leftarrow> ticos_core_elf_reader_read_segment_data env (p_offset segment) (p_filesz segment) r;
        if length note_buffer \<noteq> p_filesz segment then
          on_owner (prv_add_warning (c_strdup (alloc env)
            (''Failed to read note at '' @ show_nat (p_offset segment) @ '' ('' @
             show_nat note_segment_buffer_size @ '' bytes)''))) r
        else do {
          (ok, w) \<leftarrow> ticos_core_elf_writer_add_segment_with_buffer (realloc_segments (alloc env)) segment note_buffer
            (t_writer (r_owner r));
          let r = r\<lparr>r_owner := (r_owner r)\<lparr>t_writer := w\<rparr>\<rparr>;
          if \<not> ok then on_owner (prv_add_warning (c_strdup (alloc env) ''Failed to add note to writer'')) r
          else Some r
        }
      })"

text \<open>The bytes that are copied for an address: placeholders when the memory cannot be read.\<close>

definition load_chunk :: "(nat \<Rightarrow> nat \<Rightarrow> byte list option) \<Rightarrow> nat \<Rightarrow> nat \<Rightarrow> byte list" where
  "load_chunk copy_proc_mem vaddr sz =
     (case copy_proc_mem vaddr sz of
        None \<Rightarrow> replicate sz 0xEF
      | Some bs \<Rightarrow> if bs = [] then replicate sz 0xEF else bs)"

lemma load_chunk_nonempty: "0 < sz \<Longrightarrow> 0 < length (load_chunk copy_proc_mem vaddr sz)"
  by (auto simp: load_chunk_def split: option.splits)

function load_loop ::
  "'w sTicosCoreElfWriteIO \<Rightarrow> (nat \<Rightarrow> nat \<Rightarrow> byte list option) \<Rightarrow> nat \<Rightarrow> nat \<Rightarrow> 'w elf_out \<Rightarrow>
   (bool \<times> 'w elf_out) option" where
  "load_loop ops copy_proc_mem vaddr bytes_remaining out =
     (if bytes_remaining = 0 then Some (True, out)
      else
        let sz = min bytes_remaining PROC_MEM_COPY_BUFFER_SIZE;
            buffer = load_chunk copy_proc_mem vaddr sz
        in if sz < length buffer then None
           else do {
             (ok, out) \<leftarrow> ticos_core_elf_writer_write_segment_data ops buffer out;
             if \<not> ok then Some (False, out)
             else load_loop ops copy_proc_mem (u64_of (vaddr + length buffer)) (bytes_remaining - length buffer) out
           })"
  by pat_completeness auto
termination
  by (relation "measure (\<lambda>(ops, c, v, n, out). n)")
    (auto simp: PROC_MEM_COPY_BUFFER_SIZE_def intro!: diff_less load_chunk_nonempty)

declare load_loop.simps [simp del]

definition prv_write_load_segment_data_cb ::
  "'w sTicosCoreElfWriteIO \<Rightarrow> (nat \<Rightarrow> nat \<Rightarrow> byte list option) \<Rightarrow> Elf_Phdr \<Rightarrow> 'w elf_out \<Rightarrow>
   (bool \<times> 'w elf_out) option" where
  "prv_write_load_segment_data_cb ops copy_proc_mem segment out =
     load_loop ops copy_proc_mem (p_vaddr segment) (p_filesz segment) out"

definition prv_process_load_segment ::
  "(nat \<Rightarrow> bool) \<Rightarrow> (nat \<Rightarrow> nat \<Rightarrow> byte list option) \<Rightarrow> Elf_Phdr \<Rightarrow> 'w sTicosCoreElfTransformer \<Rightarrow>
   (bool \<times> 'w sTicosCoreElfTransformer) option" where
  "prv_process_load_segment al copy_proc_mem segment_header t = do {
     (ok, w) \<leftarrow> ticos_core_elf_writer_add_segment_with_callback (realloc_segments al) segment_header
       (prv_write_load_segment_data_cb (w_ops (t_writer t)) copy_proc_mem) (t_writer t);
     Some (ok, t\<lparr>t_writer := w\<rparr>)
   }"

text \<open>\<open>malloc\<close> answers the bytes of a new object.\<close>

definition metadata_segment :: "nat \<Rightarrow> Elf_Phdr" where
  "metadata_segment note_buffer_size =
     \<lparr>p_type = PT_NOTE, p_flags = 0, p_offset = 0, p_vaddr = 0, p_paddr = 0, p_filesz = note_buffer_size,
      p_memsz = 0, p_align = 0\<rparr>"

definition prv_append_ticos_metadata_note ::
  "(nat \<Rightarrow> bool) \<Rightarrow> (nat \<Rightarrow> byte list) \<Rightarrow> 'w sTicosCoreElfTransformer \<Rightarrow> 'w sTicosCoreElfTransformer option" where
  "prv_append_ticos_metadata_note al malloc t =
     (let note_buffer_size = ticos_core_elf_metadata_note_calculate_size (t_metadata t) in
      if \<not> al note_buffer_size then Some t
      else do {
        (ok, note_buffer) \<leftarrow>
          ticos_core_elf_metadata_note_write (t_metadata t) (malloc note_buffer_size) note_buffer_size;
        if \<not> ok then Some t
        else do {
          (ok, w) \<leftarrow> ticos_core_elf_writer_add_segment_with_buffer (realloc_segments al)
            (metadata_segment note_buffer_size) note_buffer (t_writer t);
          Some (t\<lparr>t_writer := w\<rparr>)
        }
      })"

fun process_segments ::
  "('r, 'w sTicosCoreElfTransformer) reader_env \<Rightarrow> (nat \<Rightarrow> nat \<Rightarrow> byte list option) \<Rightarrow> Elf_Phdr list \<Rightarrow>
   ('r, 'w sTicosCoreElfTransformer) sTicosCoreElfReader \<Rightarrow>
   ('r, 'w sTicosCoreElfTransformer) sTicosCoreElfReader option" where
  "process_segments env copy_proc_mem [] r = Some r"
| "process_segments env copy_proc_mem (segment # segs) r = do {
     r \<leftarrow> (if p_type segment = PT_NOTE then prv_process_note_segment env segment r
           else if p_type segment = PT_LOAD then
             on_owner (\<lambda>t. map_option snd (prv_process_load_segment (alloc env) copy_proc_mem segment t)) r
           else on_owner (prv_add_warning (c_strdup (alloc env)
                  (''Unexpected segment type: '' @ show_nat (p_type segment)))) r);
     process_segments env copy_proc_mem segs r
   }"

definition prv_handle_segments ::
  "('r, 'w sTicosCoreElfTransformer) reader_env \<Rightarrow> (nat \<Rightarrow> nat \<Rightarrow> byte list option) \<Rightarrow> (nat \<Rightarrow> byte list) \<Rightarrow>
   Elf_Phdr list \<Rightarrow> ('r, 'w sTicosCoreElfTransformer) sTicosCoreElfReader \<Rightarrow>
   ('r, 'w sTicosCoreElfTransformer) sTicosCoreElfReader option" where
  "prv_handle_segments env copy_proc_mem malloc segs r = do {
     r \<leftarrow> process_segments env copy_proc_mem segs r;
     r \<leftarrow> on_owner (prv_append_ticos_metadata_note (alloc env) malloc) r;
     (ok, w) \<leftarrow> ticos_core_elf_writer_write (t_writer (r_owner r));
     Some (r\<lparr>r_owner := (r_owner r)\<lparr>t_writer := w, write_success := ok\<rparr>\<rparr>)
   }"

definition prv_free_warnings :: "'w sTicosCoreElfTransformer \<Rightarrow> 'w sTicosCoreElfTransformer" where
  "prv_free_warnings t = t\<lparr>warnings := drop (next_warning_idx t) (warnings t)\<rparr>"

definition prv_handle_done ::
  "('r, 'w sTicosCoreElfTransformer) sTicosCoreElfReader \<Rightarrow>
   ('r, 'w sTicosCoreElfTransformer) sTicosCoreElfReader option" where
  "prv_handle_done r =
     Some (r\<lparr>r_owner := prv_free_warnings ((r_owner r)\<lparr>t_writer :=
       snd (ticos_core_elf_writer_finalize (t_writer (r_owner r)))\<rparr>)\<rparr>)"

text \<open>
  The handler and the parts of the reader. The function that handles the segments reads from the same
  reader; it uses the handler only for warnings, which is why the knot can be tied in two steps.
\<close>

definition warning_handler :: "('r, 'w sTicosCoreElfTransformer) sTicosCoreElfReaderHandler" where
  "warning_handler =
     \<lparr>handle_elf_header = prv_handle_elf_header, handle_segments = (\<lambda>_ _. None),
      handle_warning = prv_handle_warning, handle_done = prv_handle_done\<rparr>"

definition transformer_env ::
  "'r sTicosCoreElfReadIO \<Rightarrow> (nat \<Rightarrow> bool) \<Rightarrow> (nat \<Rightarrow> byte list) \<Rightarrow> (nat \<Rightarrow> nat \<Rightarrow> byte list option) \<Rightarrow>
   ('r, 'w sTicosCoreElfTransformer) reader_env" where
  "transformer_env rio al malloc copy_proc_mem =
     (let env = \<lparr>rd_io = rio, rd_handler = warning_handler, alloc = al\<rparr> in
      env\<lparr>rd_handler := warning_handler\<lparr>handle_segments := prv_handle_segments env copy_proc_mem malloc\<rparr>\<rparr>)"

definition ticos_core_elf_transformer_init ::
  "'r \<Rightarrow> 'w sTicosCoreElfWriteIO \<Rightarrow> 'w \<Rightarrow> sTicosCoreElfMetadata \<Rightarrow>
   ('r, 'w sTicosCoreElfTransformer) sTicosCoreElfReader" where
  "ticos_core_elf_transformer_init reader_io ops writer_io metadata =
     ticos_core_elf_reader_init reader_io
       \<lparr>t_writer = ticos_core_elf_writer_init ops writer_io, t_metadata = metadata, warnings = [],
        next_warning_idx = 0, write_success = False\<rparr>"

definition ticos_core_elf_transformer_run ::
  "('r, 'w sTicosCoreElfTransformer) reader_env \<Rightarrow> ('r, 'w sTicosCoreElfTransformer) sTicosCoreElfReader \<Rightarrow>
   (bool \<times> ('r, 'w sTicosCoreElfTransformer) sTicosCoreElfReader) option" where
  "ticos_core_elf_transformer_run env r = do {
     (ok, r) \<leftarrow> ticos_core_elf_reader_read_all env r;
     Some (ok \<and> write_success (r_owner r), r)
   }"

section \<open>Memory through procfs\<close>

text \<open>\<open>open_file\<close> and \<open>pread\<close> are the system calls; a file descriptor is an \<open>int\<close>, -1 for none.\<close>

definition prv_copy_proc_mem ::
  "(int \<Rightarrow> nat \<Rightarrow> nat \<Rightarrow> byte list option) \<Rightarrow> int \<Rightarrow> nat \<Rightarrow> nat \<Rightarrow> byte list option" where
  "prv_copy_proc_mem pread fd vaddr sz = pread fd sz vaddr"

definition procfs_mem_path :: "int \<Rightarrow> string" where
  "procfs_mem_path pid = take 127 (''/proc/'' @ show_int pid @ ''/mem'')"

definition ticos_init_core_elf_transformer_procfs_handler :: "(string \<Rightarrow> int) \<Rightarrow> int \<Rightarrow> bool \<times> int" where
  "ticos_init_core_elf_transformer_procfs_handler open_file pid =
     (let fd = open_file (procfs_mem_path pid) in (fd \<noteq> - 1, fd))"

definition ticos_deinit_core_elf_transformer_procfs_handler :: "(int \<Rightarrow> bool) \<Rightarrow> int \<Rightarrow> bool" where
  "ticos_deinit_core_elf_transformer_procfs_handler close_ok fd = (if fd = - 1 then True else close_ok fd)"

section \<open>The image of a memory segment\<close>

text \<open>The data of a LOAD segment, chunk by chunk, for a source of memory that never answers too many bytes.\<close>

definition copies :: "(nat \<Rightarrow> byte option) \<Rightarrow> (nat \<Rightarrow> nat \<Rightarrow> byte list option) \<Rightarrow> bool" where
  "copies memory copy_proc_mem \<longleftrightarrow>
     (\<forall>v n bs. copy_proc_mem v n = Some bs \<longrightarrow> length bs \<le> n \<and> (\<forall>i<length bs. memory (v + i) = Some (bs ! i)))"

function load_image :: "(nat \<Rightarrow> nat \<Rightarrow> byte list option) \<Rightarrow> nat \<Rightarrow> nat \<Rightarrow> byte list" where
  "load_image copy_proc_mem vaddr n =
     (if n = 0 then []
      else
        let c = load_chunk copy_proc_mem vaddr (min n PROC_MEM_COPY_BUFFER_SIZE)
        in c @ load_image copy_proc_mem (u64_of (vaddr + length c)) (n - length c))"
  by pat_completeness auto
termination
  by (relation "measure (\<lambda>(c, v, n). n)")
    (auto simp: PROC_MEM_COPY_BUFFER_SIZE_def intro!: diff_less load_chunk_nonempty)

declare load_image.simps [simp del]

lemma load_chunk_bounded: "copies memory cp \<Longrightarrow> length (load_chunk cp v n) \<le> n"
  by (auto simp: load_chunk_def copies_def split: option.splits)

lemma chunk_size: "0 < n \<Longrightarrow> 0 < min n PROC_MEM_COPY_BUFFER_SIZE"
  by (simp add: PROC_MEM_COPY_BUFFER_SIZE_def)

lemma load_chunk_bytes:
  assumes "copies memory cp" and "i < length (load_chunk cp v n)"
  shows "load_chunk cp v n ! i = 0xEF \<or> memory (v + i) = Some (load_chunk cp v n ! i)"
proof (cases "cp v n")
  case (Some bs)
  with assms have "\<forall>i<length bs. memory (v + i) = Some (bs ! i)" by (simp add: copies_def)
  with Some assms(2) show ?thesis by (cases "bs = []") (auto simp: load_chunk_def)
qed (use assms(2) in \<open>simp add: load_chunk_def\<close>)

lemma length_load_image: "copies memory cp \<Longrightarrow> length (load_image cp v n) = n"
proof (induction cp v n rule: load_image.induct)
  case (1 cp v n)
  show ?case
  proof (cases "n = 0")
    case False
    let ?c = "load_chunk cp v (min n PROC_MEM_COPY_BUFFER_SIZE)"
    have "length ?c \<le> n" using load_chunk_bounded [OF 1(2), of v "min n PROC_MEM_COPY_BUFFER_SIZE"] by simp
    with 1 False show ?thesis by (subst load_image.simps) (simp add: Let_def)
  qed (simp add: load_image.simps)
qed

lemma load_image_bytes:
  assumes "copies memory cp" and "i < n" and "v + n < 2 ^ 64"
  shows "load_image cp v n ! i = 0xEF \<or> memory (v + i) = Some (load_image cp v n ! i)"
  using assms
proof (induction cp v n arbitrary: i rule: load_image.induct)
  case (1 cp v n)
  let ?c = "load_chunk cp v (min n PROC_MEM_COPY_BUFFER_SIZE)"
  have c: "length ?c \<le> n" using load_chunk_bounded [OF 1(2), of v "min n PROC_MEM_COPY_BUFFER_SIZE"] by simp
  then have u: "u64_of (v + length ?c) = v + length ?c" using 1(4) by (simp add: u64_of_id)
  have e: "load_image cp v n = ?c @ load_image cp (v + length ?c) (n - length ?c)"
    using 1(3) by (subst load_image.simps) (simp add: Let_def u)
  show ?case
  proof (cases "i < length ?c")
    case True
    with load_chunk_bytes [OF 1(2) True] e show ?thesis by (simp add: nth_append)
  next
    case False
    have "load_image cp (v + length ?c) (n - length ?c) ! (i - length ?c) = 0xEF \<or>
        memory (v + length ?c + (i - length ?c)) = Some (load_image cp (v + length ?c) (n - length ?c) ! (i - length ?c))"
      using 1(1) [OF _ refl, unfolded u, of "i - length ?c"] 1(2-4) c False by simp
    with e False show ?thesis by (simp add: nth_append)
  qed
qed

lemma u64_of_add: "u64_of (u64_of x + y) = u64_of (x + y)"
  by (simp add: u64_of_def mod_add_left_eq)

context elf_sink
begin

lemma segment_data_appends:
  assumes "ticos_core_elf_writer_write_segment_data ops data out = Some (True, out')" and "invar (out_io out)"
  shows "invar (out_io out') \<and> written out' = written out @ data \<and> write_offset out' = u64_of (write_offset out + length data)"
  using assms io_write_all_appends
  by (auto simp: ticos_core_elf_writer_write_segment_data_def prv_write_all_def split: bind_splits if_splits)

lemma load_loop_appends:
  assumes "load_loop ops cp v n out = Some (True, out')" and "copies memory cp" and "invar (out_io out)"
    and "write_offset out < 2 ^ 64"
  shows "invar (out_io out') \<and> written out' = written out @ load_image cp v n \<and> write_offset out' = u64_of (write_offset out + n)"
  using assms
proof (induction n arbitrary: v out rule: less_induct)
  case (less n)
  show ?case
  proof (cases "n = 0")
    case True
    with less.prems show ?thesis by (simp add: load_loop.simps load_image.simps u64_of_id)
  next
    case False
    define c where "c = load_chunk cp v (min n PROC_MEM_COPY_BUFFER_SIZE)"
    have c: "length c \<le> n" "0 < length c"
      using load_chunk_bounded [OF less.prems(2), of v "min n PROC_MEM_COPY_BUFFER_SIZE"]
        load_chunk_nonempty [OF chunk_size, of n] False by (simp_all add: c_def)
    from less.prems(1) False obtain out1 where o:
        "ticos_core_elf_writer_write_segment_data ops c out = Some (True, out1)"
        "load_loop ops cp (u64_of (v + length c)) (n - length c) out1 = Some (True, out')"
      by (subst (asm) load_loop.simps) (auto simp: Let_def c_def [symmetric] split: bind_splits if_splits)
    note a = segment_data_appends [OF o(1) less.prems(3)]
    have "write_offset out1 < 2 ^ 64" using a by (simp add: u64_of_def)
    moreover have "n - length c < n" using c False by (intro diff_less) simp_all
    ultimately have "invar (out_io out') \<and>
        written out' = written out @ c @ load_image cp (u64_of (v + length c)) (n - length c) \<and>
        write_offset out' = u64_of (u64_of (write_offset out + length c) + (n - length c))"
      using less.IH [OF _ o(2) less.prems(2)] a by simp
    moreover have "u64_of (u64_of (write_offset out + length c) + (n - length c)) = u64_of (write_offset out + n)"
      using c(1) by (simp only: u64_of_add) simp
    moreover have "load_image cp v n = c @ load_image cp (u64_of (v + length c)) (n - length c)"
      using False by (subst load_image.simps) (simp add: Let_def c_def)
    ultimately show ?thesis by simp
  qed
qed

lemma load_emits:
  assumes "copies memory cp"
  shows "emits invar contents (prv_write_load_segment_data_cb ops cp) h (load_image cp (p_vaddr h) (p_filesz h))"
  unfolding emits_def
proof (intro allI impI)
  fix off out out'
  assume "invar (out_io out)" "write_offset out < 2 ^ 64"
    "prv_write_load_segment_data_cb ops cp (h\<lparr>p_offset := off\<rparr>) out = Some (True, out')"
  then show "invar (out_io out') \<and> written out' = written out @ load_image cp (p_vaddr h) (p_filesz h) \<and>
      write_offset out' = u64_of (write_offset out + length (load_image cp (p_vaddr h) (p_filesz h)))"
    using load_loop_appends [OF _ assms] by (simp add: prv_write_load_segment_data_cb_def length_load_image [OF assms])
qed

end

text \<open>
  The callback that copies a memory segment appends exactly as many bytes as the segment's header
  announces, and every one of them is the byte of the process at that address or the placeholder 0xEF,
  whatever parts of the memory can be read and however the reads are divided.
\<close>

theorem load_segment_copied:
  assumes "prv_write_load_segment_data_cb file_ops copy_proc_mem h out = Some (True, out')"
    and "copies memory copy_proc_mem" and "p_vaddr h + p_filesz h < 2 ^ 64" and "write_offset out < 2 ^ 64"
  shows "\<exists>image. fio_bytes (out_io out') = fio_bytes (out_io out) @ image \<and> length image = p_filesz h \<and>
    (\<forall>i < p_filesz h. image ! i = 0xEF \<or> memory (p_vaddr h + i) = Some (image ! i))"
proof (intro exI conjI allI impI)
  show "fio_bytes (out_io out') = fio_bytes (out_io out) @ load_image copy_proc_mem (p_vaddr h) (p_filesz h)"
    using file_sink.load_loop_appends [OF assms(1) [unfolded prv_write_load_segment_data_cb_def] assms(2)] assms(4) by simp
  show "length (load_image copy_proc_mem (p_vaddr h) (p_filesz h)) = p_filesz h"
    by (rule length_load_image [OF assms(2)])
qed (use load_image_bytes [OF assms(2) _ assms(3)] in blast)

text \<open>A process whose bytes from 4096 to 4098 can be read, one byte per call.\<close>

definition sample_memory :: "nat \<Rightarrow> byte option" where
  "sample_memory v = (if 4096 \<le> v \<and> v < 4099 then Some (word_of_nat v) else None)"

definition sample_copy :: "nat \<Rightarrow> nat \<Rightarrow> byte list option" where
  "sample_copy v n = (if n = 0 then Some [] else map_option (\<lambda>b. [b]) (sample_memory v))"

lemma sample_copies: "copies sample_memory sample_copy"
  by (auto simp: copies_def sample_copy_def split: if_splits)

definition sample_out :: "sTicosCoreElfWriteFileIO elf_out" where
  "sample_out = \<lparr>out_io = ticos_core_elf_write_file_io_init [] 1000 [] True, write_offset = 0\<rparr>"

lemma sample_load_succeeds:
  "map_option fst (prv_write_load_segment_data_cb file_ops sample_copy (data_segment 5) sample_out) = Some True"
  by code_simp

theorem load_segment_copied_witness:
  "\<exists>out' image. prv_write_load_segment_data_cb file_ops sample_copy (data_segment 5) sample_out = Some (True, out') \<and>
    fio_bytes (out_io out') = image \<and> length image = 5 \<and>
    (\<forall>i < 5. image ! i = 0xEF \<or> sample_memory (4096 + i) = Some (image ! i))"
proof -
  obtain out' where o: "prv_write_load_segment_data_cb file_ops sample_copy (data_segment 5) sample_out = Some (True, out')"
    using sample_load_succeeds by auto
  from load_segment_copied [OF this sample_copies] o show ?thesis
    by (simp add: data_segment_def sample_out_def ticos_core_elf_write_file_io_init_def)
qed

lemma unexpected_segments:
  assumes "p_type seg \<noteq> PT_NOTE" and "p_type seg \<noteq> PT_LOAD" and "\<forall>n. alloc env n"
  shows "process_segments env cp (replicate k seg) r =
    (if next_warning_idx (r_owner r) > WARNINGS_SIZE then Some r
     else if next_warning_idx (r_owner r) + k > WARNINGS_SIZE then None
     else Some (r\<lparr>r_owner := (r_owner r)\<lparr>
       warnings := warnings (r_owner r) @ replicate k (''Unexpected segment type: '' @ show_nat (p_type seg)),
       next_warning_idx := next_warning_idx (r_owner r) + k\<rparr>\<rparr>))"
  by (induction k arbitrary: r) (use assms in \<open>auto simp: on_owner_def prv_add_warning_def c_strdup_def\<close>)

text \<open>
  The check before a warning is stored lets the index reach the size of the array: a core file with
  seventeen segments of a type that is not expected makes the transformer store outside the array of
  warnings, while sixteen are handled.
\<close>

theorem seventeen_unexpected_segments:
  assumes "p_type seg \<noteq> PT_NOTE" and "p_type seg \<noteq> PT_LOAD" and "\<forall>n. alloc env n" and "next_warning_idx (r_owner r) = 0"
  shows "process_segments env cp (replicate 16 seg) r \<noteq> None \<and> process_segments env cp (replicate 17 seg) r = None"
  using unexpected_segments [OF assms(1-3)] assms(4) by (simp add: WARNINGS_SIZE_def)

definition sample_reader :: "sTicosCoreElfWriteFileIO reader_of" where
  "sample_reader =
     ticos_core_elf_transformer_init (ticos_core_elf_read_file_io_init [] []) file_ops (out_io sample_out) sample_metadata"

theorem seventeen_unexpected_segments_witness:
  "process_segments (transformer_env file_read_io (\<lambda>_. True) (\<lambda>n. []) sample_copy) sample_copy
     (replicate 16 ((data_segment 0)\<lparr>p_type := 2\<rparr>)) sample_reader \<noteq> None \<and>
   process_segments (transformer_env file_read_io (\<lambda>_. True) (\<lambda>n. []) sample_copy) sample_copy
     (replicate 17 ((data_segment 0)\<lparr>p_type := 2\<rparr>)) sample_reader = None"
  by (rule seventeen_unexpected_segments)
    (simp_all add: PT_NOTE_def PT_LOAD_def transformer_env_def Let_def sample_reader_def ticos_core_elf_transformer_init_def
      ticos_core_elf_reader_init_def)

end
