(* ===== verification/Core_Elf_Pipeline.thy ===== *)
theory Core_Elf_Pipeline
  imports Core_Elf_Transformer
begin

text \<open>
  Reader, transformer and writer together: what a run of the transformer on the core file of the kernel
  leaves in its output.
\<close>

section \<open>What the output should contain\<close>

text \<open>
  The segments of the output for a segment table whose notes lie one after the other from the position of
  the stream: every note with the bytes of the input at its offset, every memory segment with its image.
\<close>

fun expected ::
  "(nat \<Rightarrow> nat \<Rightarrow> byte list option) \<Rightarrow> nat \<Rightarrow> byte list \<Rightarrow> Elf_Phdr list \<Rightarrow> (Elf_Phdr \<times> byte list) list option" where
  "expected cp pos left [] = Some []"
| "expected cp pos left (h # hs) =
     (if p_type h = PT_NOTE then
        (if p_offset h = pos \<and> p_filesz h \<le> length left then
           map_option ((#) (h, take (p_filesz h) left)) (expected cp (pos + p_filesz h) (drop (p_filesz h) left) hs)
         else None)
      else if p_type h = PT_LOAD then
        map_option ((#) (h, load_image cp (p_vaddr h) (p_filesz h))) (expected cp pos left hs)
      else None)"

lemma expected_length: "expected cp pos left hs = Some segs \<Longrightarrow> length segs = length hs"
  by (induction cp pos left hs arbitrary: segs rule: expected.induct) (auto split: if_splits)

definition metadata_note :: "sTicosCoreElfMetadata \<Rightarrow> nat \<Rightarrow> byte list" where
  "metadata_note md pad = elf_nhdr 6 (length (metadata_cbor md)) s_metadata_note_type @
     s_note_name @ [0, 0, 0] @ metadata_cbor md @ replicate pad 0"

text \<open>The layout of the output: \<open>segs\<close> are the segments of the input with their data.\<close>

definition output_layout :: "byte list \<Rightarrow> nat \<Rightarrow> nat \<Rightarrow> sTicosCoreElfMetadata \<Rightarrow> (Elf_Phdr \<times> byte list) list \<Rightarrow> bool" where
  "output_layout file machine flags md segs \<longleftrightarrow> (\<exists>eh hs body pad.
     file = ehdr_bytes eh @ concat (map phdr_bytes hs) @ body \<and>
     e_machine eh = machine \<and> e_flags eh = flags \<and> e_phnum eh = length hs \<and>
     list_all2 replanned (map fst segs @ [metadata_segment (ticos_core_elf_metadata_note_calculate_size md)]) hs \<and>
     planned (sizeof_Elf_Ehdr + sizeof_Elf_Phdr * length hs) hs \<and>
     list_all2 (placed file) hs (map snd segs @ [metadata_note md pad]) \<and> pad < 4)"

context elf_sink
begin

text \<open>The segments that the transformer adds: complete buffers and copies of memory.\<close>

definition regular :: "'io sTicosCoreElfWriterSegment \<Rightarrow> bool" where
  "regular s \<longleftrightarrow>
     (case seg_data s of
        Buffer d \<Rightarrow> p_filesz (header s) \<le> length d
      | Callback fn \<Rightarrow> \<exists>memory cp. copies memory cp \<and> fn = prv_write_load_segment_data_cb ops cp)"

definition collected :: "'io sTicosCoreElfWriter \<Rightarrow> (Elf_Phdr \<times> byte list) list \<Rightarrow> bool" where
  "collected w segs \<longleftrightarrow> w_ops w = ops \<and> segments_idx w + 1 = int (length (segments w)) \<and>
     segments_max w = segments_alloc w \<and> length (segments w) \<le> segments_alloc w \<and>
     map header (segments w) = map fst segs \<and> list_all2 (yields invar contents) (segments w) (map snd segs) \<and>
     list_all regular (segments w)"

lemma collected_init: "collected (ticos_core_elf_writer_init ops io) []"
  by (simp add: collected_def ticos_core_elf_writer_init_def)

lemma add_collected:
  assumes "collected w segs" and "\<forall>n. al n" and "yields invar contents \<lparr>header = h, seg_data = d\<rparr> ys"
    and "regular \<lparr>header = h, seg_data = d\<rparr>"
  obtains w' where "add_segment (realloc_segments al) h d w = Some (True, w')" "collected w' (segs @ [(h, ys)])"
    "w_out w' = w_out w" "w_machine w' = w_machine w" "w_flags w' = w_flags w"
proof -
  let ?n = "if segments_idx w \<ge> int (segments_max w) - 1 then segments_max w + SEGMENTS_REALLOC_STEP_SIZE else segments_max w"
  let ?w = "w\<lparr>segments_max := ?n, segments_alloc := ?n, segments_idx := segments_idx w + 1,
    segments := segments w @ [\<lparr>header = h, seg_data = d\<rparr>]\<rparr>"
  have "add_segment (realloc_segments al) h d w = Some (True, ?w)"
    using assms(1,2)
    by (auto simp: add_segment_def prv_alloc_next_segment_def collected_def realloc_segments_def Let_def
        SEGMENTS_REALLOC_STEP_SIZE_def)
  moreover have "collected ?w (segs @ [(h, ys)])"
    using assms(1,3,4) by (auto simp: collected_def SEGMENTS_REALLOC_STEP_SIZE_def list_all2_appendI)
  ultimately show ?thesis by (rule that) simp_all
qed

text \<open>The segments of the input are collected in order, and nothing is written yet.\<close>

lemma process_segments_collects:
  assumes "expected cp (stream_pos r) (rf_left (r_io r)) hs = Some segs"
    and "collected (t_writer (r_owner r)) segs0" and "\<forall>n. alloc env n" and "rd_io env = file_read_io"
    and "no_failure (r_io r)" and "action r = Some prv_action_read_segment_headers"
    and "stream_pos r + length (rf_left (r_io r)) < 2 ^ 64" and "copies memory cp"
  shows "\<exists>r' w'. process_segments env cp hs r = Some r' \<and> r_owner r' = (r_owner r)\<lparr>t_writer := w'\<rparr> \<and>
    collected w' (segs0 @ segs) \<and> w_out w' = w_out (t_writer (r_owner r)) \<and>
    w_machine w' = w_machine (t_writer (r_owner r)) \<and> w_flags w' = w_flags (t_writer (r_owner r))"
  using assms(1,2,5-7)
proof (induction hs arbitrary: r segs segs0)
  case Nil
  then show ?case by (auto intro!: exI [of _ "t_writer (r_owner r)"])
next
  case (Cons h hs)
  consider (is_note) "p_type h = PT_NOTE" | (load) "p_type h \<noteq> PT_NOTE" "p_type h = PT_LOAD"
    using Cons.prems(1) by (auto split: if_splits)
  then show ?case
  proof cases
    case is_note
    then obtain rest where e: "p_offset h = stream_pos r" "p_filesz h \<le> length (rf_left (r_io r))"
        "expected cp (stream_pos r + p_filesz h) (drop (p_filesz h) (rf_left (r_io r))) hs = Some rest"
        "segs = (h, take (p_filesz h) (rf_left (r_io r))) # rest"
      using Cons.prems(1) by (auto split: if_splits)
    obtain io where rd: "prv_read_all env True (p_filesz h) r = Some (take (p_filesz h) (rf_left (r_io r)),
        r\<lparr>r_io := io, stream_pos := stream_pos r + p_filesz h\<rparr>)"
      "no_failure io" "rf_left io = drop (p_filesz h) (rf_left (r_io r))"
      using file_source.read_all_delivers [OF Cons.prems(3) assms(4) Cons.prems(5), of "p_filesz h"] e(2) by auto
    let ?ys = "take (p_filesz h) (rf_left (r_io r))"
    have y: "yields invar contents \<lparr>header = h, seg_data = Buffer ?ys\<rparr> ?ys" using e(2) by (simp add: yields_def)
    have g: "regular \<lparr>header = h, seg_data = Buffer ?ys\<rparr>" using e(2) by (simp add: regular_def)
    obtain w' where w: "add_segment (realloc_segments (alloc env)) h (Buffer ?ys) (t_writer (r_owner r)) = Some (True, w')"
      "collected w' (segs0 @ [(h, ?ys)])" "w_out w' = w_out (t_writer (r_owner r))"
      "w_machine w' = w_machine (t_writer (r_owner r))" "w_flags w' = w_flags (t_writer (r_owner r))"
      using add_collected [OF Cons.prems(2) assms(3) y g] by blast
    let ?r = "r\<lparr>r_io := io, stream_pos := stream_pos r + p_filesz h, r_owner := (r_owner r)\<lparr>t_writer := w'\<rparr>\<rparr>"
    have step: "prv_process_note_segment env h r = Some ?r"
      using assms(3) rd(1) w(1) e(1,2) Cons.prems(4)
      by (simp add: prv_process_note_segment_def ticos_core_elf_reader_read_segment_data_def
          ticos_core_elf_writer_add_segment_with_buffer_def)
    have "\<exists>r' w''. process_segments env cp hs ?r = Some r' \<and> r_owner r' = (r_owner ?r)\<lparr>t_writer := w''\<rparr> \<and>
        collected w'' ((segs0 @ [(h, ?ys)]) @ rest) \<and> w_out w'' = w_out (t_writer (r_owner ?r)) \<and>
        w_machine w'' = w_machine (t_writer (r_owner ?r)) \<and> w_flags w'' = w_flags (t_writer (r_owner ?r))"
      by (rule Cons.IH) (use e rd(2,3) w(2) Cons.prems(4,5) in simp_all)
    with is_note step w(3-5) e(4) show ?thesis by auto
  next
    case load
    then obtain rest where e: "expected cp (stream_pos r) (rf_left (r_io r)) hs = Some rest"
        "segs = (h, load_image cp (p_vaddr h) (p_filesz h)) # rest"
      using Cons.prems(1) by auto
    let ?ys = "load_image cp (p_vaddr h) (p_filesz h)" and ?cb = "prv_write_load_segment_data_cb ops cp"
    have y: "yields invar contents \<lparr>header = h, seg_data = Callback ?cb\<rparr> ?ys"
      using load_emits [OF assms(8)] length_load_image [OF assms(8)] by (simp add: yields_def)
    have g: "regular \<lparr>header = h, seg_data = Callback ?cb\<rparr>" using assms(8) by (auto simp: regular_def)
    obtain w' where w: "add_segment (realloc_segments (alloc env)) h (Callback ?cb) (t_writer (r_owner r)) = Some (True, w')"
      "collected w' (segs0 @ [(h, ?ys)])" "w_out w' = w_out (t_writer (r_owner r))"
      "w_machine w' = w_machine (t_writer (r_owner r))" "w_flags w' = w_flags (t_writer (r_owner r))"
      using add_collected [OF Cons.prems(2) assms(3) y g] by blast
    let ?r = "r\<lparr>r_owner := (r_owner r)\<lparr>t_writer := w'\<rparr>\<rparr>"
    have step: "on_owner (\<lambda>t. map_option snd (prv_process_load_segment (alloc env) cp h t)) r = Some ?r"
      using w(1) Cons.prems(2)
      by (simp add: on_owner_def prv_process_load_segment_def ticos_core_elf_writer_add_segment_with_callback_def collected_def)
    have "\<exists>r' w''. process_segments env cp hs ?r = Some r' \<and> r_owner r' = (r_owner ?r)\<lparr>t_writer := w''\<rparr> \<and>
        collected w'' ((segs0 @ [(h, ?ys)]) @ rest) \<and> w_out w'' = w_out (t_writer (r_owner ?r)) \<and>
        w_machine w'' = w_machine (t_writer (r_owner ?r)) \<and> w_flags w'' = w_flags (t_writer (r_owner ?r))"
      by (rule Cons.IH) (use e w(2) Cons.prems(3-5) in simp_all)
    with load step w(3-5) e(2) show ?thesis by auto
  qed
qed

lemma metadata_collected:
  assumes "collected (t_writer t) segs" and "\<forall>n. al n" and "\<forall>n. length (malloc n) = n"
    and "length (metadata_cbor (t_metadata t)) < 2 ^ 31" and "captured_time_epoch_s (t_metadata t) < 2 ^ 32"
  obtains w' pad where "prv_append_ticos_metadata_note al malloc t = Some (t\<lparr>t_writer := w'\<rparr>)"
    "collected w' (segs @ [(metadata_segment (ticos_core_elf_metadata_note_calculate_size (t_metadata t)),
       metadata_note (t_metadata t) pad)])"
    "w_out w' = w_out (t_writer t)" "w_machine w' = w_machine (t_writer t)" "w_flags w' = w_flags (t_writer t)" "pad < 4"
proof -
  let ?n = "ticos_core_elf_metadata_note_calculate_size (t_metadata t)"
  obtain pad where pad: "ticos_core_elf_metadata_note_write (t_metadata t) (malloc ?n) ?n =
      Some (True, metadata_note (t_metadata t) pad)" "pad < 4" "?n = 20 + length (metadata_cbor (t_metadata t)) + pad"
    using metadata_note_written [OF assms(4,5), of "malloc ?n"] assms(3) by (auto simp: metadata_note_def)
  have y: "yields invar contents \<lparr>header = metadata_segment ?n, seg_data = Buffer (metadata_note (t_metadata t) pad)\<rparr>
      (metadata_note (t_metadata t) pad)"
    using pad(3) by (simp add: yields_def metadata_segment_def metadata_note_def elf_nhdr_def s_note_name_def)
  have g: "regular \<lparr>header = metadata_segment ?n, seg_data = Buffer (metadata_note (t_metadata t) pad)\<rparr>"
    using y by (auto simp: regular_def yields_def)
  from add_collected [OF assms(1,2) y g] obtain w' where
      "add_segment (realloc_segments al) (metadata_segment ?n) (Buffer (metadata_note (t_metadata t) pad)) (t_writer t) = Some (True, w')"
      "collected w' (segs @ [(metadata_segment ?n, metadata_note (t_metadata t) pad)])"
      "w_out w' = w_out (t_writer t)" "w_machine w' = w_machine (t_writer t)" "w_flags w' = w_flags (t_writer t)" by blast
  with pad(1,2) assms(2) show ?thesis
    by (intro that [of w' pad]) (simp_all add: prv_append_ticos_metadata_note_def ticos_core_elf_writer_add_segment_with_buffer_def)
qed

lemma collected_layout:
  assumes "collected w (segs @ [(metadata_segment (ticos_core_elf_metadata_note_calculate_size md), metadata_note md pad)])"
    and "ticos_core_elf_writer_write w = Some (True, w')" and "written (w_out w) = []" and "invar (out_io (w_out w))"
    and "write_offset (w_out w) = 0" and "demand (map fst segs) < 2 ^ 63" and "length segs < 2 ^ 32" and "pad < 4"
    and "ticos_core_elf_metadata_note_calculate_size md < 2 ^ 32"
  shows "output_layout (written (w_out w')) (w_machine w) (w_flags w) md segs \<and>
    (\<exists>io. invar io \<and> io_sync ops io = Some (True, out_io (w_out w')))"
proof -
  let ?ms = "metadata_segment (ticos_core_elf_metadata_note_calculate_size md)"
  have hd: "map header (segments w) = map fst segs @ [?ms]" using assms(1) by (simp add: collected_def)
  then have len: "length (segments w) = length segs + 1" by (metis length_map length_append_singleton Suc_eq_plus1)
  have "demand (map header (segments w)) = demand (map fst segs) + (p_filesz ?ms + max 1 (p_align ?ms))"
    by (simp add: hd demand_def)
  then have d: "sizeof_Elf_Ehdr + sizeof_Elf_Phdr * length (segments w) + demand (map header (segments w)) < 2 ^ 64"
    using assms(6,7,9) len by (simp add: metadata_segment_def sizeof_Elf_Ehdr_def sizeof_Elf_Phdr_def)
  have y: "list_all2 (yields invar contents) (segments w) (map snd segs @ [metadata_note md pad])"
    using assms(1) by (simp add: collected_def)
  have idx: "segments_idx w + 1 = int (length (segments w))" "w_ops w = ops" using assms(1) by (simp_all add: collected_def)
  from write_layout [OF assms(2) idx(2) assms(3,5) idx(1) y d assms(4)]
  obtain hs body where l: "written (w_out w') = ehdr_bytes (writer_header (length (segments w)) w) @ concat (map phdr_bytes hs) @ body"
      "list_all2 replanned (map fst segs @ [?ms]) hs" "planned (sizeof_Elf_Ehdr + sizeof_Elf_Phdr * length hs) hs"
      "list_all2 (placed (written (w_out w'))) hs (map snd segs @ [metadata_note md pad])"
      "\<exists>io. invar io \<and> io_sync ops io = Some (True, out_io (w_out w'))"
    unfolding hd by blast
  have "length hs = length (segments w)" using list_all2_lengthD [OF l(2)] len by simp
  then have "e_phnum (writer_header (length (segments w)) w) = length hs" "e_machine (writer_header (length (segments w)) w) = w_machine w"
    "e_flags (writer_header (length (segments w)) w) = w_flags w" by (simp_all add: writer_header_def)
  with l assms(8) show ?thesis unfolding output_layout_def by blast
qed

text \<open>The handler comes down to one write of the collected segments.\<close>

lemma handle_segments_eq:
  assumes "expected cp (stream_pos r) (rf_left (r_io r)) hs = Some segs" and "collected (t_writer (r_owner r)) []"
    and "\<forall>n. alloc env n" and "rd_io env = file_read_io" and "no_failure (r_io r)"
    and "action r = Some prv_action_read_segment_headers"
    and "stream_pos r + length (rf_left (r_io r)) < 2 ^ 64" and "copies memory cp" and "\<forall>n. length (malloc n) = n"
    and "length (metadata_cbor (t_metadata (r_owner r))) < 2 ^ 31" and "captured_time_epoch_s (t_metadata (r_owner r)) < 2 ^ 32"
  obtains r1 w pad where "prv_handle_segments env cp malloc hs r =
      do { (ok, w') \<leftarrow> ticos_core_elf_writer_write w;
           Some (r1\<lparr>r_owner := (r_owner r1)\<lparr>t_writer := w', write_success := ok\<rparr>\<rparr>) }"
    "collected w (segs @ [(metadata_segment (ticos_core_elf_metadata_note_calculate_size (t_metadata (r_owner r))),
       metadata_note (t_metadata (r_owner r)) pad)])"
    "w_out w = w_out (t_writer (r_owner r))" "w_machine w = w_machine (t_writer (r_owner r))"
    "w_flags w = w_flags (t_writer (r_owner r))" "pad < 4"
proof -
  obtain r1 w1 where p: "process_segments env cp hs r = Some r1" "r_owner r1 = (r_owner r)\<lparr>t_writer := w1\<rparr>" "collected w1 segs"
      "w_out w1 = w_out (t_writer (r_owner r))" "w_machine w1 = w_machine (t_writer (r_owner r))"
      "w_flags w1 = w_flags (t_writer (r_owner r))"
    using process_segments_collects [OF assms(1-8)] by auto
  let ?md = "t_metadata (r_owner r)" and ?t1 = "r_owner r1"
  have t1: "t_writer ?t1 = w1" "t_metadata ?t1 = ?md" using p(2) by simp_all
  obtain w2 pad where m: "prv_append_ticos_metadata_note (alloc env) malloc ?t1 = Some (?t1\<lparr>t_writer := w2\<rparr>)"
      "collected w2 (segs @ [(metadata_segment (ticos_core_elf_metadata_note_calculate_size ?md), metadata_note ?md pad)])"
      "w_out w2 = w_out w1" "w_machine w2 = w_machine w1" "w_flags w2 = w_flags w1" "pad < 4"
    using metadata_collected [of ?t1 segs "alloc env" malloc] p(3) assms(3,9-11) unfolding t1 by metis
  have "prv_handle_segments env cp malloc hs r =
      do { (ok, w') \<leftarrow> ticos_core_elf_writer_write w2;
           Some ((r1\<lparr>r_owner := ?t1\<lparr>t_writer := w2\<rparr>\<rparr>)\<lparr>r_owner :=
             (?t1\<lparr>t_writer := w2\<rparr>)\<lparr>t_writer := w', write_success := ok\<rparr>\<rparr>) }"
    using p(1) m(1) by (simp add: prv_handle_segments_def on_owner_def)
  with that [of w2 "r1\<lparr>r_owner := ?t1\<lparr>t_writer := w2\<rparr>\<rparr>" pad] m p(4-6) show ?thesis by simp
qed

lemma metadata_size_less:
  assumes "length (metadata_cbor md) < 2 ^ 31" and "captured_time_epoch_s md < 2 ^ 32"
  shows "ticos_core_elf_metadata_note_calculate_size md < 2 ^ 32"
  using metadata_note_written [OF assms, of "replicate (ticos_core_elf_metadata_note_calculate_size md) 0"] assms(1) by auto

text \<open>The transformer when the reader passes it the segment table, and the reader at the end of the run.\<close>

definition started :: "'io \<Rightarrow> sTicosCoreElfMetadata \<Rightarrow> Elf_Ehdr \<Rightarrow> 'io sTicosCoreElfTransformer" where
  "started wio md h =
     \<lparr>t_writer = ticos_core_elf_writer_set_elf_header_fields (e_machine h) (e_flags h) (ticos_core_elf_writer_init ops wio),
      t_metadata = md, warnings = [], next_warning_idx = 0, write_success = False\<rparr>"

lemma started_facts:
  "collected (t_writer (started wio md h)) []" "w_out (t_writer (started wio md h)) = \<lparr>out_io = wio, write_offset = 0\<rparr>"
  "t_metadata (started wio md h) = md" "w_machine (t_writer (started wio md h)) = e_machine h"
  "w_flags (t_writer (started wio md h)) = e_flags h"
  using collected_init [of wio]
  by (simp_all add: started_def ticos_core_elf_writer_set_elf_header_fields_def collected_def ticos_core_elf_writer_init_def)

definition finished :: "'io reader_of \<Rightarrow> 'io reader_of" where
  "finished r = (the (prv_handle_done (r\<lparr>action := Some prv_action_done\<rparr>)))\<lparr>action := None\<rparr>"

lemma transformer_run_eq:
  assumes "ehdr_ok h" and "\<forall>p \<in> set hs. phdr_ok p" and "ticos_core_elf_reader_is_valid_core_elf (Some (ehdr_bytes h))"
    and "e_phoff h = sizeof_Elf_Ehdr" and "e_phnum h = length hs" and "\<forall>a \<in> set answers. \<forall>e. a \<noteq> Fail e"
    and "length rest < 2 ^ 63" and "\<forall>n. al n"
  obtains io where "ticos_core_elf_transformer_run (transformer_env file_read_io al malloc cp)
      (ticos_core_elf_transformer_init
        (ticos_core_elf_read_file_io_init (ehdr_bytes h @ concat (map phdr_bytes hs) @ rest) answers) ops wio md) =
      map_option (\<lambda>r. (write_success (r_owner r), finished r))
        (prv_handle_segments \<lparr>rd_io = file_read_io, rd_handler = warning_handler, alloc = al\<rparr> cp malloc hs
          (at_segments io h hs (started wio md h)))"
    "no_failure io" "rf_left io = rest"
proof -
  define f where "f = (\<lambda>(h :: Elf_Ehdr) (t :: 'io sTicosCoreElfTransformer). t\<lparr>t_writer :=
    ticos_core_elf_writer_set_elf_header_fields (e_machine h) (e_flags h) (t_writer t)\<rparr>)"
  define t0 where "t0 = \<lparr>t_writer = ticos_core_elf_writer_init ops wio, t_metadata = md, warnings = [],
        next_warning_idx = 0, write_success = False\<rparr>"
  define env :: "(sTicosCoreElfReadFileIO, 'io sTicosCoreElfTransformer) reader_env"
    where "env = transformer_env file_read_io al malloc cp"
  let ?env = "\<lparr>rd_io = file_read_io, rd_handler = warning_handler, alloc = al\<rparr>"
  have env: "rd_io env = file_read_io" "\<forall>n. alloc env n" "handle_segments (rd_handler env) = prv_handle_segments ?env cp malloc"
    "handle_elf_header (rd_handler env) = (\<lambda>h r. Some (r\<lparr>r_owner := f h (r_owner r)\<rparr>))"
    "handle_done (rd_handler env) = prv_handle_done"
    using assms(8)
    by (simp_all add: env_def transformer_env_def Let_def warning_handler_def f_def fun_eq_iff prv_handle_elf_header_def)
  have t: "f h t0 = started wio md h" by (simp add: f_def t0_def started_def)
  from reader_run [OF assms(1-5) env(1,2,4) assms(6,7), of t0] obtain io where
      r: "ticos_core_elf_reader_read_all env (ticos_core_elf_reader_init
        (ticos_core_elf_read_file_io_init (ehdr_bytes h @ concat (map phdr_bytes hs) @ rest) answers) t0) =
      do { r \<leftarrow> prv_handle_segments ?env cp malloc hs (at_segments io h hs (started wio md h));
           r \<leftarrow> prv_handle_done (r\<lparr>action := Some prv_action_done\<rparr>); Some (True, r\<lparr>action := None\<rparr>) }"
      and io: "no_failure io" "rf_left io = rest"
    unfolding env(3,5) t by blast
  show ?thesis
  proof (rule that [OF _ io])
    show "ticos_core_elf_transformer_run (transformer_env file_read_io al malloc cp)
      (ticos_core_elf_transformer_init
        (ticos_core_elf_read_file_io_init (ehdr_bytes h @ concat (map phdr_bytes hs) @ rest) answers) ops wio md) =
      map_option (\<lambda>r. (write_success (r_owner r), finished r))
        (prv_handle_segments ?env cp malloc hs (at_segments io h hs (started wio md h)))"
      unfolding ticos_core_elf_transformer_run_def ticos_core_elf_transformer_init_def t0_def [symmetric] env_def [symmetric] r
      by (cases "prv_handle_segments ?env cp malloc hs (at_segments io h hs (started wio md h))")
        (simp_all add: finished_def prv_handle_done_def prv_free_warnings_def)
  qed
qed

lemma finished_out: "w_out (t_writer (r_owner (finished r))) = w_out (t_writer (r_owner r))"
  by (simp add: finished_def prv_handle_done_def prv_free_warnings_def ticos_core_elf_writer_finalize_def)

text \<open>A run that reports success has written the segments of the input and the metadata note.\<close>

lemma transform_layout:
  assumes "ehdr_ok h" and "\<forall>p \<in> set hs. phdr_ok p" and "ticos_core_elf_reader_is_valid_core_elf (Some (ehdr_bytes h))"
    and "e_phoff h = sizeof_Elf_Ehdr" and "e_phnum h = length hs" and "\<forall>a \<in> set answers. \<forall>e. a \<noteq> Fail e"
    and "length rest < 2 ^ 63" and "\<forall>n. al n" and "\<forall>n. length (malloc n) = n" and "copies memory cp"
    and "expected cp (sizeof_Elf_Ehdr + sizeof_Elf_Phdr * length hs) rest hs = Some segs"
    and "length (metadata_cbor md) < 2 ^ 31" and "captured_time_epoch_s md < 2 ^ 32"
    and "demand (map fst segs) < 2 ^ 63" and "invar wio" and "contents wio = []"
    and "ticos_core_elf_transformer_run (transformer_env file_read_io al malloc cp)
      (ticos_core_elf_transformer_init
        (ticos_core_elf_read_file_io_init (ehdr_bytes h @ concat (map phdr_bytes hs) @ rest) answers) ops wio md) =
      Some (True, r')"
  shows "output_layout (written (w_out (t_writer (r_owner r')))) (e_machine h) (e_flags h) md segs \<and>
    (\<exists>io. invar io \<and> io_sync ops io = Some (True, out_io (w_out (t_writer (r_owner r')))))"
proof -
  let ?env = "\<lparr>rd_io = file_read_io, rd_handler = warning_handler, alloc = al\<rparr>"
  obtain io where io: "map_option (\<lambda>r. (write_success (r_owner r), finished r))
      (prv_handle_segments ?env cp malloc hs (at_segments io h hs (started wio md h))) = Some (True, r')"
      "no_failure io" "rf_left io = rest"
    using transformer_run_eq [OF assms(1-8), of malloc cp wio md] assms(17) by (metis (no_types))
  then obtain r2 where r: "no_failure io" "rf_left io = rest" "write_success (r_owner r2)" "r' = finished r2"
      "prv_handle_segments ?env cp malloc hs (at_segments io h hs (started wio md h)) = Some r2" by auto
  have len: "length hs < 2 ^ 16" using assms(1,5) by (simp add: ehdr_ok_def)
  have pos: "stream_pos (at_segments io h hs (started wio md h)) + length (rf_left (r_io (at_segments io h hs (started wio md h)))) < 2 ^ 64"
    using assms(7) len r(2) by (simp add: at_segments_def sizeof_Elf_Ehdr_def sizeof_Elf_Phdr_def)
  obtain r1 w pad where w: "prv_handle_segments ?env cp malloc hs (at_segments io h hs (started wio md h)) =
      do { (ok, w') \<leftarrow> ticos_core_elf_writer_write w;
           Some (r1\<lparr>r_owner := (r_owner r1)\<lparr>t_writer := w', write_success := ok\<rparr>\<rparr>) }"
    "collected w (segs @ [(metadata_segment (ticos_core_elf_metadata_note_calculate_size md), metadata_note md pad)])"
    "w_out w = \<lparr>out_io = wio, write_offset = 0\<rparr>" "w_machine w = e_machine h" "w_flags w = e_flags h" "pad < 4"
    by (rule handle_segments_eq [of cp "at_segments io h hs (started wio md h)" hs segs ?env memory malloc])
      (use assms(8-13) r(1,2) pos started_facts [of wio md h] in \<open>simp_all add: at_segments_def\<close>)
  then obtain w' where w': "ticos_core_elf_writer_write w = Some (True, w')" "t_writer (r_owner r2) = w'"
    using r(3,5) by (auto split: bind_splits)
  have "length segs < 2 ^ 32" using expected_length [OF assms(11)] len by simp
  with collected_layout [OF w(2) w'(1) _ _ _ assms(14) _ w(6) metadata_size_less [OF assms(12,13)]] w(3-5) assms(15,16) w'(2) r(4)
  show ?thesis by (simp add: finished_out)
qed

end

text \<open>
  C8. From the core file of the kernel to the file that is uploaded. When the transformer reports success on a
  core file whose notes follow the segment table, its output is a core file for the same machine
  whose table lists the segments of the input, in order and changed only in their file offsets, and the metadata
  note as the last one; at their offsets are the bytes of the notes in the input, the memory of
  the process (or placeholders), and the metadata.
\<close>

theorem transformer_output:
  assumes "ehdr_ok h" and "\<forall>p \<in> set hs. phdr_ok p" and "ticos_core_elf_reader_is_valid_core_elf (Some (ehdr_bytes h))"
    and "e_phoff h = sizeof_Elf_Ehdr" and "e_phnum h = length hs" and "\<forall>a \<in> set answers. \<forall>e. a \<noteq> Fail e"
    and "length rest < 2 ^ 63" and "\<forall>n. al n" and "\<forall>n. length (malloc n) = n" and "copies memory cp"
    and "expected cp (sizeof_Elf_Ehdr + sizeof_Elf_Phdr * length hs) rest hs = Some segs"
    and "length (metadata_cbor md) < 2 ^ 31" and "captured_time_epoch_s md < 2 ^ 32"
    and "demand (map fst segs) < 2 ^ 63" and "fio_bytes wio = []"
    and "ticos_core_elf_transformer_run (transformer_env file_read_io al malloc cp)
      (ticos_core_elf_transformer_init
        (ticos_core_elf_read_file_io_init (ehdr_bytes h @ concat (map phdr_bytes hs) @ rest) answers) file_ops wio md) =
      Some (True, r')"
  shows "output_layout (fio_bytes (out_io (w_out (t_writer (r_owner r'))))) (e_machine h) (e_flags h) md segs"
  using file_sink.transform_layout [OF assms(1-14) TrueI assms(15,16)] by simp

end
