(* ===== verification/Core_Elf_Delivery.thy ===== *)
theory Core_Elf_Delivery
  imports Core_Elf_Pipeline
begin

text \<open>
  When the output has room the transformer succeeds: every loop of the writer ends and reports success. The
  contract of an output is extended by a promise to accept a number of bytes, which files keep
  up to their size limit.
\<close>

section \<open>Outputs with room\<close>

locale reliable_sink = elf_sink ops invar contents
  for ops :: "'io sTicosCoreElfWriteIO" and invar and contents +
  fixes room :: "'io \<Rightarrow> nat \<Rightarrow> bool"
  assumes room_write: "room io (length data + m) \<Longrightarrow>
      \<exists>io'. prv_io_write_all ops data io = Some (True, io') \<and> room io' m"
    and room_sync: "room io 0 \<Longrightarrow> \<exists>io'. io_sync ops io = Some (True, io')"
    and room_less: "room io n \<Longrightarrow> m \<le> n \<Longrightarrow> room io m"
begin

lemma write_all_succeeds:
  assumes "room (out_io out) (length data + m)"
  obtains out' where "prv_write_all ops data out = Some (True, out')" "room (out_io out') m"
proof -
  from room_write [OF assms] obtain io' where "prv_io_write_all ops data (out_io out) = Some (True, io')" "room io' m" by blast
  then show ?thesis by (intro that) (auto simp: prv_write_all_def)
qed

lemma write_padding_succeeds:
  "room (out_io out) (n + m) \<Longrightarrow> \<exists>out'. prv_write_padding ops n out = Some (True, out') \<and> room (out_io out') m"
proof (induction n arbitrary: out rule: less_induct)
  case (less n)
  show ?case
  proof (cases "n = 0")
    case True
    with less.prems show ?thesis by (simp add: prv_write_padding.simps)
  next
    case False
    let ?sz = "min PADDING_WRITE_SIZE n"
    have "n + m = length (replicate ?sz (0 :: byte)) + ((n - ?sz) + m)" by simp
    with less.prems obtain out1 where o: "prv_write_all ops (replicate ?sz 0) out = Some (True, out1)"
        "room (out_io out1) ((n - ?sz) + m)"
      using write_all_succeeds [of out "replicate ?sz 0" "(n - ?sz) + m"] by metis
    have "n - ?sz < n" using False by (simp add: PADDING_WRITE_SIZE_def)
    from less.IH [OF this o(2)] o(1) False show ?thesis by (subst prv_write_padding.simps) (auto simp: Let_def)
  qed
qed

lemma table_succeeds:
  "room (out_io out) (sizeof_Elf_Phdr * length ws + m) \<Longrightarrow>
   \<exists>ws' out'. write_segment_table ops off ws out = Some (True, ws', out') \<and> room (out_io out') m"
proof (induction ws arbitrary: off out)
  case (Cons w ws)
  let ?h = "(header w)\<lparr>p_offset := u64_of (off + prv_calc_padding off (header w))\<rparr>"
  have "sizeof_Elf_Phdr * length (w # ws) + m = length (phdr_bytes ?h) + (sizeof_Elf_Phdr * length ws + m)" by simp
  with Cons.prems obtain out1 where o: "prv_write_all ops (phdr_bytes ?h) out = Some (True, out1)"
      "room (out_io out1) (sizeof_Elf_Phdr * length ws + m)"
    using write_all_succeeds [of out "phdr_bytes ?h"] by metis
  from Cons.IH [OF o(2), of "u64_of (off + p_filesz ?h + prv_calc_padding off (header w))"] o(1) show ?case
    by (auto simp: Let_def)
qed simp

text \<open>A segment whose data can be written wherever there is room for it.\<close>

definition ready :: "'io sTicosCoreElfWriterSegment \<Rightarrow> bool" where
  "ready w \<longleftrightarrow>
     (case seg_data w of
        Buffer d \<Rightarrow> p_filesz (header w) \<le> length d
      | Callback fn \<Rightarrow>
          (\<forall>off out m. room (out_io out) (p_filesz (header w) + m) \<longrightarrow>
             (\<exists>out'. fn ((header w)\<lparr>p_offset := off\<rparr>) out = Some (True, out') \<and> room (out_io out') m)))"

lemma ready_writes:
  assumes "ready w" and "room (out_io out) (p_filesz (header w) + m)"
  shows "\<exists>out'. (case seg_data w of Callback fn \<Rightarrow> fn (header w) out
      | Buffer data \<Rightarrow> do { block \<leftarrow> mem_read data 0 (p_filesz (header w)); prv_write_all ops block out }) = Some (True, out') \<and>
    room (out_io out') m"
proof (cases "seg_data w")
  case (Buffer d)
  with assms(1) have l: "p_filesz (header w) \<le> length d" by (simp add: ready_def)
  obtain out' where "prv_write_all ops (take (p_filesz (header w)) d) out = Some (True, out')" "room (out_io out') m"
    by (rule write_all_succeeds [of out "take (p_filesz (header w)) d" m]) (use assms(2) l in \<open>simp_all add: min_absorb2\<close>)
  with Buffer l show ?thesis by (simp add: mem_read_def)
next
  case (Callback fn)
  with assms(1) have "\<exists>out'. fn ((header w)\<lparr>p_offset := p_offset (header w)\<rparr>) out = Some (True, out') \<and> room (out_io out') m"
    using assms(2) unfolding ready_def by (simp only: segment_data.case)
  with Callback show ?thesis by simp
qed

lemma blocks_succeed:
  assumes "in_step out" and "planned (write_offset out) (map header ws)" and "list_all2 (yields invar contents) ws yss"
    and "write_offset out + demand (map header ws) < 2 ^ 64" and "list_all ready ws"
    and "room (out_io out) (demand (map header ws) + m)"
  shows "\<exists>out'. write_segment_blocks ops ws out = Some (True, out') \<and> room (out_io out') m"
  using assms
proof (induction ws arbitrary: out yss)
  case (Cons w ws)
  let ?h = "header w" and ?n = "p_filesz (header w)" and ?d = "demand (map header ws)"
  let ?pad = "p_offset ?h - write_offset out"
  obtain ys yss' where yss: "yss = ys # yss'" "yields invar contents w ys" "list_all2 (yields invar contents) ws yss'"
    using Cons.prems(3) by (auto simp: list_all2_Cons1)
  have pl: "write_offset out \<le> p_offset ?h" "p_offset ?h < write_offset out + max 1 (p_align ?h)"
      "planned (p_offset ?h + ?n) (map header ws)" using Cons.prems(2) by simp_all
  have d: "demand (map header (w # ws)) = ?n + max 1 (p_align ?h) + ?d" by (simp add: demand_def)
  have le: "?pad + (?n + (?d + m)) \<le> demand (map header (w # ws)) + m" using d pl(2) by simp
  note r = room_less [OF Cons.prems(6) le]
  obtain out1 where o1: "prv_write_padding ops ?pad out = Some (True, out1)" "room (out_io out1) (?n + (?d + m))"
    using write_padding_succeeds [OF r] by blast
  have w: "ready w" "list_all ready ws" using Cons.prems(5) by simp_all
  obtain out2 where o2: "(case seg_data w of Callback fn \<Rightarrow> fn ?h out1
      | Buffer data \<Rightarrow> do { block \<leftarrow> mem_read data 0 ?n; prv_write_all ops block out1 }) = Some (True, out2)"
      "room (out_io out2) (?d + m)"
    using ready_writes [OF w(1) o1(2)] by blast
  have pad: "u64_of (p_offset ?h + 2 ^ 64 - write_offset out) = ?pad"
    using pl d Cons.prems(4) by (intro u64_of_diff) simp_all
  have "in_step out1 \<and> write_offset out1 = p_offset ?h"
    using write_padding_appends [OF o1(1) Cons.prems(1)] Cons.prems(1,4) pl d by (auto simp: in_step_def)
  with segment_appends [OF o2(1) _ yss(2)] pl d Cons.prems(4)
  have s: "in_step out2" "write_offset out2 = p_offset ?h + ?n" by simp_all
  have u: "u64_of (p_offset ?h + ?n) = p_offset ?h + ?n" using pl d Cons.prems(4) by (simp add: u64_of_id)
  have "\<exists>out'. write_segment_blocks ops ws out2 = Some (True, out') \<and> room (out_io out') m"
    by (rule Cons.IH [OF s(1) _ yss(3) _ w(2)]) (use s pl d Cons.prems(4) o2(2) in simp_all)
  with o1(1) o2(1) s(2) pad u show ?case by (auto simp: Let_def)
qed (simp add: demand_def)

lemma ready_replanned:
  assumes "ready s" and "replanned (header s) (header s')" and "seg_data s' = seg_data s"
  shows "ready s'"
proof -
  obtain x where "header s' = (header s)\<lparr>p_offset := x\<rparr>" using assms(2) by (auto simp: replanned_def)
  with assms(1,3) show ?thesis by (cases "seg_data s") (simp_all add: ready_def)
qed

lemma writer_succeeds:
  assumes "w_ops w = ops" and "written (w_out w) = []" and "write_offset (w_out w) = 0" and "invar (out_io (w_out w))"
    and "segments_idx w + 1 = int (length (segments w))" and "list_all2 (yields invar contents) (segments w) yss"
    and "sizeof_Elf_Ehdr + sizeof_Elf_Phdr * length (segments w) + demand (map header (segments w)) < 2 ^ 64"
    and "list_all ready (segments w)"
    and "room (out_io (w_out w)) (sizeof_Elf_Ehdr + (sizeof_Elf_Phdr * length (segments w) + demand (map header (segments w))))"
  shows "\<exists>w'. ticos_core_elf_writer_write w = Some (True, w')"
proof -
  let ?n = "length (segments w)" and ?eh = "ehdr_bytes (writer_header (length (segments w)) w)"
  have n: "nat (segments_idx w + 1) = ?n" using assms(5) by simp
  have s0: "in_step (w_out w)" using assms(2-4) by (simp add: in_step_def)
  obtain out1 where o1: "prv_write_all ops ?eh (w_out w) = Some (True, out1)"
      "room (out_io out1) (sizeof_Elf_Phdr * ?n + demand (map header (segments w)))"
    using write_all_succeeds [of "w_out w" ?eh] assms(9) by auto
  obtain segs out2 where o2: "write_segment_table ops (u64_of (write_offset out1 + sizeof_Elf_Phdr * ?n)) (segments w) out1 =
      Some (True, segs, out2)" "room (out_io out2) (demand (map header (segments w)))"
    using table_succeeds [OF o1(2)] by blast
  note t = table_written [OF o1(1) o2(1) s0 assms(2,6,7)]
  have "list_all ready segs"
    using assms(8) t(5,6) by (simp add: list_all_length list_all2_conv_all_nth list_eq_iff_nth_eq) (metis ready_replanned nth_map)
  then obtain out3 where o3: "write_segment_blocks ops segs out2 = Some (True, out3)" "room (out_io out3) 0"
    using blocks_succeed [OF t(2,4,7), of 0] t(3,8) assms(7) o2(2) by auto
  from room_sync [OF o3(2)] obtain io where "io_sync ops (out_io out3) = Some (True, io)" by blast
  with n o1(1) o2(1) o3(1) assms(1) show ?thesis by (simp add: ticos_core_elf_writer_write_def Let_def)
qed

text \<open>Copying memory cannot fail when there is room.\<close>

lemma load_loop_succeeds:
  "copies memory cp \<Longrightarrow> room (out_io out) (n + m) \<Longrightarrow>
   \<exists>out'. load_loop ops cp v n out = Some (True, out') \<and> room (out_io out') m"
proof (induction n arbitrary: v out rule: less_induct)
  case (less n)
  show ?case
  proof (cases "n = 0")
    case True
    with less.prems show ?thesis by (simp add: load_loop.simps)
  next
    case False
    define c where "c = load_chunk cp v (min n PROC_MEM_COPY_BUFFER_SIZE)"
    have c: "length c \<le> min n PROC_MEM_COPY_BUFFER_SIZE" "0 < length c"
      using load_chunk_bounded [OF less.prems(1), of v "min n PROC_MEM_COPY_BUFFER_SIZE"]
        load_chunk_nonempty [OF chunk_size, of n] False by (simp_all add: c_def)
    then have "n + m = length c + ((n - length c) + m)" by simp
    with less.prems(2) obtain out1 where o: "prv_write_all ops c out = Some (True, out1)" "room (out_io out1) ((n - length c) + m)"
      using write_all_succeeds [of out c] by metis
    have "n - length c < n" using c False by (intro diff_less) simp_all
    from less.IH [OF this less.prems(1) o(2), of "u64_of (v + length c)"] o(1) False c(1) show ?thesis
      by (subst load_loop.simps) (simp add: Let_def c_def [symmetric] not_less ticos_core_elf_writer_write_segment_data_def)
  qed
qed

lemma regular_ready: "regular s \<Longrightarrow> ready s"
  using load_loop_succeeds
  by (cases "seg_data s") (auto simp: regular_def ready_def prv_write_load_segment_data_cb_def)

lemma collected_succeeds:
  assumes "collected w (segs @ [(metadata_segment n, note)])" and "written (w_out w) = []" and "write_offset (w_out w) = 0"
    and "invar (out_io (w_out w))" and "demand (map fst segs) < 2 ^ 63" and "length segs < 2 ^ 32" and "n < 2 ^ 32"
    and "room (out_io (w_out w)) (sizeof_Elf_Ehdr + sizeof_Elf_Phdr * (length segs + 1) + demand (map fst segs) + n + 1)"
  shows "\<exists>w'. ticos_core_elf_writer_write w = Some (True, w')"
proof (rule writer_succeeds [OF _ assms(2-4)])
  note c = assms(1) [unfolded collected_def]
  have hd: "map header (segments w) = map fst segs @ [metadata_segment n]" using c by simp
  then have len: "length (segments w) = length segs + 1" by (metis length_map length_append_singleton Suc_eq_plus1)
  have d: "demand (map header (segments w)) = demand (map fst segs) + n + 1"
    by (simp add: hd demand_def metadata_segment_def)
  show "w_ops w = ops" "segments_idx w + 1 = int (length (segments w))"
    "list_all2 (yields invar contents) (segments w) (map snd (segs @ [(metadata_segment n, note)]))" using c by simp_all
  show "sizeof_Elf_Ehdr + sizeof_Elf_Phdr * length (segments w) + demand (map header (segments w)) < 2 ^ 64"
    using assms(5-7) len d by (simp add: sizeof_Elf_Ehdr_def sizeof_Elf_Phdr_def)
  show "list_all ready (segments w)" using c regular_ready by (auto simp: list_all_iff)
  show "room (out_io (w_out w)) (sizeof_Elf_Ehdr + (sizeof_Elf_Phdr * length (segments w) + demand (map header (segments w))))"
    using assms(8) by (simp add: len d add.assoc)
qed

lemma transform_succeeds:
  assumes "ehdr_ok h" and "\<forall>p \<in> set hs. phdr_ok p" and "ticos_core_elf_reader_is_valid_core_elf (Some (ehdr_bytes h))"
    and "e_phoff h = sizeof_Elf_Ehdr" and "e_phnum h = length hs" and "\<forall>a \<in> set answers. \<forall>e. a \<noteq> Fail e"
    and "length rest < 2 ^ 63" and "\<forall>n. al n" and "\<forall>n. length (malloc n) = n" and "copies memory cp"
    and "expected cp (sizeof_Elf_Ehdr + sizeof_Elf_Phdr * length hs) rest hs = Some segs"
    and "length (metadata_cbor md) < 2 ^ 31" and "captured_time_epoch_s md < 2 ^ 32"
    and "demand (map fst segs) < 2 ^ 63" and "invar wio" and "contents wio = []"
    and "room wio (sizeof_Elf_Ehdr + sizeof_Elf_Phdr * (length hs + 1) + demand (map fst segs) +
      ticos_core_elf_metadata_note_calculate_size md + 1)"
  shows "\<exists>r'. ticos_core_elf_transformer_run (transformer_env file_read_io al malloc cp)
      (ticos_core_elf_transformer_init
        (ticos_core_elf_read_file_io_init (ehdr_bytes h @ concat (map phdr_bytes hs) @ rest) answers) ops wio md) =
      Some (True, r')"
proof -
  let ?env = "\<lparr>rd_io = file_read_io, rd_handler = warning_handler, alloc = al\<rparr>"
  let ?n = "ticos_core_elf_metadata_note_calculate_size md"
  obtain io where io: "ticos_core_elf_transformer_run (transformer_env file_read_io al malloc cp)
      (ticos_core_elf_transformer_init
        (ticos_core_elf_read_file_io_init (ehdr_bytes h @ concat (map phdr_bytes hs) @ rest) answers) ops wio md) =
      map_option (\<lambda>r. (write_success (r_owner r), finished r))
        (prv_handle_segments ?env cp malloc hs (at_segments io h hs (started wio md h)))"
      "no_failure io" "rf_left io = rest"
    by (rule transformer_run_eq [OF assms(1-8)])
  have len: "length hs < 2 ^ 16" using assms(1,5) by (simp add: ehdr_ok_def)
  obtain r1 w pad where w: "prv_handle_segments ?env cp malloc hs (at_segments io h hs (started wio md h)) =
      do { (ok, w') \<leftarrow> ticos_core_elf_writer_write w;
           Some (r1\<lparr>r_owner := (r_owner r1)\<lparr>t_writer := w', write_success := ok\<rparr>\<rparr>) }"
    "collected w (segs @ [(metadata_segment ?n, metadata_note md pad)])" "w_out w = \<lparr>out_io = wio, write_offset = 0\<rparr>"
    by (rule handle_segments_eq [of cp "at_segments io h hs (started wio md h)" hs segs ?env memory malloc])
      (use assms(7-13) len io(2,3) started_facts [of wio md h] in \<open>simp_all add: at_segments_def sizeof_Elf_Ehdr_def sizeof_Elf_Phdr_def\<close>)
  have "length segs = length hs" using expected_length [OF assms(11)] .
  with collected_succeeds [OF w(2) _ _ _ assms(14) _ metadata_size_less [OF assms(12,13)]] w(3) len assms(15-17)
  obtain w' where "ticos_core_elf_writer_write w = Some (True, w')" by auto
  with io(1) w(1) show ?thesis by auto
qed

end

section \<open>Files up to their limit\<close>

definition file_room :: "sTicosCoreElfWriteFileIO \<Rightarrow> nat \<Rightarrow> bool" where
  "file_room io n \<longleftrightarrow> within_limit io \<and> length (fio_bytes io) + n \<le> max_size io \<and>
     Write_Failed \<notin> set (os_answers io) \<and> fsync_ok io"

lemma fio_write_keeps:
  assumes "prv_fio_write io data = (r, io')"
  shows "set (os_answers io') \<subseteq> set (os_answers io)" and "fsync_ok io' = fsync_ok io"
    and "r = Write_Failed \<Longrightarrow> max_size io < u64_of (written_size io + length data) \<or> Write_Failed \<in> set (os_answers io)"
  using assms by (auto simp: prv_fio_write_def Let_def split: if_splits list.splits write_result.splits)

lemma fio_write_room:
  assumes "file_room io (length data + m)" and "data \<noteq> []" and "prv_fio_write io data = (r, io')"
  obtains n where "r = Written n" "n \<le> length data" "file_room io' (length (drop n data) + m)"
    "length (os_answers io') + length (drop n data) < length (os_answers io) + length data"
proof -
  have io: "within_limit io" "length (fio_bytes io) + (length data + m) \<le> max_size io" "Write_Failed \<notin> set (os_answers io)"
      "fsync_ok io" using assms(1) by (simp_all add: file_room_def)
  then have b: "length data < 2 ^ 63" by (simp add: within_limit_def)
  from io(1) b assms(2,3) show ?thesis
  proof (cases rule: fio_write_cases)
    case (wrote n)
    then have "file_room io' (length (drop n data) + m)"
      using io(2-4) fio_write_keeps(1,2) [OF assms(3)] by (auto simp: file_room_def)
    with wrote(6) show ?thesis by (intro that [OF wrote(1,2)]) (simp_all only: length_drop)
  next
    case failed
    have "u64_of (written_size io + length data) \<le> max_size io"
      using io(1,2) b by (auto simp: within_limit_def u64_of_id)
    with fio_write_keeps(3) [OF assms(3) failed(1)] io(3) show ?thesis by auto
  qed
qed

lemma file_room_write:
  "file_room io (length data + m) \<Longrightarrow> \<exists>io'. prv_io_write_all file_ops data io = Some (True, io') \<and> file_room io' m"
proof (induction "length (os_answers io) + length data" arbitrary: io data rule: less_induct)
  case less
  show ?case
  proof (cases "data = []")
    case True
    with less.prems show ?thesis by (subst prv_io_write_all.simps) simp
  next
    case False
    obtain r io1 where w: "prv_fio_write io data = (r, io1)" by fastforce
    from less.prems False w obtain n where n: "r = Written n" "file_room io1 (length (drop n data) + m)"
      "length (os_answers io1) + length (drop n data) < length (os_answers io) + length data"
      by (rule fio_write_room)
    from less.hyps [OF n(3,2)] w n(1) False show ?thesis
      by (subst prv_io_write_all.simps) (auto simp: file_ops_def)
  qed
qed

interpretation file_delivery: reliable_sink file_ops "\<lambda>_. True" fio_bytes file_room
proof
  fix io m n
  show "file_room io n \<Longrightarrow> m \<le> n \<Longrightarrow> file_room io m" by (auto simp: file_room_def)
  show "file_room io 0 \<Longrightarrow> \<exists>io'. io_sync file_ops io = Some (True, io')"
    by (auto simp: file_room_def file_ops_def prv_fio_sync_def)
qed (rule file_room_write)


definition sample_core_header :: Elf_Ehdr where
  "sample_core_header = (ehdr_of (ehdr_bytes (writer_header 2 sample_writer)))"

definition sample_note_segment :: Elf_Phdr where
  "sample_note_segment =
     \<lparr>p_type = 4, p_flags = 0, p_offset = 176, p_vaddr = 0, p_paddr = 0, p_filesz = 3, p_memsz = 0, p_align = 0\<rparr>"

definition sample_core :: "byte list" where
  "sample_core =
     ehdr_bytes sample_core_header @ concat (map phdr_bytes [sample_note_segment, data_segment 5]) @ [1, 2, 3]"

definition sample_wio :: sTicosCoreElfWriteFileIO where
  "sample_wio = ticos_core_elf_write_file_io_init [] 1000 [Written 10] True"

lemma sample_wio_room: "fio_bytes sample_wio = []" "n \<le> 1000 \<Longrightarrow> file_room sample_wio n"
  by (simp_all add: sample_wio_def file_room_def within_limit_def ticos_core_elf_write_file_io_init_def)

definition sample_run :: "(bool \<times> sTicosCoreElfWriteFileIO reader_of) option" where
  "sample_run =
     ticos_core_elf_transformer_run (transformer_env file_read_io (\<lambda>_. True) (\<lambda>n. replicate n 0) sample_copy)
       (ticos_core_elf_transformer_init (ticos_core_elf_read_file_io_init sample_core [Give 10, Interrupt]) file_ops
         sample_wio sample_metadata)"

lemma sample_core_ok:
  "ehdr_ok sample_core_header" "e_phoff sample_core_header = sizeof_Elf_Ehdr" "e_phnum sample_core_header = 2"
  "ticos_core_elf_reader_is_valid_core_elf (Some (ehdr_bytes sample_core_header))" "e_machine sample_core_header = 183"
  "length (metadata_cbor sample_metadata) < 2 ^ 31" "captured_time_epoch_s sample_metadata < 2 ^ 32"
  "phdr_ok sample_note_segment" "phdr_ok (data_segment 5)" "ticos_core_elf_metadata_note_calculate_size sample_metadata = 48"
  by code_simp+

lemma sample_expected:
  "expected sample_copy (sizeof_Elf_Ehdr + sizeof_Elf_Phdr * length [sample_note_segment, data_segment 5]) [1, 2, 3]
    [sample_note_segment, data_segment 5] =
   Some [(sample_note_segment, [1, 2, 3]), (data_segment 5, load_image sample_copy 4096 5)]"
  "demand [sample_note_segment, data_segment 5] = 17"
  by (simp_all add: sample_note_segment_def data_segment_def PT_NOTE_def PT_LOAD_def sizeof_Elf_Ehdr_def sizeof_Elf_Phdr_def
      demand_def)

lemmas sample_facts = sample_core_ok sample_expected(2) sample_wio_room sizeof_Elf_Ehdr_def sizeof_Elf_Phdr_def

lemma sample_run_succeeds: "\<exists>r'. sample_run = Some (True, r')"
  unfolding sample_run_def sample_core_def
  by (rule file_delivery.transform_succeeds [OF sample_core_ok(1) _ sample_core_ok(4,2) _ _ _ _ _ sample_copies
        sample_expected(1) sample_core_ok(6,7)])
    (simp_all add: sample_facts)

abbreviation sample_written :: "sTicosCoreElfWriteFileIO reader_of \<Rightarrow> byte list" where
  "sample_written r \<equiv> fio_bytes (out_io (w_out (t_writer (r_owner r))))"


theorem transformer_output_witness:
  "\<exists>r'. sample_run = Some (True, r') \<and>
    output_layout (sample_written r') 183 (e_flags sample_core_header) sample_metadata
      [(sample_note_segment, [1, 2, 3]), (data_segment 5, load_image sample_copy 4096 5)]"
proof -
  obtain r' where r: "sample_run = Some (True, r')" using sample_run_succeeds by blast
  have "output_layout (sample_written r') (e_machine sample_core_header) (e_flags sample_core_header) sample_metadata
      [(sample_note_segment, [1, 2, 3]), (data_segment 5, load_image sample_copy 4096 5)]"
    by (rule transformer_output [OF sample_core_ok(1) _ sample_core_ok(4,2) _ _ _ _ _ sample_copies sample_expected(1)
          sample_core_ok(6,7) _ _ r [unfolded sample_run_def sample_core_def]])
      (simp_all add: sample_facts)
  with r show ?thesis unfolding sample_core_ok(5) by blast
qed

end
