(* ===== verification/Rate_Limiter.thy ===== *)
theory Rate_Limiter
  imports C_Text
begin

text \<open>
  The rate limiter (src/util/rate_limiter.c): the times of the last \<^verbatim>\<open>count\<close> accepted events,
  kept in memory and in a text file. Times are integers (the sums of a time and a duration stay
  far below 64 bits). An operation returns \<open>None\<close> where the C code reads outside the history or
  through a null handle.
\<close>

section \<open>Data and operations\<close>

record sTicosdRateLimiter =
  rl_count :: int
  rl_duration :: int
  history :: "int list"
  rl_file :: "string option"

text \<open>\<^verbatim>\<open>history[i + 1] = history[i]\<close> for \<open>i\<close> from \<^verbatim>\<open>count - 2\<close> down to 0.\<close>

fun shuffle_right :: "nat \<Rightarrow> int list \<Rightarrow> int list" where
  "shuffle_right 0 h = h"
| "shuffle_right (Suc i) h = shuffle_right i (h[Suc i := h ! i])"

text \<open>
  \<open>now\<close> is what \<^verbatim>\<open>gettimeofday\<close> reports and \<open>fopen_ok\<close> whether the file can be opened for
  writing. The result is the verdict, the handle and the new contents of the file, if it was
  written.
\<close>

definition ticosd_rate_limiter_check_event ::
  "bool \<Rightarrow> int \<Rightarrow> sTicosdRateLimiter option \<Rightarrow>
   (bool \<times> sTicosdRateLimiter option \<times> string option) option" where
  "ticosd_rate_limiter_check_event fopen_ok now handle =
     (case handle of
        None \<Rightarrow> Some (True, None, None)
      | Some h \<Rightarrow>
          if rl_count h < 1 \<or> length (history h) < nat (rl_count h) then None
          else if history h ! nat (rl_count h - 1) + rl_duration h > now then Some (False, Some h, None)
          else
            let hist = (shuffle_right (nat (rl_count h - 1)) (history h))[0 := now];
                h = h\<lparr>history := hist\<rparr>
            in case rl_file h of
                 None \<Rightarrow> Some (True, Some h, None)
               | Some f \<Rightarrow>
                   if \<not> fopen_ok then Some (True, Some h, None)
                   else Some (True, Some h,
                     Some (concat (map (\<lambda>t. show_int t @ '' '') (take (nat (rl_count h)) hist)))))"

text \<open>The loop that reads the file: it stops at the first entry that is not a number.\<close>

fun read_history :: "nat \<Rightarrow> string \<Rightarrow> int list" where
  "read_history 0 s = []"
| "read_history (Suc n) s =
     (case scan_long s of
        None \<Rightarrow> replicate (Suc n) 0
      | Some (t, s) \<Rightarrow> t # read_history n (dropWhile is_space s))"

datatype fopen_result = Opened string | Missing | Unreadable

text \<open>
  \<open>path\<close> is the generated file name. A negative count asks \<^verbatim>\<open>calloc\<close> for more than the address
  space. The \<^verbatim>\<open>cleanup\<close> label reads through the handle, so a failed allocation of the handle
  itself ends in a null dereference.
\<close>

definition ticosd_rate_limiter_init ::
  "bool \<Rightarrow> bool \<Rightarrow> bool \<Rightarrow> string option \<Rightarrow> fopen_result \<Rightarrow> int \<Rightarrow> int \<Rightarrow> string option \<Rightarrow>
   sTicosdRateLimiter option option" where
  "ticosd_rate_limiter_init have_ticosd handle_ok history_ok path file_state count duration filename =
     (if count = 0 \<or> duration = 0 \<or> \<not> have_ticosd then Some None
      else if \<not> handle_ok then None
      else if \<not> (history_ok \<and> 0 < count) then Some None
      else
        let h = \<lparr>rl_count = count, rl_duration = duration, history = replicate (nat count) 0,
                 rl_file = None\<rparr>
        in case filename of
             None \<Rightarrow> Some (Some h)
           | Some _ \<Rightarrow>
               (case path of
                  None \<Rightarrow> Some None
                | Some f \<Rightarrow>
                    (case file_state of
                       Unreadable \<Rightarrow> Some None
                     | Missing \<Rightarrow> Some (Some (h\<lparr>rl_file := Some f\<rparr>))
                     | Opened s \<Rightarrow>
                         Some (Some (h\<lparr>rl_file := Some f, history := read_history (nat count) s\<rparr>)))))"

section \<open>The history\<close>

definition wf_limiter :: "sTicosdRateLimiter \<Rightarrow> bool" where
  "wf_limiter h \<longleftrightarrow> 0 < rl_count h \<and> length (history h) = nat (rl_count h)"

lemma length_shuffle [simp]: "length (shuffle_right i h) = length h"
  by (induction i h rule: shuffle_right.induct) simp_all

lemma nth_shuffle:
  "i < length h \<Longrightarrow> j < length h \<Longrightarrow>
     shuffle_right i h ! j = (if 0 < j \<and> j \<le> i then h ! (j - 1) else h ! j)"
proof (induction i h arbitrary: j rule: shuffle_right.induct)
  case (2 i h)
  from 2 show ?case by (cases "j = Suc i") (auto simp: nth_list_update)
qed simp

lemma shuffle_push:
  assumes "h \<noteq> []"
  shows "(shuffle_right (length h - 1) h)[0 := t] = t # butlast h"
proof (rule nth_equalityI)
  fix i assume "i < length ((shuffle_right (length h - 1) h)[0 := t])"
  then show "(shuffle_right (length h - 1) h)[0 := t] ! i = (t # butlast h) ! i"
    using assms by (cases i) (auto simp: nth_shuffle nth_butlast)
qed (use assms in simp)

lemma check_event_eq:
  assumes "wf_limiter h"
  obtains out where "ticosd_rate_limiter_check_event ok now (Some h) =
    Some (if last (history h) + rl_duration h > now then (False, Some h, None)
          else (True, Some (h\<lparr>history := now # butlast (history h)\<rparr>), out))"
    and "rl_file h = None \<or> \<not> ok \<Longrightarrow> out = None"
    and "rl_file h \<noteq> None \<Longrightarrow> ok \<Longrightarrow>
      out = Some (concat (map (\<lambda>t. show_int t @ '' '') (now # butlast (history h))))"
proof -
  let ?n = "nat (rl_count h)"
  from assms have n: "length (history h) = ?n" "0 < ?n" "history h \<noteq> []" "\<not> rl_count h < 1"
    by (auto simp: wf_limiter_def)
  then have d: "nat (rl_count h - 1) = length (history h) - 1" by arith
  with n have l: "history h ! nat (rl_count h - 1) = last (history h)"
    by (simp add: last_conv_nth)
  have p: "(shuffle_right (nat (rl_count h - 1)) (history h))[0 := now] = now # butlast (history h)"
    using shuffle_push [OF n(3), of now] by (simp only: d)
  have t: "take ?n (now # butlast (history h)) = now # butlast (history h)" using n by simp
  let ?out = "if rl_file h = None \<or> \<not> ok then None
    else Some (concat (map (\<lambda>t. show_int t @ '' '') (now # butlast (history h))))"
  show ?thesis
  proof (rule that [of ?out])
    show "ticosd_rate_limiter_check_event ok now (Some h) =
      Some (if last (history h) + rl_duration h > now then (False, Some h, None)
            else (True, Some (h\<lparr>history := now # butlast (history h)\<rparr>), ?out))"
      using n l p t by (cases "rl_file h") (simp_all add: ticosd_rate_limiter_check_event_def Let_def)
  qed simp_all
qed

lemma check_event_wf:
  "wf_limiter h \<Longrightarrow> ticosd_rate_limiter_check_event ok now (Some h) = Some (v, Some h', out) \<Longrightarrow>
     wf_limiter h' \<and> rl_count h' = rl_count h \<and> rl_duration h' = rl_duration h"
  by (rule check_event_eq [of h ok now]) (auto simp: wf_limiter_def split: if_splits)

section \<open>How many events are accepted\<close>

text \<open>The times of the accepted events of a run; \<open>None\<close> when a call fails.\<close>

fun accepted :: "(int \<times> bool) list \<Rightarrow> sTicosdRateLimiter option \<Rightarrow> int list option" where
  "accepted [] h = Some []"
| "accepted ((t, ok) # es) h = do {
     (v, h, _) \<leftarrow> ticosd_rate_limiter_check_event ok t h;
     ts \<leftarrow> accepted es h;
     Some (if v then t # ts else ts)
   }"

definition spaced :: "nat \<Rightarrow> int \<Rightarrow> int list \<Rightarrow> bool" where
  "spaced c d ts \<longleftrightarrow> (\<forall>i. i + c < length ts \<longrightarrow> ts ! i + d \<le> ts ! (i + c))"

lemma spaced_Cons:
  "spaced c d (t # ts) \<longleftrightarrow> (c \<le> length ts \<longrightarrow> t + d \<le> (t # ts) ! c) \<and> spaced c d ts"
proof -
  have split: "(\<forall>i. P i) \<longleftrightarrow> P 0 \<and> (\<forall>i. P (Suc i))" for P by (metis not0_implies_Suc)
  show ?thesis unfolding spaced_def by (subst split) (simp add: less_Suc_eq_le Suc_le_eq)
qed

lemma spaced_append: "spaced c d (xs @ ys) \<Longrightarrow> spaced c d ys"
  by (induction xs) (simp_all add: spaced_Cons)

text \<open>
  Together with the history the limiter started from, any two accepted events that are
  \<^verbatim>\<open>count\<close> positions apart are at least the duration apart.
\<close>

lemma accepted_spaced:
  assumes "wf_limiter h" and "accepted es (Some h) = Some ts"
  shows "spaced (nat (rl_count h)) (rl_duration h) (rev (history h) @ ts)"
  using assms
proof (induction es arbitrary: h ts)
  case Nil
  then show ?case by (simp add: spaced_def wf_limiter_def)
next
  case (Cons e es)
  obtain t ok where e: "e = (t, ok)" by (cases e)
  have ne: "history h \<noteq> []" "length (history h) = nat (rl_count h)"
    using Cons.prems(1) by (auto simp: wf_limiter_def)
  from Cons.prems(1) obtain out where out: "ticosd_rate_limiter_check_event ok t (Some h) =
    Some (if last (history h) + rl_duration h > t then (False, Some h, None)
          else (True, Some (h\<lparr>history := t # butlast (history h)\<rparr>), out))"
    by (rule check_event_eq)
  show ?case
  proof (cases "last (history h) + rl_duration h > t")
    case True
    with Cons.prems out e Cons.IH show ?thesis by (auto split: bind_splits)
  next
    case False
    let ?h = "h\<lparr>history := t # butlast (history h)\<rparr>"
    from False Cons.prems(2) out e obtain ts' where ts': "accepted es (Some ?h) = Some ts'" "ts = t # ts'"
      by (auto split: bind_splits)
    have "wf_limiter ?h" using Cons.prems(1) ne by (simp add: wf_limiter_def)
    with ts' Cons.IH have "spaced (nat (rl_count h)) (rl_duration h) (rev (butlast (history h)) @ t # ts')"
      by fastforce
    moreover have r: "rev (history h) = last (history h) # rev (butlast (history h))"
      using ne(1) by (metis append_butlast_last_id rev_eq_Cons_iff rev_rev_ident)
    moreover have "(rev (history h) @ t # ts') ! nat (rl_count h) = t"
      by (metis ne(2) length_rev nth_append_length)
    ultimately show ?thesis using ts' False by (simp add: spaced_Cons r)
  qed
qed

text \<open>Sorted times with that spacing put at most \<open>c\<close> of them into any window of length \<open>d\<close>.\<close>

lemma window_count:
  assumes "spaced c d ts" and "sorted ts" and "0 < c"
  shows "length (filter (\<lambda>a. lo \<le> a \<and> a < lo + d) ts) \<le> c"
  using assms
proof (induction ts)
  case (Cons t ts)
  show ?case
  proof (cases "lo \<le> t")
    case False
    with Cons show ?thesis by (simp add: spaced_Cons)
  next
    case True
    have "length (filter (\<lambda>a. lo \<le> a \<and> a < lo + d) (drop c (t # ts))) = 0"
    proof (cases "c \<le> length ts")
      case c: True
      have "lo + d \<le> a" if "a \<in> set (drop c (t # ts))" for a
      proof -
        have "(t # ts) ! c \<le> a"
          using that c Cons.prems(2) by (auto simp: in_set_conv_nth intro!: sorted_nth_mono)
        moreover have "t + d \<le> (t # ts) ! c" using Cons.prems(1) c by (simp add: spaced_Cons)
        ultimately show ?thesis using True by simp
      qed
      then show ?thesis by (fastforce simp: filter_empty_conv simp del: drop_Cons' dest: leD)
    qed simp
    moreover have "length (filter (\<lambda>a. lo \<le> a \<and> a < lo + d) (t # ts)) =
        length (filter (\<lambda>a. lo \<le> a \<and> a < lo + d) (take c (t # ts))) +
        length (filter (\<lambda>a. lo \<le> a \<and> a < lo + d) (drop c (t # ts)))"
      by (simp only: length_append [symmetric] filter_append [symmetric] append_take_drop_id)
    moreover have "length (filter (\<lambda>a. lo \<le> a \<and> a < lo + d) (take c (t # ts))) \<le> c"
      by (rule order_trans [OF length_filter_le]) simp
    ultimately show ?thesis by simp
  qed
qed simp

lemma accepted_sublist:
  "accepted es h = Some ts \<Longrightarrow> sorted (map fst es) \<Longrightarrow> sorted ts \<and> set ts \<subseteq> set (map fst es)"
proof (induction es h arbitrary: ts rule: accepted.induct)
  case (2 t ok es h)
  from 2(2) obtain v h' out ts' where "ticosd_rate_limiter_check_event ok t h = Some (v, h', out)"
    "accepted es h' = Some ts'" "ts = (if v then t # ts' else ts')"
    by (auto split: bind_splits)
  with 2(1) [of "(v, h', out)" v "(h', out)" h' out ts'] 2(3) show ?case by auto
qed simp

lemma length_read_history [simp]: "length (read_history n s) = n"
  by (induction n s rule: read_history.induct) (auto split: option.splits)

lemma init_wf:
  "ticosd_rate_limiter_init a b c path st count duration name = Some (Some h) \<Longrightarrow>
     wf_limiter h \<and> rl_count h = count \<and> rl_duration h = duration"
  by (auto simp: ticosd_rate_limiter_init_def wf_limiter_def Let_def
      split: if_splits option.splits fopen_result.splits)

lemma accepted_defined: "wf_limiter h \<Longrightarrow> \<exists>ts. accepted es (Some h) = Some ts"
proof (induction es arbitrary: h)
  case (Cons e es)
  obtain t ok where e: "e = (t, ok)" by (cases e)
  from Cons.prems obtain out where out: "ticosd_rate_limiter_check_event ok t (Some h) =
    Some (if last (history h) + rl_duration h > t then (False, Some h, None)
          else (True, Some (h\<lparr>history := t # butlast (history h)\<rparr>), out))"
    by (rule check_event_eq)
  have "wf_limiter (h\<lparr>history := t # butlast (history h)\<rparr>)"
    using Cons.prems by (auto simp: wf_limiter_def)
  with Cons.IH Cons.prems e out show ?case by (fastforce split: if_splits)
qed simp

lemma read_history_written:
  assumes "length ts = n" and "\<forall>t \<in> set ts. - (2 ^ 63) \<le> t \<and> t < 2 ^ 63"
  shows "read_history n (concat (map (\<lambda>t. show_int t @ '' '') ts)) = ts"
  using assms
proof (induction ts arbitrary: n)
  case (Cons t ts)
  let ?rest = "concat (map (\<lambda>t. show_int t @ '' '') ts)"
  have "scan_long (show_int t @ '' '' @ ?rest) = Some (t, '' '' @ ?rest)"
    using Cons.prems(2) by (intro scan_show_int) (auto simp: is_digit_def)
  moreover have "dropWhile is_space ?rest = ?rest"
  proof (cases ts)
    case (Cons u us)
    have "show_int u \<noteq> []" "\<not> is_space (hd (show_int u))"
      using show_nat_digits [of "nat u"] digit_not_space_sign hd_in_set [OF show_nat_nonempty, of "nat u"]
      by (auto simp: show_int_def is_space_def)
    then show ?thesis using Cons by (cases "show_int u") auto
  qed simp
  moreover have "is_space (CHR '' '')" by (simp add: is_space_def)
  ultimately show ?case using Cons by (auto simp: list.map)
qed simp

section \<open>Properties\<close>

text \<open>
  C23. The limit holds. Whatever history the limiter was opened with, however many events arrive
  and whether or not the file can be written, every call returns and no time window of
  \<^verbatim>\<open>duration\<close> seconds contains more than \<^verbatim>\<open>count\<close> accepted events, provided the clock does not
  go backwards.
\<close>

theorem rate_limit_window:
  assumes "ticosd_rate_limiter_init a b c path st count duration name = Some (Some h)"
    and "sorted (map fst es)"
  shows "\<exists>ts. accepted es (Some h) = Some ts \<and>
           (\<forall>lo. length (filter (\<lambda>t. lo \<le> t \<and> t < lo + duration) ts) \<le> nat count)"
proof -
  from init_wf [OF assms(1)] have wf: "wf_limiter h" "rl_count h = count" "rl_duration h = duration" by auto
  obtain ts where ts: "accepted es (Some h) = Some ts" using accepted_defined [OF wf(1)] ..
  have "spaced (nat count) duration ts"
    using spaced_append [OF accepted_spaced [OF wf(1) ts]] wf(2,3) by simp
  moreover have "sorted ts" using accepted_sublist [OF ts assms(2)] by simp
  ultimately show ?thesis using ts window_count wf(1,2) by (auto simp: wf_limiter_def)
qed

theorem rate_limit_window_witness:
  "\<exists>ts. accepted [(100, True), (101, True), (102, True), (111, False)]
           (Some \<lparr>rl_count = 2, rl_duration = 10, history = [0, 0], rl_file = Some ''f''\<rparr>) = Some ts \<and>
     (\<forall>lo. length (filter (\<lambda>t. lo \<le> t \<and> t < lo + 10) ts) \<le> nat 2)"
  by (rule rate_limit_window [of True True True "Some ''f''" Missing 2 10 "Some ''x''"])
    (simp_all add: ticosd_rate_limiter_init_def numeral_2_eq_2)

text \<open>
  The limit survives a restart: after an accepted event whose file could be written, opening
  the limiter on the contents of that file restores exactly the history it had in memory.
\<close>

theorem rate_limiter_restart:
  assumes "wf_limiter h" and "rl_file h = Some path" and "rl_duration h \<noteq> 0"
    and "\<forall>t \<in> set (now # history h). - (2 ^ 63) \<le> t \<and> t < 2 ^ 63"
    and "last (history h) + rl_duration h \<le> now"
  shows "\<exists>h' s. ticosd_rate_limiter_check_event True now (Some h) = Some (True, Some h', Some s) \<and>
           history h' = now # butlast (history h) \<and>
           ticosd_rate_limiter_init True True True (Some path) (Opened s) (rl_count h) (rl_duration h) (Some name) =
             Some (Some h')"
proof -
  let ?ts = "now # butlast (history h)"
  let ?s = "concat (map (\<lambda>t. show_int t @ '' '') ?ts)"
  let ?h = "h\<lparr>history := ?ts\<rparr>"
  have "ticosd_rate_limiter_check_event True now (Some h) = Some (True, Some ?h, Some ?s)"
    using assms(1) by (rule check_event_eq [of h True now]) (use assms(2,5) in auto)
  moreover have "read_history (nat (rl_count h)) ?s = ?ts"
    by (rule read_history_written) (use assms(1,4) in \<open>auto simp: wf_limiter_def dest: in_set_butlastD\<close>)
  then have "ticosd_rate_limiter_init True True True (Some path) (Opened ?s) (rl_count h) (rl_duration h)
      (Some name) = Some (Some ?h)"
    using assms(1,2,3) by (cases h) (simp add: ticosd_rate_limiter_init_def wf_limiter_def Let_def)
  ultimately show ?thesis by auto
qed

theorem rate_limiter_restart_witness:
  "\<exists>h' s. ticosd_rate_limiter_check_event True 120
       (Some \<lparr>rl_count = 2, rl_duration = 10, history = [109, 100], rl_file = Some ''f''\<rparr>) =
       Some (True, Some h', Some s) \<and> history h' = [120, 109] \<and>
     ticosd_rate_limiter_init True True True (Some ''f'') (Opened s) 2 10 (Some ''x'') = Some (Some h')"
  using rate_limiter_restart [of "\<lparr>rl_count = 2, rl_duration = 10, history = [109, 100], rl_file = Some ''f''\<rparr>"
      "''f''" 120 "''x''"]
  by (simp add: wf_limiter_def)

end
