(* ===== verification/Network.thy ===== *)
theory Network
  imports C_Text
begin

text \<open>
  The HTTP client of the daemon (src/network.c). libcurl and json-c are parameters: \<open>perform\<close>
  is the exchange \<^verbatim>\<open>curl_easy_perform\<close> makes for the options that were set, and \<open>json_lib\<close>
  holds the json-c calls the code makes. Strings are lists of characters. \<open>None\<close> is undefined
  behaviour: parsing a receive buffer that no byte was written to. The one-byte buffers that
  reception starts with are taken to be available, and \<^verbatim>\<open>int\<close> arguments of a format are
  passed as on a little-endian 64-bit target.
\<close>

section \<open>Data\<close>

datatype eTicosdNetworkResult =
    kTicosdNetworkResult_OK
  | kTicosdNetworkResult_ErrorRetryLater
  | kTicosdNetworkResult_ErrorNoRetry

datatype eTicosdHttpMethod = kTicosdHttpMethod_POST | kTicosdHttpMethod_PATCH | kTicosdHttpMethod_GET

record sTicosdNetwork =
  during_network_failure :: bool
  base_url :: string
  project_key_header :: string
  software_type :: string
  software_version :: string

text \<open>
  The options a request is made with; an upload sends a form with the type
  \<^verbatim>\<open>COREDUMP\<close> and the named file.
\<close>

record http_request =
  req_url :: string
  req_method :: string
  req_headers :: "string list"
  req_body :: "string option"
  req_form_file :: "string option"

text \<open>The calls into json-c on a value of type \<open>'j\<close>.\<close>

record 'j json_lib =
  json_tokener_parse :: "string \<Rightarrow> 'j option"
  json_object_object_get_ex :: "'j \<Rightarrow> string \<Rightarrow> 'j option"
  json_is_string :: "'j \<Rightarrow> bool"
  json_object_get_string :: "'j \<Rightarrow> string"

text \<open>
  What surrounds the client: the exchange with the server (its state is \<open>'w\<close>, its answer the
  CURL code, the HTTP code and the chunks of the body), json-c, whether memory for a string or a
  receive buffer of some length can be allocated, and the device.
\<close>

record ('w, 'j) net_env =
  perform :: "http_request \<Rightarrow> 'w \<Rightarrow> (int \<times> int \<times> string list) \<times> 'w"
  json :: "'j json_lib"
  string_ok :: "string \<Rightarrow> bool"
  realloc_ok :: "nat \<Rightarrow> bool"
  device_id :: string
  hardware_version :: string

record 'w net_state =
  net :: sTicosdNetwork
  wire :: 'w
  file_sizes :: "string \<rightharpoonup> nat"

section \<open>Operations\<close>

text \<open>
  The receive buffer: \<open>None\<close> when no data is wanted (\<^verbatim>\<open>buf\<close> is null), otherwise the characters
  received so far. The callback reports how many bytes it took.
\<close>

definition prv_network_write_callback ::
  "(nat \<Rightarrow> bool) \<Rightarrow> string \<Rightarrow> string option \<Rightarrow> nat \<times> string option" where
  "prv_network_write_callback rok contents recv_buf =
     (let total_size = length contents in
      case recv_buf of
        None \<Rightarrow> (total_size, None)
      | Some b \<Rightarrow>
          if \<not> rok (length b + total_size + 1) then (0, Some b)
          else (total_size, Some (b @ contents)))"

text \<open>libcurl calls the callback for each chunk and gives up when it takes less than it was given.\<close>

fun receive :: "(nat \<Rightarrow> bool) \<Rightarrow> string list \<Rightarrow> string option \<Rightarrow> bool \<times> string option" where
  "receive rok [] b = (True, b)"
| "receive rok (c # cs) b =
     (let (n, b) = prv_network_write_callback rok c b in
      if n \<noteq> length c then (False, b) else receive rok cs b)"

definition CURLE_WRITE_ERROR :: int where "CURLE_WRITE_ERROR = 23"

definition curl_easy_perform ::
  "('w, 'j) net_env \<Rightarrow> http_request \<Rightarrow> string option \<Rightarrow> 'w \<Rightarrow> (int \<times> int \<times> string option) \<times> 'w" where
  "curl_easy_perform env req recv_buf w =
     (let ((res, http_code, chunks), w) = perform env req w;
          (ok, b) = receive (realloc_ok env) chunks recv_buf
      in ((if ok then res else CURLE_WRITE_ERROR, http_code, b), w))"

definition prv_log_first_failed_request :: "sTicosdNetwork \<Rightarrow> sTicosdNetwork" where
  "prv_log_first_failed_request handle =
     (if \<not> during_network_failure handle then handle\<lparr>during_network_failure := True\<rparr> else handle)"

definition prv_log_first_succeeded_request :: "sTicosdNetwork \<Rightarrow> sTicosdNetwork" where
  "prv_log_first_succeeded_request handle =
     (if during_network_failure handle then handle\<lparr>during_network_failure := False\<rparr> else handle)"

definition prv_check_error ::
  "sTicosdNetwork \<Rightarrow> int \<Rightarrow> int \<Rightarrow> eTicosdNetworkResult \<times> sTicosdNetwork" where
  "prv_check_error handle res http_code =
     (if res \<noteq> 0 then (kTicosdNetworkResult_ErrorRetryLater, prv_log_first_failed_request handle)
      else
        let handle = prv_log_first_succeeded_request handle in
        if 400 \<le> http_code \<and> http_code \<le> 499 then (kTicosdNetworkResult_ErrorNoRetry, handle)
        else if 500 \<le> http_code \<and> http_code \<le> 599 then (kTicosdNetworkResult_ErrorRetryLater, handle)
        else (kTicosdNetworkResult_OK, handle))"

text \<open>\<^verbatim>\<open>ticos_asprintf\<close> (src/util/string.c): the formatted string, if memory for it can be had.\<close>

definition ticos_asprintf :: "('w, 'j) net_env \<Rightarrow> string \<Rightarrow> string option" where
  "ticos_asprintf env s = (if string_ok env s then Some s else None)"

definition prv_create_url :: "('w, 'j) net_env \<Rightarrow> sTicosdNetwork \<Rightarrow> string \<Rightarrow> string option" where
  "prv_create_url env handle endpoint = ticos_asprintf env (base_url handle @ endpoint)"

text \<open>\<open>None\<close>: nothing was received and the buffer is uninitialised; \<open>Some None\<close>: the parser refuses.\<close>

definition parse_field ::
  "'j json_lib \<Rightarrow> string \<Rightarrow> string \<Rightarrow> string option option" where
  "parse_field lib key recvdata =
     (if recvdata = [] then None
      else Some (do {
        payload_object \<leftarrow> json_tokener_parse lib (c_str recvdata);
        object \<leftarrow> json_object_object_get_ex lib payload_object key;
        if json_is_string lib object then Some (json_object_get_string lib object) else None
      }))"

definition prv_parse_file_upload_prepare_response :: "'j json_lib \<Rightarrow> string \<Rightarrow> string option option" where
  "prv_parse_file_upload_prepare_response lib recvdata = parse_field lib ''upload_url'' recvdata"

definition prv_parse_file_upload_response :: "'j json_lib \<Rightarrow> string \<Rightarrow> string option option" where
  "prv_parse_file_upload_response lib recvdata = parse_field lib ''url'' recvdata"

fun prv_method_as_string :: "eTicosdHttpMethod \<Rightarrow> string" where
  "prv_method_as_string kTicosdHttpMethod_POST = ''POST''"
| "prv_method_as_string kTicosdHttpMethod_PATCH = ''PATCH''"
| "prv_method_as_string kTicosdHttpMethod_GET = ''GET''"

definition post_request ::
  "sTicosdNetwork \<Rightarrow> string \<Rightarrow> eTicosdHttpMethod \<Rightarrow> string option \<Rightarrow> http_request" where
  "post_request handle url method payload =
     \<lparr>req_url = url, req_method = prv_method_as_string method,
      req_headers =
        (if method \<noteq> kTicosdHttpMethod_GET
         then [''Accept: application/json'', ''Content-Type: application/json''] else []) @
        [''charset: utf-8'', ''X-Tiwater-Debug: true'', project_key_header handle],
      req_body = (if method = kTicosdHttpMethod_GET then None else payload),
      req_form_file = None\<rparr>"

definition ticosd_network_post ::
  "('w, 'j) net_env \<Rightarrow> string \<Rightarrow> eTicosdHttpMethod \<Rightarrow> string option \<Rightarrow> bool \<Rightarrow> 'w net_state \<Rightarrow>
   (eTicosdNetworkResult \<times> string option) \<times> 'w net_state" where
  "ticosd_network_post env endpoint method payload want_data st =
     (case prv_create_url env (net st) endpoint of
        None \<Rightarrow> ((kTicosdNetworkResult_ErrorRetryLater, None), st)
      | Some url \<Rightarrow>
          let recv_buf = (if want_data then Some [] else None);
              ((res, http_code, recv_buf), w) =
                curl_easy_perform env (post_request (net st) url method payload) recv_buf (wire st);
              (result, handle) = prv_check_error (net st) res http_code;
              st = st\<lparr>net := handle, wire := w\<rparr>
          in if result = kTicosdNetworkResult_OK \<and> want_data then ((result, recv_buf), st)
             else ((result, None), st))"

definition prv_file_upload_prepare ::
  "('w, 'j) net_env \<Rightarrow> string \<Rightarrow> 'w net_state \<Rightarrow>
   ((eTicosdNetworkResult \<times> string option) \<times> 'w net_state) option" where
  "prv_file_upload_prepare env endpoint st =
     (let ((rc, recvdata), st) = ticosd_network_post env endpoint kTicosdHttpMethod_GET None True st in
      if rc \<noteq> kTicosdNetworkResult_OK then Some ((rc, None), st)
      else do {
        data \<leftarrow> recvdata;
        parsed \<leftarrow> prv_parse_file_upload_prepare_response (json env) data;
        case parsed of
          None \<Rightarrow> Some ((kTicosdNetworkResult_ErrorRetryLater, None), st)
        | Some url \<Rightarrow> Some ((kTicosdNetworkResult_OK, Some url), st)
      })"

definition upload_request :: "string \<Rightarrow> string \<Rightarrow> bool \<Rightarrow> http_request" where
  "upload_request url filename is_gzipped =
     \<lparr>req_url = url, req_method = ''POST'',
      req_headers = (if is_gzipped then [''Content-Encoding: gzip''] else []) @ [''X-Tiwater-Debug: true''],
      req_body = None, req_form_file = Some filename\<rparr>"

text \<open>The answer is parsed whatever the request returned, and a failure to parse it decides the result.\<close>

definition prv_file_upload ::
  "('w, 'j) net_env \<Rightarrow> string \<Rightarrow> string \<Rightarrow> bool \<Rightarrow> 'w net_state \<Rightarrow>
   ((eTicosdNetworkResult \<times> string option) \<times> 'w net_state) option" where
  "prv_file_upload env url filename is_gzipped st =
     (let ((res, http_code, recv_buf), w) =
            curl_easy_perform env (upload_request url filename is_gzipped) (Some []) (wire st);
          (rc, handle) = prv_check_error (net st) res http_code;
          st = st\<lparr>net := handle, wire := w\<rparr>
      in do {
        data \<leftarrow> recv_buf;
        parsed \<leftarrow> prv_parse_file_upload_response (json env) data;
        case parsed of
          None \<Rightarrow> Some ((kTicosdNetworkResult_ErrorRetryLater, None), st)
        | Some upload_url \<Rightarrow> Some ((rc, Some upload_url), st)
      })"

definition commit_payload :: "string \<Rightarrow> nat \<Rightarrow> string" where
  "commit_payload url filesize =
     ''{  \"url\": \"'' @ url @ ''\",  \"kind\": \"COREDUMP\",  \"size\": '' @
     show_int (sint (word_of_nat filesize :: 32 word)) @ ''}''"

definition prv_file_upload_commit ::
  "('w, 'j) net_env \<Rightarrow> string \<Rightarrow> string \<Rightarrow> nat \<Rightarrow> 'w net_state \<Rightarrow> eTicosdNetworkResult \<times> 'w net_state" where
  "prv_file_upload_commit env endpoint url filesize st =
     (case ticos_asprintf env (commit_payload url filesize) of
        None \<Rightarrow> (kTicosdNetworkResult_ErrorRetryLater, st)
      | Some payload \<Rightarrow>
          let ((rc, _), st) = ticosd_network_post env endpoint kTicosdHttpMethod_POST (Some payload) False st
          in (rc, st))"

definition prepare_endpoint :: "('w, 'j) net_env \<Rightarrow> sTicosdNetwork \<Rightarrow> string" where
  "prepare_endpoint env handle =
     ''/chunks/'' @ device_id env @ ''/fileUrl?type=Coredump&hardwareVersion='' @ hardware_version env @
     ''&softwareType='' @ software_type handle @ ''&softwareVersion='' @ software_version handle"

definition ticosd_network_file_upload ::
  "('w, 'j) net_env \<Rightarrow> string \<Rightarrow> string \<Rightarrow> bool \<Rightarrow> 'w net_state \<Rightarrow>
   (eTicosdNetworkResult \<times> 'w net_state) option" where
  "ticosd_network_file_upload env commit_endpoint filename is_gzipped st =
     (case file_sizes st filename of
        None \<Rightarrow> Some (kTicosdNetworkResult_ErrorNoRetry, st)
      | Some st_size \<Rightarrow>
          (case ticos_asprintf env (prepare_endpoint env (net st)) of
             None \<Rightarrow> Some (kTicosdNetworkResult_ErrorRetryLater, st)
           | Some path \<Rightarrow> do {
               ((rc, upload_url), st) \<leftarrow> prv_file_upload_prepare env path st;
               if rc \<noteq> kTicosdNetworkResult_OK then Some (rc, st)
               else do {
                   url \<leftarrow> upload_url;
                   ((rc, upload_url), st) \<leftarrow> prv_file_upload env url filename is_gzipped st;
                   if rc \<noteq> kTicosdNetworkResult_OK then Some (rc, st)
                   else do {
                     url \<leftarrow> upload_url;
                     let (rc, st) = prv_file_upload_commit env commit_endpoint url st_size st;
                     if rc \<noteq> kTicosdNetworkResult_OK then Some (rc, st)
                     else Some (kTicosdNetworkResult_OK, st\<lparr>file_sizes := (file_sizes st)(filename := None)\<rparr>)
                   }
                 }
             }))"

text \<open>
  \<open>get_string\<close> is \<^verbatim>\<open>ticosd_get_string\<close> on the top level of the configuration. The
  \<^verbatim>\<open>cleanup\<close> label reads the handle, so a failed allocation of it ends in a null dereference.
\<close>

definition ticosd_network_init ::
  "(string \<Rightarrow> bool) \<Rightarrow> bool \<Rightarrow> bool \<Rightarrow> (string \<Rightarrow> string option) \<Rightarrow> sTicosdNetwork option option" where
  "ticosd_network_init str_ok calloc_ok curl_ok get_string =
     (if \<not> calloc_ok then None
      else if \<not> curl_ok then Some None
      else Some (do {
        software_type \<leftarrow> get_string ''software_type'';
        if software_type = [] then None else do {
          software_version \<leftarrow> get_string ''software_version'';
          if software_version = [] then None else do {
            base_url \<leftarrow> get_string ''base_url'';
            if base_url = [] then None else do {
              project_key \<leftarrow> get_string ''project_key'';
              if project_key = [] then None
              else if \<not> str_ok (''Ticos-Project-Key: '' @ project_key) then None
              else Some \<lparr>during_network_failure = False, base_url = base_url,
                         project_key_header = ''Ticos-Project-Key: '' @ project_key,
                         software_type = software_type, software_version = software_version\<rparr>
            }
          }
        }
      }))"

section \<open>Exchanges\<close>

lemma receive_all: "receive rok cs b = (True, b') \<Longrightarrow> b' = map_option (\<lambda>b. b @ concat cs) b"
proof (induction cs arbitrary: b)
  case Nil
  then show ?case by (cases b) auto
next
  case (Cons c cs)
  then show ?case
    using Cons.IH [of "map_option (\<lambda>b. b @ c) b"]
    by (cases b) (auto simp: prv_network_write_callback_def Let_def split: if_splits)
qed

definition accepted_code :: "int \<Rightarrow> bool" where
  "accepted_code http_code \<longleftrightarrow> http_code < 400 \<or> 599 < http_code"

lemma check_error_OK:
  "fst (prv_check_error h res code) = kTicosdNetworkResult_OK \<longleftrightarrow> res = 0 \<and> accepted_code code"
  by (auto simp: prv_check_error_def accepted_code_def Let_def)

lemma check_error_handle:
  "snd (prv_check_error h res code) = h\<lparr>during_network_failure := (res \<noteq> 0)\<rparr>"
  by (cases h) (simp add: prv_check_error_def prv_log_first_failed_request_def
      prv_log_first_succeeded_request_def Let_def)

lemma perform_OK:
  assumes "curl_easy_perform env req b w = ((0, code, b'), w')"
  obtains chunks where "perform env req w = ((0, code, chunks), w')"
    and "b' = map_option (\<lambda>b. b @ concat chunks) b"
  using assms receive_all
  by (fastforce simp: curl_easy_perform_def CURLE_WRITE_ERROR_def Let_def split: prod.splits if_splits)

lemma post_OK:
  assumes "ticosd_network_post env endpoint method payload want st =
      ((kTicosdNetworkResult_OK, data), st')"
  obtains code chunks where
    "perform env (post_request (net st) (base_url (net st) @ endpoint) method payload) (wire st) =
       ((0, code, chunks), wire st')"
    and "accepted_code code" and "data = (if want then Some (concat chunks) else None)"
    and "net st' = (net st)\<lparr>during_network_failure := False\<rparr>" and "file_sizes st' = file_sizes st"
proof -
  let ?req = "post_request (net st) (base_url (net st) @ endpoint) method payload"
  from assms have ok: "prv_create_url env (net st) endpoint = Some (base_url (net st) @ endpoint)"
    by (auto simp: ticosd_network_post_def prv_create_url_def ticos_asprintf_def split: if_splits)
  obtain res code b w where c:
      "curl_easy_perform env ?req (if want then Some [] else None) (wire st) = ((res, code, b), w)"
    by (metis prod.collapse)
  have r: "fst (prv_check_error (net st) res code) = kTicosdNetworkResult_OK"
    using assms ok c by (auto simp: ticosd_network_post_def Let_def split: prod.splits if_splits)
  then have res: "res = 0" "accepted_code code" by (simp_all add: check_error_OK)
  have st': "st' = st\<lparr>net := (net st)\<lparr>during_network_failure := False\<rparr>, wire := w\<rparr>"
    and d: "data = (if want then b else None)"
    using assms ok c r check_error_handle [of "net st" res code] res
    by (auto simp: ticosd_network_post_def Let_def split: prod.splits if_splits)
  obtain chunks where "perform env ?req (wire st) = ((0, code, chunks), w)"
    "b = map_option (\<lambda>b. b @ concat chunks) (if want then Some [] else None)"
    using c res(1) by (metis perform_OK)
  with that res st' d show ?thesis by (auto split: if_splits)
qed

lemma post_keeps_files: "file_sizes (snd (ticosd_network_post env ep m p want st)) = file_sizes st"
  by (auto simp: ticosd_network_post_def Let_def split: option.splits prod.splits)

section \<open>Uploads\<close>

lemma prepare_files:
  "prv_file_upload_prepare env ep st = Some (r, st') \<Longrightarrow> file_sizes st' = file_sizes st"
  using post_keeps_files [of env ep kTicosdHttpMethod_GET None True st]
  by (auto simp: prv_file_upload_prepare_def Let_def
      split: prod.splits if_splits bind_splits option.splits)

lemma upload_files:
  "prv_file_upload env url f gz st = Some (r, st') \<Longrightarrow> file_sizes st' = file_sizes st"
  by (auto simp: prv_file_upload_def Let_def split: prod.splits bind_splits option.splits)

lemma commit_files: "file_sizes (snd (prv_file_upload_commit env ep url n st)) = file_sizes st"
  using post_keeps_files [of env ep kTicosdHttpMethod_POST "Some (commit_payload url n)" False st]
  by (auto simp: prv_file_upload_commit_def ticos_asprintf_def Let_def split: prod.splits option.splits if_splits)

text \<open>What the parsers of the two responses find: the string under the key.\<close>

definition response_field :: "'j json_lib \<Rightarrow> string \<Rightarrow> string \<Rightarrow> string option" where
  "response_field lib key body = do {
     p \<leftarrow> json_tokener_parse lib (c_str body);
     ob \<leftarrow> json_object_object_get_ex lib p key;
     if json_is_string lib ob then Some (json_object_get_string lib ob) else None
   }"

lemma parse_field_eq: "parse_field lib key body = (if body = [] then None else Some (response_field lib key body))"
  by (simp add: parse_field_def response_field_def)

lemma prepare_OK:
  assumes "prv_file_upload_prepare env ep st = Some ((kTicosdNetworkResult_OK, u), st')"
  obtains code chunks url where
    "perform env (post_request (net st) (base_url (net st) @ ep) kTicosdHttpMethod_GET None) (wire st) =
       ((0, code, chunks), wire st')"
    and "accepted_code code" and "response_field (json env) ''upload_url'' (concat chunks) = Some url"
    and "u = Some url" and "net st' = (net st)\<lparr>during_network_failure := False\<rparr>"
proof -
  obtain data where p: "ticosd_network_post env ep kTicosdHttpMethod_GET None True st =
      ((kTicosdNetworkResult_OK, data), st')"
    using assms
    by (auto simp: prv_file_upload_prepare_def Let_def split: prod.splits if_splits bind_splits option.splits)
  from post_OK [OF p] obtain code chunks where c:
    "perform env (post_request (net st) (base_url (net st) @ ep) kTicosdHttpMethod_GET None) (wire st) =
       ((0, code, chunks), wire st')"
    "accepted_code code" "data = Some (concat chunks)" "net st' = (net st)\<lparr>during_network_failure := False\<rparr>"
    by (metis (full_types))
  from assms p c(3) obtain url where "response_field (json env) ''upload_url'' (concat chunks) = Some url" "u = Some url"
    by (auto simp: prv_file_upload_prepare_def prv_parse_file_upload_prepare_response_def parse_field_eq
        split: bind_splits option.splits if_splits)
  with that c show ?thesis by blast
qed

lemma upload_OK:
  assumes "prv_file_upload env url f gz st = Some ((kTicosdNetworkResult_OK, u), st')"
  obtains code chunks url' where
    "perform env (upload_request url f gz) (wire st) = ((0, code, chunks), wire st')"
    and "accepted_code code" and "response_field (json env) ''url'' (concat chunks) = Some url'"
    and "u = Some url'" and "net st' = (net st)\<lparr>during_network_failure := False\<rparr>"
proof -
  obtain res code b w where c: "curl_easy_perform env (upload_request url f gz) (Some []) (wire st) = ((res, code, b), w)"
    by (metis prod.collapse)
  obtain rc h where e: "prv_check_error (net st) res code = (rc, h)" by (cases "prv_check_error (net st) res code")
  from assms c e obtain data url' where d: "b = Some data" "data \<noteq> []"
      "response_field (json env) ''url'' data = Some url'" "u = Some url'" "rc = kTicosdNetworkResult_OK"
      "st' = st\<lparr>net := h, wire := w\<rparr>"
    by (auto simp: prv_file_upload_def prv_parse_file_upload_response_def parse_field_eq Let_def
        split: bind_splits option.splits if_splits)
  have ok: "res = 0" "accepted_code code" "h = (net st)\<lparr>during_network_failure := False\<rparr>"
    using check_error_OK [of "net st" res code] check_error_handle [of "net st" res code] e d(5) by auto
  obtain chunks where "perform env (upload_request url f gz) (wire st) = ((0, code, chunks), w)"
    "b = Some (concat chunks)"
    using c ok(1) perform_OK by (metis append_Nil option.map(2))
  with that ok d show ?thesis by simp
qed

lemma commit_OK:
  assumes "prv_file_upload_commit env ep url n st = (kTicosdNetworkResult_OK, st')"
  obtains code chunks where
    "perform env (post_request (net st) (base_url (net st) @ ep) kTicosdHttpMethod_POST
       (Some (commit_payload url n))) (wire st) = ((0, code, chunks), wire st')"
    and "accepted_code code"
proof -
  have "fst (fst (ticosd_network_post env ep kTicosdHttpMethod_POST (Some (commit_payload url n)) False st)) =
      kTicosdNetworkResult_OK \<and>
      snd (ticosd_network_post env ep kTicosdHttpMethod_POST (Some (commit_payload url n)) False st) = st'"
    using assms by (auto simp: prv_file_upload_commit_def ticos_asprintf_def Let_def split: prod.splits if_splits)
  then obtain d where "ticosd_network_post env ep kTicosdHttpMethod_POST (Some (commit_payload url n)) False st =
      ((kTicosdNetworkResult_OK, d), st')"
    by (metis prod.collapse)
  from post_OK [OF this] that show ?thesis by metis
qed

section \<open>Properties\<close>

text \<open>
  C6. A core file is deleted only after it was delivered. When
  \<^verbatim>\<open>ticosd_network_file_upload\<close> does not report success, every file is still there. When it does,
  exactly that file is gone and three exchanges were accepted by the server, in this order: the
  request for an upload address, the upload to the address the server named, and the commit of
  the address the upload returned with the size of the file.
\<close>

theorem upload_deletes_only_delivered:
  assumes "ticosd_network_file_upload env ep f gz st = Some (rc, st')"
  shows "file_sizes st' =
      (if rc = kTicosdNetworkResult_OK then (file_sizes st)(f := None) else file_sizes st) \<and>
    (rc = kTicosdNetworkResult_OK \<longrightarrow>
      (\<exists>n c1 b1 url w1 c2 b2 url' w2 c3 b3.
         file_sizes st f = Some n \<and>
         perform env (post_request (net st) (base_url (net st) @ prepare_endpoint env (net st))
           kTicosdHttpMethod_GET None) (wire st) = ((0, c1, b1), w1) \<and> accepted_code c1 \<and>
         response_field (json env) ''upload_url'' (concat b1) = Some url \<and>
         perform env (upload_request url f gz) w1 = ((0, c2, b2), w2) \<and> accepted_code c2 \<and>
         response_field (json env) ''url'' (concat b2) = Some url' \<and>
         perform env (post_request ((net st)\<lparr>during_network_failure := False\<rparr>) (base_url (net st) @ ep)
           kTicosdHttpMethod_POST (Some (commit_payload url' n))) w2 = ((0, c3, b3), wire st') \<and>
         accepted_code c3))"
proof -
  consider (early) "st' = st" "rc \<noteq> kTicosdNetworkResult_OK"
    | (steps) n r1 u1 st1 where "file_sizes st f = Some n"
        "prv_file_upload_prepare env (prepare_endpoint env (net st)) st = Some ((r1, u1), st1)"
        "ticos_asprintf env (prepare_endpoint env (net st)) = Some (prepare_endpoint env (net st))"
    using assms
    by (fastforce simp: ticosd_network_file_upload_def ticos_asprintf_def
        split: option.splits if_splits bind_splits)
  then show ?thesis
  proof cases
    case steps
    note s = assms [unfolded ticosd_network_file_upload_def steps(1,3) option.case steps(2)]
    note f1 = prepare_files [OF steps(2)]
    show ?thesis
    proof (cases "r1 = kTicosdNetworkResult_OK")
      case False
      then show ?thesis using s f1 by simp
    next
      case r1: True
      from steps(2) r1 obtain c1 b1 url where p:
        "perform env (post_request (net st) (base_url (net st) @ prepare_endpoint env (net st))
           kTicosdHttpMethod_GET None) (wire st) = ((0, c1, b1), wire st1)" "accepted_code c1"
        "response_field (json env) ''upload_url'' (concat b1) = Some url" "u1 = Some url"
        "net st1 = (net st)\<lparr>during_network_failure := False\<rparr>"
        using prepare_OK by metis
      with s r1 obtain r2 u2 st2 where u: "prv_file_upload env url f gz st1 = Some ((r2, u2), st2)"
        by (auto split: bind_splits)
      note f2 = upload_files [OF u]
      show ?thesis
      proof (cases "r2 = kTicosdNetworkResult_OK")
        case False
        then show ?thesis using s r1 p(4) u f1 f2 by simp
      next
        case r2: True
        with u obtain c2 b2 url' where q:
          "perform env (upload_request url f gz) (wire st1) = ((0, c2, b2), wire st2)" "accepted_code c2"
          "response_field (json env) ''url'' (concat b2) = Some url'" "u2 = Some url'"
          "net st2 = (net st1)\<lparr>during_network_failure := False\<rparr>"
          using upload_OK by metis
        obtain r3 st3 where m: "prv_file_upload_commit env ep url' n st2 = (r3, st3)" by fastforce
        note f3 = commit_files [of env ep url' n st2, unfolded m snd_conv]
        show ?thesis
        proof (cases "r3 = kTicosdNetworkResult_OK")
          case False
          then show ?thesis using s r1 r2 p(4) q(4) u m f1 f2 f3 by simp
        next
          case r3: True
          obtain c3 b3 where "perform env (post_request (net st2) (base_url (net st2) @ ep) kTicosdHttpMethod_POST
              (Some (commit_payload url' n))) (wire st2) = ((0, c3, b3), wire st3)" "accepted_code c3"
            using commit_OK m r3 by metis
          then show ?thesis using s r1 r2 r3 p q u m f1 f2 f3 steps(1) by auto
        qed
      qed
    qed
  qed simp
qed

text \<open>A server and a parser to try the client on: the answers name the two addresses.\<close>

definition sample_json :: "string json_lib" where
  "sample_json = \<lparr>json_tokener_parse = Some,
     json_object_object_get_ex =
       (\<lambda>j key. if take (length key) j = key then Some (drop (Suc (length key)) j) else None),
     json_is_string = (\<lambda>_. True), json_object_get_string = (\<lambda>j. j)\<rparr>"

definition sample_net :: sTicosdNetwork where
  "sample_net = \<lparr>during_network_failure = False, base_url = ''http://h'', project_key_header = ''k'',
     software_type = ''t'', software_version = ''v''\<rparr>"

definition sample_env :: "(http_request list, string) net_env" where
  "sample_env = \<lparr>perform = (\<lambda>req w.
       ((0, 200, if req_method req = ''GET'' then [''upload_url='', ''http://up''] else [''url=http://done'']),
        w @ [req])),
     json = sample_json, string_ok = (\<lambda>_. True), realloc_ok = (\<lambda>_. True), device_id = ''d'',
     hardware_version = ''hw''\<rparr>"

definition sample_state :: "http_request list net_state" where
  "sample_state = \<lparr>net = sample_net, wire = [], file_sizes = [''core'' \<mapsto> 5, ''other'' \<mapsto> 6]\<rparr>"

theorem upload_deletes_only_delivered_witness:
  "\<exists>st'. ticosd_network_file_upload sample_env ''/commit'' ''core'' True sample_state =
       Some (kTicosdNetworkResult_OK, st') \<and>
     file_sizes st' = [''other'' \<mapsto> 6] \<and>
     (\<exists>n c1 b1 url w1. file_sizes sample_state ''core'' = Some n \<and>
        perform sample_env (post_request (net sample_state)
          (base_url (net sample_state) @ prepare_endpoint sample_env (net sample_state))
          kTicosdHttpMethod_GET None) (wire sample_state) = ((0, c1, b1), w1) \<and> accepted_code c1)"
proof -
  have "map_option fst (ticosd_network_file_upload sample_env ''/commit'' ''core'' True sample_state) =
      Some kTicosdNetworkResult_OK"
    by code_simp
  then obtain st' where s: "ticosd_network_file_upload sample_env ''/commit'' ''core'' True sample_state =
      Some (kTicosdNetworkResult_OK, st')"
    by auto
  have "(file_sizes sample_state)(''core'' := None) = [''other'' \<mapsto> 6]"
    by (simp add: sample_state_def fun_upd_twist)
  with upload_deletes_only_delivered [OF s] s show ?thesis by auto
qed

text \<open>
  An upload that the server rejects with a client error is reported as worth retrying when
  the body of the rejection is not the JSON object the client expects, although client errors
  are meant to be final: the entry stays at the head of the queue.
\<close>

theorem rejected_upload_retried:
  assumes "perform env (upload_request url f gz) (wire st) = ((0, code, chunks), w)"
    and "400 \<le> code" and "code \<le> 499" and "\<forall>n. realloc_ok env n" and "concat chunks \<noteq> []"
    and "response_field (json env) ''url'' (concat chunks) = None"
  shows "\<exists>st'. prv_file_upload env url f gz st = Some ((kTicosdNetworkResult_ErrorRetryLater, None), st') \<and>
           fst (prv_check_error (net st) 0 code) = kTicosdNetworkResult_ErrorNoRetry"
proof -
  have "receive (realloc_ok env) cs (Some b) = (True, Some (b @ concat cs))" for cs b
    using assms(4) by (induction cs arbitrary: b) (simp_all add: prv_network_write_callback_def Let_def)
  with assms(1) have "curl_easy_perform env (upload_request url f gz) (Some []) (wire st) =
      ((0, code, Some (concat chunks)), w)"
    by (simp add: curl_easy_perform_def)
  with assms(2,3,5,6) show ?thesis
    by (auto simp: prv_file_upload_def prv_parse_file_upload_response_def parse_field_eq prv_check_error_def Let_def)
qed

definition rejecting_env :: "(http_request list, string) net_env" where
  "rejecting_env = sample_env\<lparr>perform := (\<lambda>req w. ((0, 413, [''too large'']), w @ [req]))\<rparr>"

theorem rejected_upload_retried_witness:
  "\<exists>st'. prv_file_upload rejecting_env ''http://up'' ''core'' False sample_state =
     Some ((kTicosdNetworkResult_ErrorRetryLater, None), st')"
proof -
  have p: "perform rejecting_env r w = ((0, 413, [''too large'']), w @ [r])" for r w
    by (simp add: rejecting_env_def)
  have "response_field (json rejecting_env) ''url'' (concat [''too large'']) = None"
    by code_simp
  moreover have "\<forall>n. realloc_ok rejecting_env n" by (simp add: rejecting_env_def sample_env_def)
  ultimately show ?thesis using rejected_upload_retried [OF p] by fastforce
qed

end
