(* ===== verification/Ticosd.thy ===== *)
theory Ticosd
  imports Queue_Properties Network
begin

text \<open>
  The daemon's core (src/ticosd.c): what the plugins hand to the transmit queue, how the main
  loop empties the queue over the network, and how long it waits between attempts. The emptying
  loop is proved once against the queue contract \<open>fifo_queue\<close> and used on the ring. \<open>None\<close> is
  undefined behaviour: an entry without the terminating NUL its payload is read up to, a time
  that does not fit its buffer, or an overflow of an \<^verbatim>\<open>int\<close>.
\<close>

section \<open>Entries of the transmit queue\<close>

datatype eTicosdTxDataType =
    kTicosdTxDataType_RebootEvent
  | kTicosdTxDataType_CoreUpload
  | kTicosdTxDataType_CoreUploadWithGzip
  | kTicosdTxDataType_Attributes

fun txdata_type :: "eTicosdTxDataType \<Rightarrow> byte" where
  "txdata_type kTicosdTxDataType_RebootEvent = of_char (CHR ''R'')"
| "txdata_type kTicosdTxDataType_CoreUpload = of_char (CHR ''C'')"
| "txdata_type kTicosdTxDataType_CoreUploadWithGzip = of_char (CHR ''c'')"
| "txdata_type kTicosdTxDataType_Attributes = of_char (CHR ''A'')"

text \<open>\<^verbatim>\<open>sTicosdTxData\<close>: the type and the payload, packed.\<close>

record sTicosdTxData =
  tx_type :: byte
  payload :: "byte list"

definition txdata_bytes :: "sTicosdTxData \<Rightarrow> byte list" where
  "txdata_bytes data = tx_type data # payload data"

text \<open>
  \<open>allowed\<close> is what \<^verbatim>\<open>ticosd_get_boolean\<close> finds for \<^verbatim>\<open>enable_data_collection\<close>.
\<close>

definition ticosd_txdata ::
  "bool option \<Rightarrow> sTicosdQueue \<Rightarrow> sTicosdTxData \<Rightarrow> nat \<Rightarrow> (bool \<times> sTicosdQueue) option" where
  "ticosd_txdata allowed q data payload_size =
     (if allowed \<noteq> Some True then Some (True, q)
      else ticosd_queue_write q (Some (txdata_bytes data)) (u32_of (1 + payload_size)))"

text \<open>The characters of a NUL-terminated string stored in an entry.\<close>

definition entry_str :: "byte list \<Rightarrow> string option" where
  "entry_str bs = (if 0 \<in> set bs then Some (map (\<lambda>b. char_of (unat b)) (takeWhile (\<lambda>b. b \<noteq> 0) bs)) else None)"

lemma unat_of_char: "unat (of_char c :: byte) = of_char c"
proof -
  have "(of_char c :: byte) = word_of_nat (of_char c)" by (simp add: of_nat_of_char)
  moreover have "of_char c < (256 :: nat)" by (metis mod_less_divisor of_char_mod_256 zero_less_numeral)
  ultimately show ?thesis by (simp only: unat_of_nat) simp
qed

lemma entry_str_c_bytes:
  assumes "CHR 0x00 \<notin> set s"
  shows "entry_str (c_bytes s @ 0 # r) = Some s"
proof -
  have "of_char c \<noteq> (0 :: byte)" if "c \<in> set s" for c
  proof
    assume "of_char c = (0 :: byte)"
    then have "of_char c = (0 :: nat)" using unat_of_char [of c] by simp
    then have "of_char c = (of_char (CHR 0x00) :: nat)" by simp
    then have "c = CHR 0x00" by (simp only: of_char_eq_iff)
    with that assms show False by simp
  qed
  then have "takeWhile (\<lambda>b. b \<noteq> 0) (c_bytes s @ 0 # r) = c_bytes s"
    by (auto simp: c_bytes_def takeWhile_append)
  then show ?thesis by (simp add: entry_str_def c_bytes_def unat_of_char comp_def)
qed

section \<open>Time stamps\<close>

text \<open>
  \<^verbatim>\<open>strftime\<close> with \<^verbatim>\<open>%FT%TZ\<close> of \<^verbatim>\<open>gmtime\<close>: the proleptic Gregorian date of a number of days since
  the epoch, counted in eras of 400 years that start on 1 March, and the time of the day. The
  buffer has room for years of four digits.
\<close>

definition civil_from_days :: "int \<Rightarrow> int \<times> int \<times> int" where
  "civil_from_days z =
     (let z = z + 719468;
          era = z div 146097;
          doe = z mod 146097;
          yoe = (doe - doe div 1460 + doe div 36524 - doe div 146096) div 365;
          doy = doe - (365 * yoe + yoe div 4 - yoe div 100);
          mp = (5 * doy + 2) div 153;
          d = doy - (153 * mp + 2) div 5 + 1;
          m = (if mp < 10 then mp + 3 else mp - 9)
      in (yoe + era * 400 + (if m \<le> 2 then 1 else 0), m, d))"

definition pad_int :: "nat \<Rightarrow> int \<Rightarrow> string" where
  "pad_int w z = (let s = show_int z in replicate (w - length s) (CHR ''0'') @ s)"

definition iso_timestamp :: "int \<Rightarrow> string option" where
  "iso_timestamp t =
     (let (y, m, d) = civil_from_days (t div 86400); s = t mod 86400 in
      if 1000 \<le> y \<and> y \<le> 9999
      then Some (pad_int 4 y @ ''-'' @ pad_int 2 m @ ''-'' @ pad_int 2 d @ ''T'' @
                 pad_int 2 (s div 3600) @ '':'' @ pad_int 2 (s div 60 mod 60) @ '':'' @ pad_int 2 (s mod 60) @ ''Z'')
      else None)"

section \<open>Sending one entry\<close>

text \<open>
  The body of the loop in \<^verbatim>\<open>prv_ticosd_process_tx_queue\<close>: the request made for an entry, by its
  type. An entry of unknown type is not retried.
\<close>

definition post_entry ::
  "('w, 'j) net_env \<Rightarrow> string \<Rightarrow> eTicosdHttpMethod \<Rightarrow> byte list \<Rightarrow> 'w net_state \<Rightarrow>
   (eTicosdNetworkResult \<times> 'w net_state) option" where
  "post_entry env path method data st =
     (case ticos_asprintf env path of
        None \<Rightarrow> Some (kTicosdNetworkResult_ErrorRetryLater, st)
      | Some path \<Rightarrow> do {
          body \<leftarrow> entry_str data;
          let ((rc, _), st) = ticosd_network_post env path method (Some body) False st;
          Some (rc, st)
        })"

definition send_entry ::
  "('w, 'j) net_env \<Rightarrow> byte list \<Rightarrow> 'w net_state \<Rightarrow> (eTicosdNetworkResult \<times> 'w net_state) option" where
  "send_entry env entry st =
     (case entry of
        [] \<Rightarrow> None
      | ty # data \<Rightarrow>
          if ty = txdata_type kTicosdTxDataType_RebootEvent
          then post_entry env (''/chunks/'' @ device_id env @ ''/json'') kTicosdHttpMethod_POST data st
          else if ty = txdata_type kTicosdTxDataType_CoreUpload \<or>
                  ty = txdata_type kTicosdTxDataType_CoreUploadWithGzip
          then (case ticos_asprintf env (''/chunks/'' @ device_id env @ ''/url'') of
                  None \<Rightarrow> Some (kTicosdNetworkResult_ErrorRetryLater, st)
                | Some path \<Rightarrow> do {
                    filename \<leftarrow> entry_str data;
                    ticosd_network_file_upload env path filename
                      (ty = txdata_type kTicosdTxDataType_CoreUploadWithGzip) st
                  })
          else if ty = txdata_type kTicosdTxDataType_Attributes then do {
            stamp \<leftarrow> mem_read data 0 8;
            iso \<leftarrow> iso_timestamp (sint (word_of_nat (le_nat stamp) :: u64));
            post_entry env
              (''/api/v0/attributes?device_serial='' @ device_id env @ ''&captured_date='' @ iso)
              kTicosdHttpMethod_PATCH (drop 8 data) st
          }
          else Some (kTicosdNetworkResult_ErrorNoRetry, st))"

section \<open>Emptying the queue\<close>

partial_function (option) tx_loop ::
  "('q \<Rightarrow> ('m option \<times> 'q) option) \<Rightarrow> ('q \<Rightarrow> (bool \<times> 'q) option) \<Rightarrow>
   ('m \<Rightarrow> 'n \<Rightarrow> (eTicosdNetworkResult \<times> 'n) option) \<Rightarrow> nat \<Rightarrow> 'q \<Rightarrow> 'n \<Rightarrow> (bool \<times> nat \<times> 'q \<times> 'n) option" where
  "tx_loop rd cp send count q n = do {
     (entry, q) \<leftarrow> rd q;
     case entry of
       None \<Rightarrow> Some (True, count, q, n)
     | Some x \<Rightarrow> do {
         (rc, n) \<leftarrow> send x n;
         if rc = kTicosdNetworkResult_OK \<or> rc = kTicosdNetworkResult_ErrorNoRetry
         then do {
           (_, q) \<leftarrow> cp q;
           tx_loop rd cp send (u32_of (count + 1)) q n
         }
         else Some (False, count, q, n)
       }
   }"

declare tx_loop.simps [code]

definition prv_ticosd_process_tx_queue ::
  "bool option \<Rightarrow> (nat \<Rightarrow> bool) \<Rightarrow> ('w, 'j) net_env \<Rightarrow> sTicosdQueue \<Rightarrow> 'w net_state \<Rightarrow>
   (bool \<times> sTicosdQueue \<times> 'w net_state) option" where
  "prv_ticosd_process_tx_queue allowed malloc_ok env q st =
     (if allowed \<noteq> Some True then Some (True, q, st)
      else do {
        (ok, _, q, st) \<leftarrow>
          tx_loop (ticosd_queue_read_head malloc_ok) ticosd_queue_complete_read (send_entry env) 0 q st;
        Some (ok, q, st)
      })"

text \<open>
  What emptying a queue should do: send the entries in order, drop each one that was accepted or
  must not be retried, and stop at the first one to be retried later.
\<close>

fun drain :: "('m \<Rightarrow> 'n \<Rightarrow> (eTicosdNetworkResult \<times> 'n) option) \<Rightarrow> 'm list \<Rightarrow> 'n \<Rightarrow> (bool \<times> 'm list \<times> 'n) option" where
  "drain send [] n = Some (True, [], n)"
| "drain send (x # xs) n = do {
     (rc, n) \<leftarrow> send x n;
     if rc = kTicosdNetworkResult_ErrorRetryLater then Some (False, x # xs, n) else drain send xs n
   }"

context fifo_queue
begin

lemma tx_loop_drains:
  assumes "rep q xs" and "drain send xs n = Some (ok, ys, n')"
  shows "\<exists>c' q'. tx_loop read_head complete_read send c q n = Some (ok, c', q', n') \<and> rep q' ys"
  using assms
proof (induction xs arbitrary: q n c)
  case Nil
  then show ?case by (subst tx_loop.simps) (simp add: read_empty)
next
  case (Cons x xs)
  from read_front [OF Cons.prems(1)] obtain q1 where q1:
    "read_head q = Some (Some x, q1)" "rep q1 (x # xs)" "armed q1" by blast
  from complete_pop [OF q1(2,3)] obtain q2 where q2: "complete_read q1 = Some (True, q2)" "rep q2 xs" by blast
  from Cons.prems(2) obtain rc n1 where s: "send x n = Some (rc, n1)" by (auto split: bind_splits)
  show ?case
  proof (cases "rc = kTicosdNetworkResult_ErrorRetryLater")
    case True
    with Cons.prems(2) s q1 show ?thesis by (subst tx_loop.simps) auto
  next
    case False
    then have "rc = kTicosdNetworkResult_OK \<or> rc = kTicosdNetworkResult_ErrorNoRetry" by (cases rc) auto
    with False Cons.prems(2) s q1(1) q2 Cons.IH [OF q2(2), of n1 "u32_of (c + 1)"] show ?thesis
      by (subst tx_loop.simps) auto
  qed
qed

end

section \<open>Waiting between attempts\<close>

definition NETWORK_FAILURE_FIRST_BACKOFF_SECONDS :: int where "NETWORK_FAILURE_FIRST_BACKOFF_SECONDS = 60"
definition NETWORK_FAILURE_BACKOFF_MULTIPLIER :: int where "NETWORK_FAILURE_BACKOFF_MULTIPLIER = 2"

record loop_state =
  next_telemetry_poll :: int
  override_interval :: int

definition loop_init :: loop_state where
  "loop_init = \<lparr>next_telemetry_poll = 0, override_interval = NETWORK_FAILURE_FIRST_BACKOFF_SECONDS\<rparr>"

text \<open>
  One turn of \<^verbatim>\<open>prv_ticosd_process_loop\<close>: the time of the wake-up, the configured interval if there
  is one, the outcome of emptying the queue, the time afterwards and whether a signal asked the
  daemon to stop. The result is the number of seconds slept, if it sleeps.
\<close>

definition process_iteration ::
  "int \<Rightarrow> int option \<Rightarrow> bool \<Rightarrow> int \<Rightarrow> bool \<Rightarrow> loop_state \<Rightarrow> (nat option \<times> loop_state) option" where
  "process_iteration last_wakeup configured tx_ok now terminate ls = do {
     let interval = (case configured of None \<Rightarrow> 1 * 60 * 60 | Some i \<Rightarrow> i);
     let ls = (if next_telemetry_poll ls + interval \<ge> last_wakeup
               then ls\<lparr>next_telemetry_poll := last_wakeup + interval\<rparr> else ls);
     (interval, ls) \<leftarrow>
       (if tx_ok then Some (interval, ls\<lparr>override_interval := NETWORK_FAILURE_FIRST_BACKOFF_SECONDS\<rparr>)
        else do {
          let interval = min (override_interval ls) interval;
          doubled \<leftarrow> int_of_c (override_interval ls * NETWORK_FAILURE_BACKOFF_MULTIPLIER);
          Some (interval, ls\<lparr>override_interval := doubled\<rparr>)
        });
     if \<not> terminate \<and> last_wakeup + interval > now
     then Some (Some (u32_of (nat (last_wakeup + interval - now))), ls)
     else Some (None, ls)
   }"

text \<open>Turns in which every attempt fails, at once; the seconds slept after each.\<close>

fun failing_turns :: "int option \<Rightarrow> int list \<Rightarrow> loop_state \<Rightarrow> nat option list option" where
  "failing_turns configured [] ls = Some []"
| "failing_turns configured (t # ts) ls = do {
     (s, ls) \<leftarrow> process_iteration t configured False t False ls;
     ss \<leftarrow> failing_turns configured ts ls;
     Some (s # ss)
   }"

lemma failing_turn:
  assumes "0 < i" and "i \<le> INT_MAX" and "override_interval ls = 60 * 2 ^ k" and "k < 25"
  shows "\<exists>ls'. process_iteration t (Some i) False t False ls =
           Some (Some (nat (min (60 * 2 ^ k) i)), ls') \<and> override_interval ls' = 60 * 2 ^ Suc k"
proof -
  have "(2 :: int) ^ Suc k \<le> 2 ^ 25" using assms(4) by (intro power_increasing) simp_all
  then have b: "60 * 2 ^ k * 2 \<le> INT_MAX" by (simp add: INT_MAX_def)
  then have d: "int_of_c (60 * 2 ^ k * 2) = Some (60 * 2 ^ k * 2)"
    using order_trans [of "- (2 ^ 31)" 0 "60 * 2 ^ k * (2 :: int)"] by (simp add: int_of_c_def INT_MIN_def)
  have "nat (min (60 * 2 ^ k) i) \<le> nat i" by (intro nat_mono) simp
  also have "nat i < 2 ^ 32" using assms(2) by (simp add: INT_MAX_def)
  finally have u: "u32_of (nat (min (60 * 2 ^ k) i)) = nat (min (60 * 2 ^ k) i)"
    by (rule u32_of_id)
  have p: "0 < min (60 * 2 ^ k) i" using assms(1) by simp
  show ?thesis
    using d u p assms(1,3)
    by (cases "60 * 2 ^ k \<le> i")
      (simp_all add: process_iteration_def Let_def NETWORK_FAILURE_BACKOFF_MULTIPLIER_def min_def)
qed

lemma failing_turns_eq:
  assumes "0 < i" and "i \<le> INT_MAX" and "override_interval ls = 60 * 2 ^ k" and "k + length ts \<le> 25"
  shows "failing_turns (Some i) ts ls =
           Some (map (\<lambda>j. Some (nat (min (60 * 2 ^ (k + j)) i))) [0..<length ts])"
  using assms(3,4)
proof (induction ts arbitrary: ls k)
  case (Cons t ts)
  then obtain ls' where "process_iteration t (Some i) False t False ls =
      Some (Some (nat (min (60 * 2 ^ k) i)), ls')" "override_interval ls' = 60 * 2 ^ Suc k"
    using failing_turn [OF assms(1,2), of ls k t] by auto
  with Cons.IH [of ls' "Suc k"] Cons.prems(2) show ?case
    by (simp add: upt_conv_Cons comp_def del: upt_Suc power_Suc flip: map_Suc_upt)
qed simp

lemma failing_turn_overflows:
  "override_interval ls = 60 * 2 ^ 25 \<Longrightarrow> process_iteration t configured False t' terminate ls = None"
  by (simp add: process_iteration_def Let_def NETWORK_FAILURE_BACKOFF_MULTIPLIER_def int_of_c_def INT_MAX_def)

lemma failing_turns_None:
  assumes "0 < i" and "i \<le> INT_MAX" and "override_interval ls = 60 * 2 ^ k" and "25 < k + length ts" and "k \<le> 25"
  shows "failing_turns (Some i) ts ls = None"
  using assms(3-5)
proof (induction ts arbitrary: ls k)
  case (Cons t ts)
  show ?case
  proof (cases "k = 25")
    case True
    with Cons.prems(1) failing_turn_overflows show ?thesis by simp
  next
    case False
    with Cons.prems obtain ls' where "process_iteration t (Some i) False t False ls =
        Some (Some (nat (min (60 * 2 ^ k) i)), ls')" "override_interval ls' = 60 * 2 ^ Suc k"
      using failing_turn [OF assms(1,2), of ls k t] by auto
    with Cons.IH [of ls' "Suc k"] Cons.prems False show ?thesis by (simp del: power_Suc)
  qed
qed simp

section \<open>Properties\<close>

text \<open>
  C4. Emptying the queue. When data collection is allowed and the handle represents the entries
  \<open>xs\<close>, \<^verbatim>\<open>prv_ticosd_process_tx_queue\<close> returns; it sends the entries in order, removes each one that
  was accepted or must not be retried, stops at the first one to retry later and leaves that one
  and everything behind it in the queue, and reports whether it reached the end.
\<close>

theorem process_tx_queue_drains:
  assumes "rep q xs" and "drain (send_entry env) xs st = Some (ok, ys, st')"
  shows "\<exists>q'. prv_ticosd_process_tx_queue (Some True) (\<lambda>_. True) env q st = Some (ok, q', st') \<and> rep q' ys"
  using txq.tx_loop_drains [OF assms, of 0] by (auto simp: prv_ticosd_process_tx_queue_def)

definition sample_event :: "byte list" where
  "sample_event = txdata_bytes \<lparr>tx_type = txdata_type kTicosdTxDataType_RebootEvent, payload = c_bytes ''{}'' @ [0]\<rparr>"

theorem process_tx_queue_drains_witness:
  "\<exists>h q q' st'. ticosd_queue_init blank_env 64 = Some (Some h) \<and> queue_put h sample_event = Some (True, q) \<and>
     prv_ticosd_process_tx_queue (Some True) (\<lambda>_. True) sample_env q sample_state = Some (True, q', st') \<and>
     rep q' []"
proof -
  obtain h where h: "ticosd_queue_init blank_env 64 = Some (Some h)" "rep h []" "blank_tail h" "write_ptr h = 0"
    "qsize h = init_size 64"
    using init_blank [of blank_env 64] by (auto simp: blank_env_def blank_store_def)
  have "init_size 64 = 64" "span sample_event = 4" by code_simp+
  moreover have "sample_event \<noteq> []" by (simp add: sample_event_def txdata_bytes_def)
  ultimately obtain q where q: "queue_put h sample_event = Some (True, q)" "rep q [sample_event]"
    using blank_write [OF h(2,3), of sample_event] h(4,5) by (auto simp: qwords_def)
  have "map_option (\<lambda>(ok, ys, st). (ok, ys)) (drain (send_entry sample_env) [sample_event] sample_state) =
      Some (True, [])"
    by code_simp
  then obtain st' where "drain (send_entry sample_env) [sample_event] sample_state = Some (True, [], st')" by auto
  with process_tx_queue_drains [OF q(2)] h(1) q(1) show ?thesis by blast
qed

text \<open>
  C33. While the network fails, the daemon retries after 60, 120, 240, \<dots> seconds, doubling each
  time and never waiting longer than the configured interval, for the first 25 failures.
\<close>

theorem backoff_doubles:
  assumes "0 < i" and "i \<le> INT_MAX" and "length ts \<le> 25"
  shows "failing_turns (Some i) ts loop_init =
           Some (map (\<lambda>j. Some (nat (min (60 * 2 ^ j) i))) [0..<length ts])"
  using failing_turns_eq [OF assms(1,2), of loop_init 0 ts] assms(3)
  by (simp add: loop_init_def NETWORK_FAILURE_FIRST_BACKOFF_SECONDS_def)

theorem backoff_doubles_witness:
  "failing_turns (Some 300) [0, 60, 180, 420] loop_init = Some [Some 60, Some 120, Some 240, Some 300]"
  using backoff_doubles [of 300 "[0, 60, 180, 420]"] by (simp add: INT_MAX_def upt_rec)

text \<open>
  The doubling is not bounded: at the 26th failure in a row the multiplication overflows
  \<^verbatim>\<open>int\<close>, which C leaves undefined, whatever interval is configured.
\<close>

theorem backoff_overflows:
  assumes "0 < i" and "i \<le> INT_MAX" and "26 \<le> length ts"
  shows "failing_turns (Some i) ts loop_init = None"
  using failing_turns_None [OF assms(1,2), of loop_init 0 ts] assms(3)
  by (simp add: loop_init_def NETWORK_FAILURE_FIRST_BACKOFF_SECONDS_def)

theorem backoff_overflows_witness:
  "failing_turns (Some 3600) (replicate 26 1000000) loop_init = None"
  using backoff_overflows [of 3600 "replicate 26 1000000"] by (simp add: INT_MAX_def)

end
