(* ===== verification/Reboot_Reason.thy ===== *)
theory Reboot_Reason
  imports Prelude
begin

text \<open>
  The reboot reasons (include/ticos/core/reboot_reason_types.h) and the two functions on them
  (src/util/reboot_reason.c). A reason read from a file or a command line is an arbitrary
  integer, so the functions take integers.
\<close>

datatype eTicosRebootReason =
    kTicosRebootReason_Unknown
  | kTicosRebootReason_UserShutdown
  | kTicosRebootReason_UserReset
  | kTicosRebootReason_FirmwareUpdate
  | kTicosRebootReason_LowPower
  | kTicosRebootReason_DebuggerHalted
  | kTicosRebootReason_ButtonReset
  | kTicosRebootReason_PowerOnReset
  | kTicosRebootReason_SoftwareReset
  | kTicosRebootReason_DeepSleep
  | kTicosRebootReason_PinReset
  | kTicosRebootReason_UnknownError
  | kTicosRebootReason_Assert
  | kTicosRebootReason_WatchdogDeprecated
  | kTicosRebootReason_BrownOutReset
  | kTicosRebootReason_Nmi
  | kTicosRebootReason_HardwareWatchdog
  | kTicosRebootReason_SoftwareWatchdog
  | kTicosRebootReason_ClockFailure
  | kTicosRebootReason_KernelPanic
  | kTicosRebootReason_FirmwareUpdateError
  | kTicosRebootReason_BusFault
  | kTicosRebootReason_MemFault
  | kTicosRebootReason_UsageFault
  | kTicosRebootReason_HardFault
  | kTicosRebootReason_Lockup

fun reboot_reason_value :: "eTicosRebootReason \<Rightarrow> int" where
  "reboot_reason_value kTicosRebootReason_Unknown = 0x0000"
| "reboot_reason_value kTicosRebootReason_UserShutdown = 0x0001"
| "reboot_reason_value kTicosRebootReason_UserReset = 0x0002"
| "reboot_reason_value kTicosRebootReason_FirmwareUpdate = 0x0003"
| "reboot_reason_value kTicosRebootReason_LowPower = 0x0004"
| "reboot_reason_value kTicosRebootReason_DebuggerHalted = 0x0005"
| "reboot_reason_value kTicosRebootReason_ButtonReset = 0x0006"
| "reboot_reason_value kTicosRebootReason_PowerOnReset = 0x0007"
| "reboot_reason_value kTicosRebootReason_SoftwareReset = 0x0008"
| "reboot_reason_value kTicosRebootReason_DeepSleep = 0x0009"
| "reboot_reason_value kTicosRebootReason_PinReset = 0x000a"
| "reboot_reason_value kTicosRebootReason_UnknownError = 0x8000"
| "reboot_reason_value kTicosRebootReason_Assert = 0x8001"
| "reboot_reason_value kTicosRebootReason_WatchdogDeprecated = 0x8002"
| "reboot_reason_value kTicosRebootReason_BrownOutReset = 0x8003"
| "reboot_reason_value kTicosRebootReason_Nmi = 0x8004"
| "reboot_reason_value kTicosRebootReason_HardwareWatchdog = 0x8005"
| "reboot_reason_value kTicosRebootReason_SoftwareWatchdog = 0x8006"
| "reboot_reason_value kTicosRebootReason_ClockFailure = 0x8007"
| "reboot_reason_value kTicosRebootReason_KernelPanic = 0x8008"
| "reboot_reason_value kTicosRebootReason_FirmwareUpdateError = 0x8009"
| "reboot_reason_value kTicosRebootReason_BusFault = 0x9100"
| "reboot_reason_value kTicosRebootReason_MemFault = 0x9200"
| "reboot_reason_value kTicosRebootReason_UsageFault = 0x9300"
| "reboot_reason_value kTicosRebootReason_HardFault = 0x9400"
| "reboot_reason_value kTicosRebootReason_Lockup = 0x9401"

fun reboot_reason_name :: "eTicosRebootReason \<Rightarrow> string" where
  "reboot_reason_name kTicosRebootReason_Unknown = ''Unknown''"
| "reboot_reason_name kTicosRebootReason_UserShutdown = ''UserShutdown''"
| "reboot_reason_name kTicosRebootReason_UserReset = ''UserReset''"
| "reboot_reason_name kTicosRebootReason_FirmwareUpdate = ''FirmwareUpdate''"
| "reboot_reason_name kTicosRebootReason_LowPower = ''LowPower''"
| "reboot_reason_name kTicosRebootReason_DebuggerHalted = ''DebuggerHalted''"
| "reboot_reason_name kTicosRebootReason_ButtonReset = ''ButtonReset''"
| "reboot_reason_name kTicosRebootReason_PowerOnReset = ''PowerOnReset''"
| "reboot_reason_name kTicosRebootReason_SoftwareReset = ''SoftwareReset''"
| "reboot_reason_name kTicosRebootReason_DeepSleep = ''DeepSleep''"
| "reboot_reason_name kTicosRebootReason_PinReset = ''PinReset''"
| "reboot_reason_name kTicosRebootReason_UnknownError = ''UnknownError''"
| "reboot_reason_name kTicosRebootReason_Assert = ''Assert''"
| "reboot_reason_name kTicosRebootReason_WatchdogDeprecated = ''WatchdogDeprecated''"
| "reboot_reason_name kTicosRebootReason_BrownOutReset = ''BrownOutReset''"
| "reboot_reason_name kTicosRebootReason_Nmi = ''Nmi''"
| "reboot_reason_name kTicosRebootReason_HardwareWatchdog = ''HardwareWatchdog''"
| "reboot_reason_name kTicosRebootReason_SoftwareWatchdog = ''SoftwareWatchdog''"
| "reboot_reason_name kTicosRebootReason_ClockFailure = ''ClockFailure''"
| "reboot_reason_name kTicosRebootReason_KernelPanic = ''KernelPanic''"
| "reboot_reason_name kTicosRebootReason_FirmwareUpdateError = ''FirmwareUpdateError''"
| "reboot_reason_name kTicosRebootReason_BusFault = ''BusFault''"
| "reboot_reason_name kTicosRebootReason_MemFault = ''MemFault''"
| "reboot_reason_name kTicosRebootReason_UsageFault = ''UsageFault''"
| "reboot_reason_name kTicosRebootReason_HardFault = ''HardFault''"
| "reboot_reason_name kTicosRebootReason_Lockup = ''Lockup''"

definition all_reboot_reasons :: "eTicosRebootReason list" where
  "all_reboot_reasons =
     [kTicosRebootReason_Unknown,
      kTicosRebootReason_UserShutdown,
      kTicosRebootReason_UserReset,
      kTicosRebootReason_FirmwareUpdate,
      kTicosRebootReason_LowPower,
      kTicosRebootReason_DebuggerHalted,
      kTicosRebootReason_ButtonReset,
      kTicosRebootReason_PowerOnReset,
      kTicosRebootReason_SoftwareReset,
      kTicosRebootReason_DeepSleep,
      kTicosRebootReason_PinReset,
      kTicosRebootReason_UnknownError,
      kTicosRebootReason_Assert,
      kTicosRebootReason_WatchdogDeprecated,
      kTicosRebootReason_BrownOutReset,
      kTicosRebootReason_Nmi,
      kTicosRebootReason_HardwareWatchdog,
      kTicosRebootReason_SoftwareWatchdog,
      kTicosRebootReason_ClockFailure,
      kTicosRebootReason_KernelPanic,
      kTicosRebootReason_FirmwareUpdateError,
      kTicosRebootReason_BusFault,
      kTicosRebootReason_MemFault,
      kTicosRebootReason_UsageFault,
      kTicosRebootReason_HardFault,
      kTicosRebootReason_Lockup]"

text \<open>\<^verbatim>\<open>switch (reboot_reason)\<close> over the constants.\<close>

definition ticosd_is_reboot_reason_valid :: "int \<Rightarrow> bool" where
  "ticosd_is_reboot_reason_valid v =
     (case find (\<lambda>r. reboot_reason_value r = v) all_reboot_reasons of Some _ \<Rightarrow> True | None \<Rightarrow> False)"

definition ticosd_reboot_reason_str :: "int \<Rightarrow> string" where
  "ticosd_reboot_reason_str v =
     (case find (\<lambda>r. reboot_reason_value r = v) all_reboot_reasons of
        Some r \<Rightarrow> reboot_reason_name r | None \<Rightarrow> ''???'')"

lemma all_reboot_reasons_complete: "r \<in> set all_reboot_reasons"
  by (cases r) (simp_all add: all_reboot_reasons_def)

lemma reason_valid_iff: "ticosd_is_reboot_reason_valid v \<longleftrightarrow> (\<exists>r. v = reboot_reason_value r)"
  using all_reboot_reasons_complete
  by (auto simp: ticosd_is_reboot_reason_valid_def find_None_iff find_Some_iff split: option.splits)

lemma reason_list_distinct:
  "distinct (map reboot_reason_value all_reboot_reasons)" "distinct (map reboot_reason_name all_reboot_reasons)"
  "''???'' \<notin> set (map reboot_reason_name all_reboot_reasons)"
  by code_simp+

lemma reason_inj: "inj reboot_reason_value" "inj reboot_reason_name"
  using reason_list_distinct(1,2) all_reboot_reasons_complete
  by (auto simp: distinct_map inj_on_def)

lemma reason_str_value: "ticosd_reboot_reason_str (reboot_reason_value r) = reboot_reason_name r"
proof -
  have "find (\<lambda>r'. reboot_reason_value r' = reboot_reason_value r) all_reboot_reasons = Some r"
    using all_reboot_reasons_complete reason_inj(1)
    by (cases "find (\<lambda>r'. reboot_reason_value r' = reboot_reason_value r) all_reboot_reasons")
      (auto simp: find_None_iff find_Some_iff inj_eq)
  then show ?thesis by (simp add: ticosd_reboot_reason_str_def)
qed

text \<open>
  The two functions agree with the enumeration: a number is valid exactly when it is the
  value of a declared reason, the declared reasons have different values and different names,
  and the placeholder name is given exactly to the numbers that are not valid.
\<close>

theorem reboot_reason_tables:
  "(ticosd_is_reboot_reason_valid v \<longleftrightarrow> (\<exists>r. v = reboot_reason_value r)) \<and>
   (ticosd_reboot_reason_str v = ''???'' \<longleftrightarrow> \<not> ticosd_is_reboot_reason_valid v) \<and>
   inj reboot_reason_value \<and> inj (\<lambda>r. ticosd_reboot_reason_str (reboot_reason_value r))"
proof -
  have "reboot_reason_name r \<noteq> ''???''" for r
    using reason_list_distinct(3) all_reboot_reasons_complete [of r] by (metis image_eqI set_map)
  then have "ticosd_reboot_reason_str v = ''???'' \<longleftrightarrow> \<not> ticosd_is_reboot_reason_valid v"
    by (auto simp: ticosd_is_reboot_reason_valid_def ticosd_reboot_reason_str_def split: option.splits)
  then show ?thesis by (simp add: reason_valid_iff reason_inj reason_str_value)
qed

end
