(* ===== verification/Reboot.thy ===== *)
theory Reboot
  imports Ticosd Reboot_Reason
begin

text \<open>
  The reboot plugin (src/plugins/reboot/): at start-up it reports the reason of the last reboot once
  per boot, taking it from the first of three sources that has one, and on a regular shutdown it
  leaves a reason for the next boot. The file system is a map from paths to contents; the
  configuration, systemd, U-Boot and the outcome of each system call are the environment.
\<close>

section \<open>Environment and state\<close>

record reboot_env =
  rw_filename :: "string \<Rightarrow> string option"
  get_string :: "string \<Rightarrow> string \<Rightarrow> string option"
  data_collection :: "bool option"
  hw_version :: string
  event_malloc_ok :: bool
  handle_calloc_ok :: bool
  boot_id_file :: "string option"
  fopen_read_ok :: "string \<Rightarrow> bool"
  fopen_write_ok :: "string \<Rightarrow> bool"
  fopen_append_ok :: "string \<Rightarrow> bool"
  fseek_read_ok :: bool
  ftruncate_boot_ok :: bool
  fseek_write_ok :: bool
  fputs_ok :: bool
  fts_entries :: "(bool \<times> string) list option"
  system_state :: "string option"
  uboot_initialize_ok :: bool
  uboot_read_config_ok :: "string \<Rightarrow> bool"
  uboot_open_ok :: bool
  uboot_ustate :: "string option"

type_synonym file_system = "string \<rightharpoonup> string"

record reboot_state =
  files :: file_system
  tx :: sTicosdQueue

definition PSTORE_DMESG_FILE :: string where "PSTORE_DMESG_FILE = ''/sys/fs/pstore/dmesg-ramoops-0''"
definition FWENV_CONFIG_FILE :: string where "FWENV_CONFIG_FILE = ''/etc/fw_env.config''"
definition UUID_STR_LEN :: nat where "UUID_STR_LEN = 37"

section \<open>The boot id\<close>

text \<open>\<^verbatim>\<open>ticos_linux_boot_id_read\<close>: what \<^verbatim>\<open>/proc/sys/kernel/random/boot_id\<close> holds, if it can be read.\<close>

definition ticos_linux_boot_id_read :: "reboot_env \<Rightarrow> string option" where
  "ticos_linux_boot_id_read env =
     (case boot_id_file env of
        None \<Rightarrow> None
      | Some s \<Rightarrow> if length s < UUID_STR_LEN - 1 then None else Some (c_str (take (UUID_STR_LEN - 1) s)))"

definition prv_read_tracked_boot_id :: "reboot_env \<Rightarrow> string \<Rightarrow> string option" where
  "prv_read_tracked_boot_id env contents =
     (if \<not> fseek_read_ok env then None
      else if length contents < UUID_STR_LEN - 1 then None
      else Some (c_str (take (UUID_STR_LEN - 1) contents)))"

text \<open>The contents of the file afterwards, and whether all of it was done.\<close>

definition prv_write_current_boot_id :: "reboot_env \<Rightarrow> string \<Rightarrow> string \<Rightarrow> bool \<times> string" where
  "prv_write_current_boot_id env contents current_boot_id =
     (if \<not> ftruncate_boot_ok env then (False, contents)
      else if \<not> fseek_write_ok env then (False, [])
      else if \<not> fputs_ok env then (False, [])
      else (True, current_boot_id))"

definition ticos_reboot_is_untracked_boot_id ::
  "reboot_env \<Rightarrow> string \<Rightarrow> string \<Rightarrow> file_system \<Rightarrow> bool \<times> file_system" where
  "ticos_reboot_is_untracked_boot_id env file current_boot_id fs =
     (if \<not> fopen_append_ok env file then (False, fs)
      else
        let contents = (case fs file of None \<Rightarrow> [] | Some s \<Rightarrow> s);
            fs = fs(file \<mapsto> contents);
            tracked_boot_id = (case prv_read_tracked_boot_id env contents of None \<Rightarrow> [] | Some s \<Rightarrow> s)
        in if tracked_boot_id = current_boot_id then (False, fs)
           else let (ok, contents) = prv_write_current_boot_id env contents current_boot_id
                in (ok, fs(file \<mapsto> contents)))"

section \<open>Sources of the reboot reason\<close>

text \<open>\<^verbatim>\<open>ticos_reboot_process_pstore_files\<close>: every file or link of the walk is unlinked.\<close>

definition ticos_reboot_process_pstore_files :: "reboot_env \<Rightarrow> file_system \<Rightarrow> file_system" where
  "ticos_reboot_process_pstore_files env fs =
     (case fts_entries env of
        None \<Rightarrow> fs
      | Some es \<Rightarrow> foldl (\<lambda>fs (is_file, path). if is_file then fs(path := None) else fs) fs es)"

definition prv_reboot_read_and_clear_reboot_reason_from_file ::
  "reboot_env \<Rightarrow> string \<Rightarrow> file_system \<Rightarrow> int option \<times> file_system" where
  "prv_reboot_read_and_clear_reboot_reason_from_file env file fs =
     (case fs file of
        None \<Rightarrow> (None, fs)
      | Some contents \<Rightarrow>
          if \<not> fopen_read_ok env file then (None, fs)
          else (map_option (\<lambda>(v, _). sint (word_of_int v :: 32 word)) (scan_long contents), fs(file := None)))"

definition prv_reboot_read_and_clear_reboot_reason_internal ::
  "reboot_env \<Rightarrow> file_system \<Rightarrow> int option \<times> file_system" where
  "prv_reboot_read_and_clear_reboot_reason_internal env fs =
     (case rw_filename env ''lastrebootreason'' of
        None \<Rightarrow> (None, fs)
      | Some file \<Rightarrow> prv_reboot_read_and_clear_reboot_reason_from_file env file fs)"

definition prv_reboot_read_and_clear_reboot_reason_customer ::
  "reboot_env \<Rightarrow> file_system \<Rightarrow> int option \<times> file_system" where
  "prv_reboot_read_and_clear_reboot_reason_customer env fs =
     (case get_string env ''reboot_plugin'' ''last_reboot_reason_file'' of
        None \<Rightarrow> (None, fs)
      | Some file \<Rightarrow> prv_reboot_read_and_clear_reboot_reason_from_file env file fs)"

definition prv_reboot_read_and_clear_reboot_reason_pstore ::
  "reboot_env \<Rightarrow> file_system \<Rightarrow> int option \<times> file_system" where
  "prv_reboot_read_and_clear_reboot_reason_pstore env fs =
     (if fs PSTORE_DMESG_FILE = None then (None, fs)
      else (Some (reboot_reason_value kTicosRebootReason_KernelPanic), ticos_reboot_process_pstore_files env fs))"

text \<open>In the order of their priority.\<close>

definition s_reboot_reason_sources :: "(reboot_env \<Rightarrow> file_system \<Rightarrow> int option \<times> file_system) list" where
  "s_reboot_reason_sources =
     [prv_reboot_read_and_clear_reboot_reason_pstore,
      prv_reboot_read_and_clear_reboot_reason_customer,
      prv_reboot_read_and_clear_reboot_reason_internal]"

fun resolve_sources ::
  "(reboot_env \<Rightarrow> file_system \<Rightarrow> int option \<times> file_system) list \<Rightarrow> reboot_env \<Rightarrow> int option \<Rightarrow>
   file_system \<Rightarrow> int option \<times> file_system" where
  "resolve_sources [] env chosen fs = (chosen, fs)"
| "resolve_sources (src # srcs) env chosen fs =
     (let (reason, fs) = src env fs in
      resolve_sources srcs env (if chosen = None then reason else chosen) fs)"

definition prv_resolve_reboot_reason :: "reboot_env \<Rightarrow> file_system \<Rightarrow> int \<times> file_system" where
  "prv_resolve_reboot_reason env fs =
     (let (chosen, fs) = resolve_sources s_reboot_reason_sources env None fs in
      (case chosen of None \<Rightarrow> reboot_reason_value kTicosRebootReason_Unknown | Some r \<Rightarrow> r, fs))"

section \<open>The event\<close>

definition reboot_event_json :: "reboot_env \<Rightarrow> int \<Rightarrow> string option \<Rightarrow> string" where
  "reboot_event_json env reason userinfo =
     (let software_type = (case get_string env '''' ''software_type'' of None \<Rightarrow> '''' | Some s \<Rightarrow> s);
          software_version = (case get_string env '''' ''software_version'' of None \<Rightarrow> '''' | Some s \<Rightarrow> s)
      in ''{\"Type\": \"Trace\",\"SoftwareType\": \"'' @ software_type @
         ''\",\"SoftwareVersion\": \"'' @ software_version @
         ''\",\"HardwareVersion\": \"'' @ hw_version env @
         ''\",\"SdkVersion\": \"0.2.0\",\"EventInfo\": {\"Reason\": '' @ show_int reason @
         ''},\"UserInfo\": {'' @ (case userinfo of None \<Rightarrow> '''' | Some s \<Rightarrow> s) @ ''}}'')"

definition prv_reboot_build_event ::
  "reboot_env \<Rightarrow> int \<Rightarrow> string option \<Rightarrow> (sTicosdTxData \<times> nat) option" where
  "prv_reboot_build_event env reason userinfo =
     (if \<not> event_malloc_ok env then None
      else
        let str = reboot_event_json env reason userinfo; ret = length str in
        if ret \<ge> 1024 then None
        else Some (\<lparr>tx_type = txdata_type kTicosdTxDataType_RebootEvent, payload = c_bytes str @ [0]\<rparr>, ret + 1))"

definition prv_reboot_write_reboot_reason :: "reboot_env \<Rightarrow> int \<Rightarrow> file_system \<Rightarrow> file_system" where
  "prv_reboot_write_reboot_reason env reboot_reason fs =
     (case rw_filename env ''lastrebootreason'' of
        None \<Rightarrow> fs
      | Some file \<Rightarrow> if \<not> fopen_write_ok env file then fs else fs(file \<mapsto> show_int reboot_reason))"

definition prv_reboot_is_systemd_state :: "reboot_env \<Rightarrow> string \<Rightarrow> bool" where
  "prv_reboot_is_systemd_state env state =
     (case system_state env of None \<Rightarrow> False | Some cur_state \<Rightarrow> state = cur_state)"

definition prv_reboot_is_upgrade :: "reboot_env \<Rightarrow> bool" where
  "prv_reboot_is_upgrade env =
     (if \<not> uboot_initialize_ok env then False
      else
        let file = (case get_string env ''reboot_plugin'' ''uboot_fw_env_file'' of
                      None \<Rightarrow> FWENV_CONFIG_FILE | Some f \<Rightarrow> f)
        in if \<not> uboot_read_config_ok env file then False
           else if \<not> uboot_open_ok env then False
           else uboot_ustate env = Some ''1'')"

text \<open>\<^verbatim>\<open>prv_reboot_destroy\<close> on a handle.\<close>

definition prv_reboot_destroy :: "reboot_env \<Rightarrow> reboot_state \<Rightarrow> reboot_state" where
  "prv_reboot_destroy env st =
     (if prv_reboot_is_systemd_state env ''stopping''
      then st\<lparr>files := prv_reboot_write_reboot_reason env
             (reboot_reason_value
               (if prv_reboot_is_upgrade env then kTicosRebootReason_FirmwareUpdate
                else kTicosRebootReason_UserReset))
             (files st)\<rparr>
      else st)"

definition prv_track_reboot :: "reboot_env \<Rightarrow> reboot_state \<Rightarrow> reboot_state option" where
  "prv_track_reboot env st =
     (let (reboot_reason, fs) = prv_resolve_reboot_reason env (files st);
          st = st\<lparr>files := fs\<rparr>
      in case prv_reboot_build_event env reboot_reason None of
           None \<Rightarrow> Some st
         | Some (data, payload_size) \<Rightarrow> do {
             (_, q) \<leftarrow> ticosd_txdata (data_collection env) (tx st) data payload_size;
             Some (st\<lparr>tx := q\<rparr>)
           })"

definition prv_run_if_untracked_boot_id ::
  "reboot_env \<Rightarrow> (reboot_env \<Rightarrow> reboot_state \<Rightarrow> reboot_state option) \<Rightarrow> reboot_state \<Rightarrow> reboot_state option" where
  "prv_run_if_untracked_boot_id env cb st =
     (case rw_filename env ''last_tracked_boot_id'' of
        None \<Rightarrow> Some st
      | Some file \<Rightarrow>
          (case ticos_linux_boot_id_read env of
             None \<Rightarrow> Some st
           | Some boot_id \<Rightarrow>
               let (untracked, fs) = ticos_reboot_is_untracked_boot_id env file boot_id (files st);
                   st = st\<lparr>files := fs\<rparr>
               in if untracked then cb env st else Some st))"

definition prv_noop_untracked_boot_id_handler :: "reboot_env \<Rightarrow> reboot_state \<Rightarrow> reboot_state option" where
  "prv_noop_untracked_boot_id_handler env st = Some st"

text \<open>The boolean tells whether the plugin was installed (its callback table is not null).\<close>

definition ticosd_reboot_init :: "reboot_env \<Rightarrow> reboot_state \<Rightarrow> (bool \<times> reboot_state) option" where
  "ticosd_reboot_init env st =
     (if data_collection env \<noteq> Some True then do {
        st \<leftarrow> prv_run_if_untracked_boot_id env prv_noop_untracked_boot_id_handler st;
        Some (False, st\<lparr>files := ticos_reboot_process_pstore_files env (files st)\<rparr>)
      }
      else if \<not> handle_calloc_ok env then None
      else do {
        st \<leftarrow> prv_run_if_untracked_boot_id env prv_track_reboot st;
        Some (True, st)
      })"

section \<open>Sources and files\<close>

text \<open>The number stored in a file, if the file is there and starts with one.\<close>

definition reason_in :: "file_system \<Rightarrow> string \<Rightarrow> int option" where
  "reason_in fs file = do {
     contents \<leftarrow> fs file;
     map_option (\<lambda>(v, _). sint (word_of_int v :: 32 word)) (scan_long contents)
   }"

lemma process_pstore_nth:
  "ticos_reboot_process_pstore_files env fs p =
     (case fts_entries env of None \<Rightarrow> fs p | Some es \<Rightarrow> if (True, p) \<in> set es then None else fs p)"
proof -
  have "foldl (\<lambda>fs (is_file, path). if is_file then fs(path := None) else fs) fs es p =
      (if (True, p) \<in> set es then None else fs p)" for es fs
    by (induction es arbitrary: fs) (auto split: if_splits)
  note fold = this
  show ?thesis
    unfolding ticos_reboot_process_pstore_files_def
    by (cases "fts_entries env") (simp_all only: option.case fold)
qed

lemma from_file_eq:
  "fopen_read_ok env f \<Longrightarrow>
     prv_reboot_read_and_clear_reboot_reason_from_file env f fs = (reason_in fs f, fs(f := None))"
  by (auto simp: prv_reboot_read_and_clear_reboot_reason_from_file_def reason_in_def split: option.splits)

lemma from_file_other:
  "p \<noteq> f \<Longrightarrow> snd (prv_reboot_read_and_clear_reboot_reason_from_file env f fs) p = fs p"
  by (auto simp: prv_reboot_read_and_clear_reboot_reason_from_file_def split: option.splits)

text \<open>A file that is none of the sources.\<close>

definition not_a_source :: "reboot_env \<Rightarrow> string \<Rightarrow> bool" where
  "not_a_source env f \<longleftrightarrow>
     get_string env ''reboot_plugin'' ''last_reboot_reason_file'' \<noteq> Some f \<and>
     rw_filename env ''lastrebootreason'' \<noteq> Some f \<and>
     (case fts_entries env of None \<Rightarrow> True | Some es \<Rightarrow> (True, f) \<notin> set es)"

lemma source_other:
  assumes "not_a_source env f" and "src \<in> set s_reboot_reason_sources"
  shows "snd (src env fs) f = fs f"
proof -
  from assms(2) consider "src = prv_reboot_read_and_clear_reboot_reason_pstore"
    | "src = prv_reboot_read_and_clear_reboot_reason_customer"
    | "src = prv_reboot_read_and_clear_reboot_reason_internal"
    by (auto simp: s_reboot_reason_sources_def)
  then show ?thesis
  proof cases
    case 1
    with assms(1) show ?thesis
      by (auto simp: prv_reboot_read_and_clear_reboot_reason_pstore_def not_a_source_def process_pstore_nth
          split: option.splits)
  next
    case 2
    with assms(1) show ?thesis
      by (auto simp: prv_reboot_read_and_clear_reboot_reason_customer_def not_a_source_def from_file_other
          split: option.splits)
  next
    case 3
    with assms(1) show ?thesis
      by (auto simp: prv_reboot_read_and_clear_reboot_reason_internal_def not_a_source_def from_file_other
          split: option.splits)
  qed
qed

lemma resolve_sources_other:
  "(\<And>src fs. src \<in> set srcs \<Longrightarrow> snd (src env fs) f = fs f) \<Longrightarrow>
     snd (resolve_sources srcs env chosen fs) f = fs f"
  by (induction srcs env chosen fs rule: resolve_sources.induct) (auto simp: Let_def case_prod_beta)

lemma resolve_other: "not_a_source env f \<Longrightarrow> snd (prv_resolve_reboot_reason env fs) f = fs f"
  using resolve_sources_other [of s_reboot_reason_sources env f None fs] source_other [of env f]
  by (simp add: prv_resolve_reboot_reason_def case_prod_beta)

lemma track_other:
  "not_a_source env f \<Longrightarrow> prv_track_reboot env st = Some st' \<Longrightarrow> files st' f = files st f"
  using resolve_other [of env f "files st"]
  by (auto simp: prv_track_reboot_def Let_def split: prod.splits option.splits bind_splits)

section \<open>Properties\<close>


definition sample_reboot_env :: reboot_env where
  "sample_reboot_env = \<lparr>rw_filename = (\<lambda>f. Some (''/media/ticos/'' @ f)),
     get_string = (\<lambda>p k. if k = ''last_reboot_reason_file'' then Some ''/media/reason'' else None),
     data_collection = Some True, hw_version = ''evt'', event_malloc_ok = True, handle_calloc_ok = True,
     boot_id_file = Some ''230f89b6-0eb3-4bb3-8b2c-9a1d2f3e4c5d'', fopen_read_ok = (\<lambda>_. True),
     fopen_write_ok = (\<lambda>_. True), fopen_append_ok = (\<lambda>_. True), fseek_read_ok = True,
     ftruncate_boot_ok = True, fseek_write_ok = True, fputs_ok = True,
     fts_entries = Some [(False, ''/sys/fs/pstore''), (True, PSTORE_DMESG_FILE)],
     system_state = Some ''stopping'', uboot_initialize_ok = True, uboot_read_config_ok = (\<lambda>_. True),
     uboot_open_ok = True, uboot_ustate = Some ''1''\<rparr>"

definition sample_fs :: file_system where
  "sample_fs = [''/media/reason'' \<mapsto> ''6'', ''/media/ticos/lastrebootreason'' \<mapsto> ''2'', ''/etc/passwd'' \<mapsto> ''x'']"


text \<open>
  A source that has the number of \<^verbatim>\<open>kTicosRebootReason_Unknown\<close> counts as a source that has a
  reason: an unknown reason in the customer's file hides the reason ticosd stored at shutdown,
  although the first reason that is not unknown is meant to be used.
\<close>

theorem unknown_hides_known:
  "fst (prv_resolve_reboot_reason sample_reboot_env
     [''/media/reason'' \<mapsto> ''0'', ''/media/ticos/lastrebootreason'' \<mapsto> ''3'']) =
   reboot_reason_value kTicosRebootReason_Unknown"
  by code_simp

text \<open>The file records that the boot was tracked.\<close>

definition tracks :: "file_system \<Rightarrow> string \<Rightarrow> string \<Rightarrow> bool" where
  "tracks fs t boot_id \<longleftrightarrow>
     (case fs t of None \<Rightarrow> False
      | Some s \<Rightarrow> UUID_STR_LEN - 1 \<le> length s \<and> c_str (take (UUID_STR_LEN - 1) s) = boot_id)"

lemma untracked_second:
  assumes "fopen_append_ok env t" and "fseek_read_ok env" and "tracks fs t boot_id"
  shows "ticos_reboot_is_untracked_boot_id env t boot_id fs = (False, fs)"
  using assms
  by (auto simp: ticos_reboot_is_untracked_boot_id_def prv_read_tracked_boot_id_def tracks_def Let_def
      fun_upd_idem split: option.splits)

definition boot_id_io_ok :: "reboot_env \<Rightarrow> string \<Rightarrow> bool" where
  "boot_id_io_ok env t \<longleftrightarrow>
     fopen_append_ok env t \<and> fseek_read_ok env \<and> ftruncate_boot_ok env \<and> fseek_write_ok env \<and> fputs_ok env"

lemma untracked_first:
  assumes "boot_id_io_ok env t" and "length boot_id = UUID_STR_LEN - 1" and "CHR 0x00 \<notin> set boot_id"
    and "ticos_reboot_is_untracked_boot_id env t boot_id fs = (u, fs')"
  shows "tracks fs' t boot_id \<and> u = (\<not> tracks fs t boot_id)"
proof (cases "tracks fs t boot_id")
  case True
  with assms(1,4) show ?thesis using untracked_second by (auto simp: boot_id_io_ok_def)
next
  case False
  have "boot_id \<noteq> []" using assms(2) by (auto simp: UUID_STR_LEN_def)
  with False have "(case prv_read_tracked_boot_id env (case fs t of None \<Rightarrow> [] | Some s \<Rightarrow> s) of
      None \<Rightarrow> [] | Some s \<Rightarrow> s) \<noteq> boot_id"
    by (auto simp: prv_read_tracked_boot_id_def tracks_def UUID_STR_LEN_def split: option.splits)
  with False assms c_str_id [OF assms(3)] show ?thesis
    by (auto simp: ticos_reboot_is_untracked_boot_id_def prv_write_current_boot_id_def boot_id_io_ok_def
        tracks_def Let_def split: if_splits)
qed

text \<open>
  C25. A boot is reported at most once. When the boot id can be read and its file written, and that file
  is not one of the sources, starting ticosd again in the same boot changes nothing: no event is
  queued and no source is consumed.
\<close>

theorem reboot_reported_once:
  assumes "rw_filename env ''last_tracked_boot_id'' = Some t" and "boot_id_io_ok env t" and "not_a_source env t"
    and "ticos_linux_boot_id_read env = Some boot_id" and "length boot_id = UUID_STR_LEN - 1"
    and "data_collection env = Some True" and "ticosd_reboot_init env st = Some (b, st1)"
  shows "ticosd_reboot_init env st1 = Some (True, st1)"
proof -
  obtain u fs1 where u: "ticos_reboot_is_untracked_boot_id env t boot_id (files st) = (u, fs1)" by fastforce
  have z: "CHR 0x00 \<notin> set boot_id"
    using assms(4) by (auto simp: ticos_linux_boot_id_read_def c_str_def dest: set_takeWhileD split: option.splits if_splits)
  have "tracks fs1 t boot_id" using untracked_first [OF assms(2,5) z u] by simp
  moreover have "files st1 t = fs1 t"
    using assms u track_other [OF assms(3), of "st\<lparr>files := fs1\<rparr>"]
    by (auto simp: ticosd_reboot_init_def prv_run_if_untracked_boot_id_def Let_def split: if_splits bind_splits)
  ultimately have "tracks (files st1) t boot_id" by (simp add: tracks_def)
  then have "ticos_reboot_is_untracked_boot_id env t boot_id (files st1) = (False, files st1)"
    using untracked_second assms(2) by (simp add: boot_id_io_ok_def)
  with assms show ?thesis
    by (auto simp: ticosd_reboot_init_def prv_run_if_untracked_boot_id_def split: if_splits)
qed

theorem reboot_reported_once_witness:
  "\<exists>st1. ticosd_reboot_init (sample_reboot_env\<lparr>event_malloc_ok := False\<rparr>)
       \<lparr>files = sample_fs, tx = opened blank_env 64\<rparr> = Some (True, st1) \<and>
     ticosd_reboot_init (sample_reboot_env\<lparr>event_malloc_ok := False\<rparr>) st1 = Some (True, st1)"
proof -
  let ?env = "sample_reboot_env\<lparr>event_malloc_ok := False\<rparr>" and ?st = "\<lparr>files = sample_fs, tx = opened blank_env 64\<rparr>"
  let ?t = "''/media/ticos/last_tracked_boot_id''" and ?id = "''230f89b6-0eb3-4bb3-8b2c-9a1d2f3e4c5d''"
  have "map_option fst (ticosd_reboot_init ?env ?st) = Some True" by code_simp
  then obtain st1 where st1: "ticosd_reboot_init ?env ?st = Some (True, st1)" by auto
  have "rw_filename ?env ''last_tracked_boot_id'' = Some ?t" "boot_id_io_ok ?env ?t" "not_a_source ?env ?t"
    "data_collection ?env = Some True"
    by (simp_all add: sample_reboot_env_def boot_id_io_ok_def not_a_source_def PSTORE_DMESG_FILE_def)
  moreover have "ticos_linux_boot_id_read ?env = Some ?id" "length ?id = UUID_STR_LEN - 1" by code_simp+
  ultimately show ?thesis using reboot_reported_once [OF _ _ _ _ _ _ st1] st1 by blast
qed

section \<open>From a shutdown to the next boot\<close>

lemma sint_small: "- (2 ^ 31) \<le> v \<Longrightarrow> v < 2 ^ 31 \<Longrightarrow> sint (word_of_int v :: 32 word) = v"
  by (simp add: signed_of_int signed_take_bit_int_eq_self)

lemma reason_in_written:
  assumes "fs f = Some (show_int v)" and "- (2 ^ 31) \<le> v" and "v < 2 ^ 31"
  shows "reason_in fs f = Some v"
  using assms scan_show_int [of "[]" v] by (simp add: reason_in_def sint_small)

lemma resolve_internal:
  assumes "fs PSTORE_DMESG_FILE = None"
    and "\<forall>c. get_string env ''reboot_plugin'' ''last_reboot_reason_file'' = Some c \<longrightarrow> fs c = None"
    and "rw_filename env ''lastrebootreason'' = Some i" and "fopen_read_ok env i" and "reason_in fs i = Some v"
  shows "fst (prv_resolve_reboot_reason env fs) = v"
  using assms
  by (auto simp: prv_resolve_reboot_reason_def s_reboot_reason_sources_def Let_def from_file_eq
      prv_reboot_read_and_clear_reboot_reason_pstore_def prv_reboot_read_and_clear_reboot_reason_customer_def
      prv_reboot_read_and_clear_reboot_reason_internal_def
      prv_reboot_read_and_clear_reboot_reason_from_file_def reason_in_def split: option.splits)

lemma track_queues:
  assumes "fst (prv_resolve_reboot_reason env (files st)) = v" and "event_malloc_ok env"
    and "length (reboot_event_json env v None) < 1024" and "data_collection env = Some True"
    and "rep (tx st) xs"
    and "room (tx st) (txdata_type kTicosdTxDataType_RebootEvent # c_bytes (reboot_event_json env v None) @ [0])"
  shows "\<exists>st'. prv_track_reboot env st = Some st' \<and>
    rep (tx st') (xs @ [txdata_type kTicosdTxDataType_RebootEvent # c_bytes (reboot_event_json env v None) @ [0]])"
proof -
  let ?x = "txdata_type kTicosdTxDataType_RebootEvent # c_bytes (reboot_event_json env v None) @ [0]"
  from write_append [OF assms(5,6)] obtain q where
    q: "ticosd_queue_write (tx st) (Some ?x) (length ?x) = Some (True, q)" "rep q (xs @ [?x])" by metis
  have "u32_of (length ?x) = length ?x" using assms(3) by (intro u32_of_id) simp
  with q assms(1-4) show ?thesis
    by (auto simp: prv_track_reboot_def prv_reboot_build_event_def ticosd_txdata_def txdata_bytes_def Let_def
        case_prod_beta)
qed

text \<open>
  C24. The reason for a regular shutdown reaches the server's queue. If systemd is stopping the system
  when ticosd shuts down, then on the next boot (a boot id that is not the tracked one), with no
  crash log and no reason in the customer's file, exactly one event joins the queue: it carries
  the firmware update reason when U-Boot is in an update, and the user reset reason otherwise.
\<close>

theorem shutdown_reason_reported:
  assumes "system_state env = Some ''stopping''" and "rw_filename env ''lastrebootreason'' = Some i"
    and "fopen_write_ok env i"
    and "st1 = prv_reboot_destroy env st"
    and "v = reboot_reason_value (if prv_reboot_is_upgrade env then kTicosRebootReason_FirmwareUpdate
                                  else kTicosRebootReason_UserReset)"
    and "rw_filename env' ''lastrebootreason'' = Some i" and "fopen_read_ok env' i"
    and "data_collection env' = Some True" and "handle_calloc_ok env'" and "event_malloc_ok env'"
    and "rw_filename env' ''last_tracked_boot_id'' = Some t" and "boot_id_io_ok env' t" and "t \<noteq> i"
    and "ticos_linux_boot_id_read env' = Some boot_id" and "length boot_id = UUID_STR_LEN - 1"
    and "\<not> tracks (files st) t boot_id"
    and "t \<noteq> PSTORE_DMESG_FILE" and "i \<noteq> PSTORE_DMESG_FILE" and "files st PSTORE_DMESG_FILE = None"
    and "\<forall>c. get_string env' ''reboot_plugin'' ''last_reboot_reason_file'' = Some c \<longrightarrow>
           c \<noteq> t \<and> c \<noteq> i \<and> files st c = None"
    and "length (reboot_event_json env' v None) < 1024" and "rep (tx st) xs"
    and "event = txdata_type kTicosdTxDataType_RebootEvent # c_bytes (reboot_event_json env' v None) @ [0]"
    and "room (tx st) event"
  shows "\<exists>st2. ticosd_reboot_init env' st1 = Some (True, st2) \<and> rep (tx st2) (xs @ [event])"
proof -
  have st1: "st1 = st\<lparr>files := (files st)(i \<mapsto> show_int v)\<rparr>"
    using assms(1-5) by (simp add: prv_reboot_destroy_def prv_reboot_is_systemd_state_def prv_reboot_write_reboot_reason_def)
  have z: "CHR 0x00 \<notin> set boot_id"
    using assms(14) by (auto simp: ticos_linux_boot_id_read_def c_str_def dest: set_takeWhileD split: option.splits if_splits)
  have nt: "\<not> tracks (files st1) t boot_id" using assms(13,16) by (simp add: st1 tracks_def)
  obtain u fs where u: "ticos_reboot_is_untracked_boot_id env' t boot_id (files st1) = (u, fs)" by fastforce
  with untracked_first [OF assms(12,15) z u] nt have "u" by simp
  have fs: "fs f = files st1 f" if "f \<noteq> t" for f
    using u that by (auto simp: ticos_reboot_is_untracked_boot_id_def Let_def split: if_splits prod.splits)
  have v: "- (2 ^ 31) \<le> v" "v < 2 ^ 31" using assms(5) by (auto split: if_splits)
  have "fst (prv_resolve_reboot_reason env' fs) = v"
    by (rule resolve_internal [OF _ _ assms(6,7)])
      (use assms(13,17-20) fs v in \<open>auto simp: st1 intro: reason_in_written\<close>)
  then have "\<exists>st'. prv_track_reboot env' (st1\<lparr>files := fs\<rparr>) = Some st' \<and> rep (tx st') (xs @ [event])"
    using track_queues [of env' "st1\<lparr>files := fs\<rparr>" v xs] assms(8,10,21-24) by (simp add: st1)
  with u \<open>u\<close> assms(8,9,11,14) show ?thesis
    by (auto simp: ticosd_reboot_init_def prv_run_if_untracked_boot_id_def)
qed

definition sample_event_json :: string where
  "sample_event_json = reboot_event_json sample_reboot_env (reboot_reason_value kTicosRebootReason_FirmwareUpdate) None"

theorem shutdown_reason_reported_witness:
  "\<exists>h st2. ticosd_queue_init blank_env 1024 = Some (Some h) \<and>
     ticosd_reboot_init sample_reboot_env
       (prv_reboot_destroy sample_reboot_env \<lparr>files = [''/etc/passwd'' \<mapsto> ''x''], tx = h\<rparr>) = Some (True, st2) \<and>
     rep (tx st2) [txdata_type kTicosdTxDataType_RebootEvent # c_bytes sample_event_json @ [0]]"
proof -
  let ?env = "sample_reboot_env" and ?v = "reboot_reason_value kTicosRebootReason_FirmwareUpdate"
  let ?t = "''/media/ticos/last_tracked_boot_id''" and ?id = "''230f89b6-0eb3-4bb3-8b2c-9a1d2f3e4c5d''"
  let ?i = "''/media/ticos/lastrebootreason''"
  let ?x = "txdata_type kTicosdTxDataType_RebootEvent # c_bytes sample_event_json @ [0]"
  obtain h where h: "ticosd_queue_init blank_env 1024 = Some (Some h)" "rep h []" "blank_tail h" "write_ptr h = 0"
    "qsize h = init_size 1024"
    using init_blank [of blank_env 1024] by (auto simp: blank_env_def blank_store_def)
  have len: "length sample_event_json < 200" by code_simp
  then have "span ?x + 3 \<le> 256" unfolding span_def queue_consts by simp
  moreover have "init_size 1024 = 1024" by code_simp
  ultimately have fits: "write_ptr h + span ?x + 3 \<le> qwords h" using h(4,5) by (simp add: qwords_def)
  have room: "room h ?x" by (rule blank_write [OF h(2,3) _ fits]) simp_all
  have io: "boot_id_io_ok ?env ?t" "prv_reboot_is_upgrade ?env"
    by (simp_all add: boot_id_io_ok_def sample_reboot_env_def prv_reboot_is_upgrade_def)
  have id: "ticos_linux_boot_id_read ?env = Some ?id" "length ?id = UUID_STR_LEN - 1" by code_simp+
  have fields: "system_state ?env = Some ''stopping''" "rw_filename ?env ''lastrebootreason'' = Some ?i"
    "rw_filename ?env ''last_tracked_boot_id'' = Some ?t" "fopen_write_ok ?env ?i" "fopen_read_ok ?env ?i"
    "data_collection ?env = Some True" "handle_calloc_ok ?env" "event_malloc_ok ?env"
    "get_string ?env ''reboot_plugin'' ''last_reboot_reason_file'' = Some ''/media/reason''"
    by (simp_all add: sample_reboot_env_def)
  have "\<exists>st2. ticosd_reboot_init ?env (prv_reboot_destroy ?env \<lparr>files = [''/etc/passwd'' \<mapsto> ''x''], tx = h\<rparr>) =
      Some (True, st2) \<and> rep (tx st2) ([] @ [?x])"
    by (rule shutdown_reason_reported [where env = ?env and env' = ?env and v = ?v and i = ?i and t = ?t
          and boot_id = ?id and st = "\<lparr>files = [''/etc/passwd'' \<mapsto> ''x''], tx = h\<rparr>"])
      (use io id fields len room h(2) in \<open>simp_all add: tracks_def PSTORE_DMESG_FILE_def sample_event_json_def
        del: reboot_reason_value.simps\<close>)
  with h(1) show ?thesis by auto
qed

end
