(* ===== verification/Config.thy ===== *)
theory Config
  imports Network
begin

text \<open>
  The configuration (src/util/config.c): a base tree from the built-in and the installed configuration
  file, and a runtime tree that settings are stored in and that is looked at first. json-c is a
  parameter; its values are of an arbitrary type, and what the code relies on is \<open>json_c_laws\<close>.
  Changing an object is modelled by the changed object, stored back where the code holds a reference
  into a tree. \<open>None\<close> as the outcome of an operation is an abort in json-c (adding to something
  that is no object, or walking over it) or a recursion that does not end. A JSON null is the null
  pointer in json-c; a parent key that is null is treated as the empty one, which is how it is modelled.
\<close>

section \<open>json-c\<close>

datatype json_type =
  json_type_null | json_type_boolean | json_type_double | json_type_int | json_type_object | json_type_array | json_type_string

record 'j json_c = "'j json_lib" +
  json_object_get_type :: "'j \<Rightarrow> json_type"
  json_object_object_add :: "'j \<Rightarrow> string \<Rightarrow> 'j \<Rightarrow> 'j option"
  json_object_fields :: "'j \<Rightarrow> (string \<times> 'j) list option"
  json_object_new_object :: 'j
  json_object_new_string :: "string \<Rightarrow> 'j"
  json_object_new_int :: "int \<Rightarrow> 'j"
  json_object_new_boolean :: "bool \<Rightarrow> 'j"
  json_object_get_int :: "'j \<Rightarrow> int"
  json_object_get_boolean :: "'j \<Rightarrow> bool"
  json_object_to_json_string :: "'j \<Rightarrow> string"

text \<open>
  The documented behaviour: objects are dictionaries that keep their type, can be added to and be walked
  over; nothing else has fields; new values have the type and the content they are made of.
\<close>

definition json_c_laws :: "'j json_c \<Rightarrow> bool" where
  "json_c_laws J \<longleftrightarrow>
     (\<forall>a k v a'. json_object_object_add J a k v = Some a' \<longrightarrow>
        json_object_get_type J a' = json_type_object \<and>
        (\<forall>k'. json_object_object_get_ex J a' k' = (if k' = k then Some v else json_object_object_get_ex J a k'))) \<and>
     (\<forall>a k v. json_object_get_type J a = json_type_object \<longrightarrow> json_object_object_add J a k v \<noteq> None) \<and>
     (\<forall>a. json_object_get_type J a = json_type_object \<longrightarrow>
        (\<exists>fs. json_object_fields J a = Some fs \<and> distinct (map fst fs) \<and> map_of fs = json_object_object_get_ex J a)) \<and>
     (\<forall>a k. json_object_get_type J a \<noteq> json_type_object \<longrightarrow> json_object_object_get_ex J a k = None) \<and>
     json_object_get_type J (json_object_new_object J) = json_type_object \<and>
     (\<forall>k. json_object_object_get_ex J (json_object_new_object J) k = None) \<and>
     (\<forall>s. json_object_get_type J (json_object_new_string J s) = json_type_string \<and>
          json_object_get_string J (json_object_new_string J s) = s) \<and>
     (\<forall>d. json_object_get_type J (json_object_new_int J d) = json_type_int \<and>
          json_object_get_int J (json_object_new_int J d) = d) \<and>
     (\<forall>b. json_object_get_type J (json_object_new_boolean J b) = json_type_boolean \<and>
          json_object_get_boolean J (json_object_new_boolean J b) = b)"

section \<open>Operations\<close>

type_synonym files = "string \<Rightarrow> string option"

record 'j sTicosdConfig =
  base :: "'j option"
  runtime :: "'j option"

definition prv_config_find_object :: "'j json_c \<Rightarrow> 'j option \<Rightarrow> string \<Rightarrow> string \<Rightarrow> 'j option" where
  "prv_config_find_object J tree parent_key key = do {
     tree \<leftarrow> tree;
     object \<leftarrow>
       (if parent_key \<noteq> [] then
          (case json_object_object_get_ex J tree parent_key of
             None \<Rightarrow> None
           | Some object \<Rightarrow> if json_object_get_type J object \<noteq> json_type_object then None else Some object)
        else Some tree);
     if key \<noteq> [] then
       (case json_object_object_get_ex J object key of
          None \<Rightarrow> None
        | Some object \<Rightarrow> if json_object_get_type J object = json_type_null then None else Some object)
     else Some object
   }"

text \<open>The object a lookup ends at: the runtime tree comes first.\<close>

definition config_find :: "'j json_c \<Rightarrow> 'j sTicosdConfig \<Rightarrow> string \<Rightarrow> string \<Rightarrow> 'j option" where
  "config_find J h parent_key key =
     (case prv_config_find_object J (runtime h) parent_key key of
        Some object \<Rightarrow> Some object
      | None \<Rightarrow> prv_config_find_object J (base h) parent_key key)"

definition ticosd_config_get_string :: "'j json_c \<Rightarrow> 'j sTicosdConfig \<Rightarrow> string \<Rightarrow> string \<Rightarrow> string option" where
  "ticosd_config_get_string J h parent_key key = do {
     object \<leftarrow> config_find J h parent_key key;
     if json_object_get_type J object \<noteq> json_type_string then None else Some (json_object_get_string J object)
   }"

definition ticosd_config_get_integer :: "'j json_c \<Rightarrow> 'j sTicosdConfig \<Rightarrow> string \<Rightarrow> string \<Rightarrow> int option" where
  "ticosd_config_get_integer J h parent_key key = do {
     object \<leftarrow> config_find J h parent_key key;
     if json_object_get_type J object \<noteq> json_type_int then None else Some (json_object_get_int J object)
   }"

definition ticosd_config_get_boolean :: "'j json_c \<Rightarrow> 'j sTicosdConfig \<Rightarrow> string \<Rightarrow> string \<Rightarrow> bool option" where
  "ticosd_config_get_boolean J h parent_key key = do {
     object \<leftarrow> config_find J h parent_key key;
     if json_object_get_type J object \<noteq> json_type_boolean then None else Some (json_object_get_boolean J object)
   }"

text \<open>\<open>alloc_ok\<close> is whether the memory for a path can be allocated.\<close>

definition ticosd_config_generate_rw_filename ::
  "'j json_c \<Rightarrow> (nat \<Rightarrow> bool) \<Rightarrow> 'j sTicosdConfig \<Rightarrow> string \<Rightarrow> string option" where
  "ticosd_config_generate_rw_filename J alloc_ok h filename =
     (case ticosd_config_get_string J h [] ''data_dir'' of
        None \<Rightarrow> None
      | Some data_dir \<Rightarrow>
          if data_dir \<noteq> [] then
            (if \<not> alloc_ok (length data_dir + length filename + 1 + 1) then None
             else Some (data_dir @ ''/'' @ filename))
          else None)"

text \<open>\<open>can_write\<close> is whether a file can be written.\<close>

definition prv_config_write_config ::
  "'j json_c \<Rightarrow> (nat \<Rightarrow> bool) \<Rightarrow> (string \<Rightarrow> bool) \<Rightarrow> 'j sTicosdConfig \<Rightarrow> files \<Rightarrow> files" where
  "prv_config_write_config J alloc_ok can_write h files =
     (case ticosd_config_generate_rw_filename J alloc_ok h ''runtime.conf'' of
        None \<Rightarrow> files
      | Some runtime_path \<Rightarrow>
          (case runtime h of
             None \<Rightarrow> files
           | Some t \<Rightarrow> if can_write runtime_path then files(runtime_path \<mapsto> json_object_to_json_string J t) else files))"

definition prv_config_set_object ::
  "'j json_c \<Rightarrow> (nat \<Rightarrow> bool) \<Rightarrow> (string \<Rightarrow> bool) \<Rightarrow> 'j sTicosdConfig \<Rightarrow> string \<Rightarrow> string \<Rightarrow> 'j \<Rightarrow> files \<Rightarrow>
   ('j sTicosdConfig \<times> files) option" where
  "prv_config_set_object J alloc_ok can_write h parent_key key val files = do {
     t \<leftarrow> runtime h;
     t \<leftarrow> (if parent_key \<noteq> [] then do {
             let object =
               (case json_object_object_get_ex J t parent_key of
                  None \<Rightarrow> json_object_new_object J
                | Some object \<Rightarrow>
                    if json_object_get_type J object \<noteq> json_type_object then json_object_new_object J else object);
             object \<leftarrow> json_object_object_add J object key val;
             json_object_object_add J t parent_key object
           }
           else json_object_object_add J t key val);
     let h = h\<lparr>runtime := Some t\<rparr>;
     Some (h, prv_config_write_config J alloc_ok can_write h files)
   }"

definition ticosd_config_set_string ::
  "'j json_c \<Rightarrow> (nat \<Rightarrow> bool) \<Rightarrow> (string \<Rightarrow> bool) \<Rightarrow> 'j sTicosdConfig \<Rightarrow> string \<Rightarrow> string \<Rightarrow> string \<Rightarrow> files \<Rightarrow>
   ('j sTicosdConfig \<times> files) option" where
  "ticosd_config_set_string J al cw h parent_key key val files =
     prv_config_set_object J al cw h parent_key key (json_object_new_string J val) files"

definition ticosd_config_set_integer ::
  "'j json_c \<Rightarrow> (nat \<Rightarrow> bool) \<Rightarrow> (string \<Rightarrow> bool) \<Rightarrow> 'j sTicosdConfig \<Rightarrow> string \<Rightarrow> string \<Rightarrow> int \<Rightarrow> files \<Rightarrow>
   ('j sTicosdConfig \<times> files) option" where
  "ticosd_config_set_integer J al cw h parent_key key val files =
     prv_config_set_object J al cw h parent_key key (json_object_new_int J val) files"

definition ticosd_config_set_boolean ::
  "'j json_c \<Rightarrow> (nat \<Rightarrow> bool) \<Rightarrow> (string \<Rightarrow> bool) \<Rightarrow> 'j sTicosdConfig \<Rightarrow> string \<Rightarrow> string \<Rightarrow> bool \<Rightarrow> files \<Rightarrow>
   ('j sTicosdConfig \<times> files) option" where
  "ticosd_config_set_boolean J al cw h parent_key key val files =
     prv_config_set_object J al cw h parent_key key (json_object_new_boolean J val) files"

partial_function (option) merge_fields :: "'j json_c \<Rightarrow> 'j \<Rightarrow> (string \<times> 'j) list \<Rightarrow> 'j option" where
  "merge_fields J a fs =
     (case fs of
        [] \<Rightarrow> Some a
      | (key, val) # fs \<Rightarrow> do {
          a \<leftarrow> (if json_object_get_type J val = json_type_object then
                  (case json_object_object_get_ex J a key of
                     Some tmp \<Rightarrow>
                       if json_object_get_type J tmp = json_type_object then do {
                         inner \<leftarrow> json_object_fields J val;
                         tmp \<leftarrow> merge_fields J tmp inner;
                         json_object_object_add J a key tmp
                       }
                       else json_object_object_add J a key val
                   | None \<Rightarrow> json_object_object_add J a key val)
                else json_object_object_add J a key val);
          merge_fields J a fs
        })"

declare merge_fields.simps [code]

definition prv_config_merge_objects :: "'j json_c \<Rightarrow> 'j \<Rightarrow> 'j \<Rightarrow> 'j option" where
  "prv_config_merge_objects J a b = do { fs \<leftarrow> json_object_fields J b; merge_fields J a fs }"

definition ticosd_config_init ::
  "'j json_c \<Rightarrow> (nat \<Rightarrow> bool) \<Rightarrow> string \<Rightarrow> string \<Rightarrow> files \<Rightarrow> 'j sTicosdConfig option" where
  "ticosd_config_init J alloc_ok builtin_conf file files = do {
     let b = json_tokener_parse J builtin_conf;
     b \<leftarrow> (case files file of
             None \<Rightarrow> Some b
           | Some text \<Rightarrow>
               (case json_tokener_parse J text of
                  None \<Rightarrow> Some b
                | Some object \<Rightarrow> do { b \<leftarrow> b; b \<leftarrow> prv_config_merge_objects J b object; Some (Some b) }));
     let h = \<lparr>base = b, runtime = None\<rparr>;
     let new = Some (json_object_new_object J);
     Some (h\<lparr>runtime :=
       (case ticosd_config_generate_rw_filename J alloc_ok h ''runtime.conf'' of
          None \<Rightarrow> new
        | Some runtime_path \<Rightarrow>
            (case files runtime_path of
               None \<Rightarrow> new
             | Some text \<Rightarrow>
                 (case json_tokener_parse J text of None \<Rightarrow> new | Some t \<Rightarrow> Some t)))\<rparr>)
   }"

section \<open>Whole sections\<close>

datatype eTicosdConfigType =
    kTicosdConfigTypeUnknown
  | kTicosdConfigTypeBoolean
  | kTicosdConfigTypeInteger
  | kTicosdConfigTypeString
  | kTicosdConfigTypeObject

datatype config_union = Value_b bool | Value_d int | Value_s string

text \<open>The union of the structure is only stored for the types that have a value.\<close>

record sTicosdConfigObject =
  co_key :: string
  co_type :: eTicosdConfigType
  co_value :: "config_union option"

definition store_value :: "'j json_c \<Rightarrow> 'j \<Rightarrow> sTicosdConfigObject \<Rightarrow> sTicosdConfigObject" where
  "store_value J value e =
     (case json_object_get_type J value of
        json_type_boolean \<Rightarrow>
          e\<lparr>co_type := kTicosdConfigTypeBoolean, co_value := Some (Value_b (json_object_get_boolean J value))\<rparr>
      | json_type_int \<Rightarrow>
          e\<lparr>co_type := kTicosdConfigTypeInteger, co_value := Some (Value_d (json_object_get_int J value))\<rparr>
      | json_type_string \<Rightarrow>
          e\<lparr>co_type := kTicosdConfigTypeString, co_value := Some (Value_s (json_object_get_string J value))\<rparr>
      | json_type_object \<Rightarrow> e\<lparr>co_type := kTicosdConfigTypeObject\<rparr>
      | _ \<Rightarrow> e\<lparr>co_type := kTicosdConfigTypeUnknown\<rparr>)"

fun store_at ::
  "'j json_c \<Rightarrow> string \<Rightarrow> 'j \<Rightarrow> sTicosdConfigObject list \<Rightarrow> sTicosdConfigObject list" where
  "store_at J key value [] =
     [store_value J value \<lparr>co_key = key, co_type = kTicosdConfigTypeUnknown, co_value = None\<rparr>]"
| "store_at J key value (e # es) =
     (if co_key e = key then store_value J value e # es else e # store_at J key value es)"

definition prv_config_merge_object_into_array ::
  "'j json_c \<Rightarrow> 'j option \<Rightarrow> sTicosdConfigObject list \<Rightarrow> sTicosdConfigObject list option" where
  "prv_config_merge_object_into_array J object objects =
     (case object of
        None \<Rightarrow> Some objects
      | Some object \<Rightarrow> do {
          fs \<leftarrow> json_object_fields J object;
          Some (fold (\<lambda>(key, value) es. store_at J key value es) fs objects)
        })"

definition merge_section ::
  "'j json_c \<Rightarrow> 'j option \<Rightarrow> string \<Rightarrow> sTicosdConfigObject list \<Rightarrow> sTicosdConfigObject list option" where
  "merge_section J tree parent_key objects =
     (case prv_config_find_object J tree parent_key [] of
        None \<Rightarrow> Some objects
      | Some object \<Rightarrow>
          if json_object_get_type J object = json_type_object
          then prv_config_merge_object_into_array J (Some object) objects
          else Some objects)"

definition ticosd_config_get_objects ::
  "'j json_c \<Rightarrow> 'j sTicosdConfig \<Rightarrow> string \<Rightarrow> sTicosdConfigObject list option" where
  "ticosd_config_get_objects J h parent_key = do {
     objects \<leftarrow> merge_section J (base h) parent_key [];
     merge_section J (runtime h) parent_key objects
   }"

section \<open>Laws\<close>

lemma json_add:
  assumes "json_c_laws J"
  shows "json_object_get_type J a = json_type_object \<Longrightarrow> \<exists>a'. json_object_object_add J a k v = Some a'"
    and "json_object_object_add J a k v = Some a' \<Longrightarrow> json_object_get_type J a' = json_type_object"
    and "json_object_object_add J a k v = Some a' \<Longrightarrow>
      json_object_object_get_ex J a' k' = (if k' = k then Some v else json_object_object_get_ex J a k')"
  using assms unfolding json_c_laws_def by blast+

lemma json_fields:
  assumes "json_c_laws J" and "json_object_get_type J a = json_type_object"
  obtains fs where "json_object_fields J a = Some fs" "distinct (map fst fs)" "map_of fs = json_object_object_get_ex J a"
  using assms unfolding json_c_laws_def by blast

lemma json_no_object:
  "json_c_laws J \<Longrightarrow> json_object_get_type J a \<noteq> json_type_object \<Longrightarrow> json_object_object_get_ex J a k = None"
  unfolding json_c_laws_def by blast

lemma json_new:
  assumes "json_c_laws J"
  shows "json_object_get_type J (json_object_new_object J) = json_type_object"
    and "json_object_object_get_ex J (json_object_new_object J) k = None"
    and "json_object_get_type J (json_object_new_string J s) = json_type_string"
    and "json_object_get_string J (json_object_new_string J s) = s"
  using assms unfolding json_c_laws_def by blast+

section \<open>Setting and getting\<close>

text \<open>An entry of a section of a tree, as the trees are searched.\<close>

definition section_of :: "'j json_c \<Rightarrow> 'j \<Rightarrow> string \<Rightarrow> 'j" where
  "section_of J t p =
     (case json_object_object_get_ex J t p of
        None \<Rightarrow> json_object_new_object J
      | Some ob \<Rightarrow> if json_object_get_type J ob \<noteq> json_type_object then json_object_new_object J else ob)"

lemma section_of_object: "json_c_laws J \<Longrightarrow> json_object_get_type J (section_of J t p) = json_type_object"
  by (auto simp: section_of_def json_new split: option.splits)

lemma find_section:
  assumes "json_c_laws J" and "p \<noteq> []" and "k \<noteq> []"
  shows "prv_config_find_object J (Some t) p k =
    (case json_object_object_get_ex J (section_of J t p) k of
       None \<Rightarrow> None | Some v \<Rightarrow> if json_object_get_type J v = json_type_null then None else Some v)"
  using assms by (auto simp: prv_config_find_object_def section_of_def json_new split: option.splits)

lemma set_object_section:
  assumes "json_c_laws J" and "runtime h = Some t" and "json_object_get_type J t = json_type_object" and "p \<noteq> []"
  obtains t' where
    "prv_config_set_object J al cw h p k v files =
      Some (h\<lparr>runtime := Some t'\<rparr>, prv_config_write_config J al cw (h\<lparr>runtime := Some t'\<rparr>) files)"
    "json_object_get_type J t' = json_type_object"
    "\<And>p' k'. json_object_object_get_ex J (section_of J t' p') k' =
      (if p' = p \<and> k' = k then Some v else json_object_object_get_ex J (section_of J t p') k')"
    "\<And>p'. p' \<noteq> p \<Longrightarrow> json_object_object_get_ex J t' p' = json_object_object_get_ex J t p'"
proof -
  obtain ob where ob: "json_object_object_add J (section_of J t p) k v = Some ob"
    using json_add(1) [OF assms(1) section_of_object [OF assms(1)]] by blast
  obtain t' where t': "json_object_object_add J t p ob = Some t'" using json_add(1) [OF assms(1,3)] by blast
  note g = json_add(3) [OF assms(1) t']
  have "section_of J t' p' = (if p' = p then ob else section_of J t p')" for p'
    using json_add(2) [OF assms(1) ob] by (simp add: section_of_def g)
  then have "json_object_object_get_ex J (section_of J t' p') k' =
      (if p' = p \<and> k' = k then Some v else json_object_object_get_ex J (section_of J t p') k')" for p' k'
    using json_add(3) [OF assms(1) ob] by auto
  moreover have "prv_config_set_object J al cw h p k v files =
      Some (h\<lparr>runtime := Some t'\<rparr>, prv_config_write_config J al cw (h\<lparr>runtime := Some t'\<rparr>) files)"
    using assms(2,4) ob t' by (simp add: prv_config_set_object_def section_of_def Let_def)
  ultimately show ?thesis using that g json_add(2) [OF assms(1) t'] by simp
qed


section \<open>Merging\<close>

text \<open>A value is nested only finitely deep.\<close>

definition json_depth :: "'j json_c \<Rightarrow> ('j \<Rightarrow> nat) \<Rightarrow> bool" where
  "json_depth J depth \<longleftrightarrow>
     (\<forall>a fs k v. json_object_fields J a = Some fs \<longrightarrow> (k, v) \<in> set fs \<longrightarrow> depth v < depth a)"

text \<open>What merging an entry \<open>new\<close> into an entry \<open>old\<close> gives: the new one, or the merged objects when both are objects.\<close>

definition merged_entry :: "'j json_c \<Rightarrow> 'j option \<Rightarrow> 'j option \<Rightarrow> 'j option \<Rightarrow> bool" where
  "merged_entry J old new res \<longleftrightarrow>
     (case new of
        None \<Rightarrow> res = old
      | Some v \<Rightarrow>
          (case old of
             Some ob \<Rightarrow>
               if json_object_get_type J v = json_type_object \<and> json_object_get_type J ob = json_type_object
               then res \<noteq> None \<and> res = prv_config_merge_objects J ob v else res = Some v
           | None \<Rightarrow> res = Some v))"

lemma merge_fields_Cons:
  "merge_fields J a ((key, val) # fs) = do {
     a \<leftarrow> (if json_object_get_type J val = json_type_object then
             (case json_object_object_get_ex J a key of
                Some tmp \<Rightarrow>
                  if json_object_get_type J tmp = json_type_object
                  then prv_config_merge_objects J tmp val \<bind> json_object_object_add J a key
                  else json_object_object_add J a key val
              | None \<Rightarrow> json_object_object_add J a key val)
           else json_object_object_add J a key val);
     merge_fields J a fs
   }"
  by (subst merge_fields.simps) (auto simp: prv_config_merge_objects_def bind_assoc split: option.splits)

lemma merge_fields_spec:
  assumes "json_c_laws J" and "json_depth J depth" and "\<forall>(k, v) \<in> set fs. depth v < n" and "distinct (map fst fs)"
    and "json_object_get_type J a = json_type_object"
  shows "\<exists>c. merge_fields J a fs = Some c \<and> json_object_get_type J c = json_type_object \<and>
    (\<forall>k. merged_entry J (json_object_object_get_ex J a k) (map_of fs k) (json_object_object_get_ex J c k))"
  using assms(3-5)
proof (induction n arbitrary: fs a rule: less_induct)
  case (less n)
  note deep = less.IH
  from less.prems show ?case
  proof (induction fs arbitrary: a)
    case Nil
    then show ?case by (subst merge_fields.simps) (simp add: merged_entry_def)
  next
    case (Cons e fs)
    obtain key val where e: "e = (key, val)" by fastforce
    have inner: "\<exists>m. prv_config_merge_objects J ob val = Some m"
      if "json_object_get_type J val = json_type_object" "json_object_get_type J ob = json_type_object" for ob
    proof -
      note t = that
      obtain ifs where i: "json_object_fields J val = Some ifs" "distinct (map fst ifs)"
        using json_fields [OF assms(1) t(1)] by blast
      have "\<forall>(k, v) \<in> set ifs. depth v < depth val" using assms(2) i(1) by (auto simp: json_depth_def)
      with deep [of "depth val" ifs ob] Cons.prems(1) i t(2) e show ?thesis
        by (auto simp: prv_config_merge_objects_def)
    qed
    let ?old = "json_object_object_get_ex J a key"
    have "\<exists>x. merge_fields J a (e # fs) = json_object_object_add J a key x \<bind> (\<lambda>a. merge_fields J a fs) \<and>
        merged_entry J ?old (Some val) (Some x)"
    proof (cases "json_object_get_type J val = json_type_object \<and>
        (\<exists>ob. ?old = Some ob \<and> json_object_get_type J ob = json_type_object)")
      case True
      then obtain ob where ob: "?old = Some ob" "json_object_get_type J ob = json_type_object"
        "json_object_get_type J val = json_type_object" by blast
      with inner obtain m where "prv_config_merge_objects J ob val = Some m" by blast
      with ob show ?thesis by (intro exI [of _ m]) (simp add: e merge_fields_Cons merged_entry_def)
    qed (auto simp: e merge_fields_Cons merged_entry_def intro!: exI [of _ val] split: option.splits)
    then obtain x where x: "merge_fields J a (e # fs) = json_object_object_add J a key x \<bind> (\<lambda>a. merge_fields J a fs)"
      "merged_entry J ?old (Some val) (Some x)" by blast
    obtain a' where a': "json_object_object_add J a key x = Some a'" using json_add(1) [OF assms(1) Cons.prems(3)] by blast
    note g = json_add(2,3) [OF assms(1) a']
    have key: "map_of fs key = None" using Cons.prems(2) e by (auto simp: map_of_eq_None_iff)
    have "\<exists>c. merge_fields J a' fs = Some c \<and> json_object_get_type J c = json_type_object \<and>
        (\<forall>k. merged_entry J (json_object_object_get_ex J a' k) (map_of fs k) (json_object_object_get_ex J c k))"
      by (rule Cons.IH) (use Cons.prems g(1) in simp_all)
    then obtain c where c: "merge_fields J a' fs = Some c" "json_object_get_type J c = json_type_object"
        "\<forall>k. merged_entry J (json_object_object_get_ex J a' k) (map_of fs k) (json_object_object_get_ex J c k)" by blast
    have "merged_entry J (json_object_object_get_ex J a k) (map_of (e # fs) k) (json_object_object_get_ex J c k)" for k
    proof (cases "k = key")
      case True
      have "merged_entry J (json_object_object_get_ex J a' key) (map_of fs key) (json_object_object_get_ex J c key)"
        using c(3) by blast
      with key g(2) [of key] have "json_object_object_get_ex J c key = Some x" by (simp add: merged_entry_def)
      with x(2) True e show ?thesis by simp
    next
      case False
      have "merged_entry J (json_object_object_get_ex J a' k) (map_of fs k) (json_object_object_get_ex J c k)"
        using c(3) by blast
      with False g(2) [of k] e show ?thesis by simp
    qed
    with x(1) a' c(1,2) show ?case by auto
  qed
qed

lemma merge_objects_spec:
  assumes "json_c_laws J" and "json_depth J depth" and "json_object_get_type J a = json_type_object"
    and "json_object_get_type J b = json_type_object"
  shows "\<exists>c. prv_config_merge_objects J a b = Some c \<and> json_object_get_type J c = json_type_object \<and>
    (\<forall>k. merged_entry J (json_object_object_get_ex J a k) (json_object_object_get_ex J b k) (json_object_object_get_ex J c k))"
proof -
  obtain fs where fs: "json_object_fields J b = Some fs" "distinct (map fst fs)" "map_of fs = json_object_object_get_ex J b"
    using json_fields [OF assms(1,4)] by blast
  moreover have "\<forall>(k, v) \<in> set fs. depth v < depth b" using assms(2) fs(1) by (auto simp: json_depth_def)
  ultimately show ?thesis
    using merge_fields_spec [OF assms(1,2), of fs "depth b" a] assms(3) by (auto simp: prv_config_merge_objects_def)
qed


end
