(* ===== verification/Json_Sample.thy ===== *)
theory Json_Sample
  imports Config "HOL-Library.AList"
begin

text \<open>
  A small JSON library that meets the laws the configuration relies on: trees whose objects are lists of
  entries, with a printed form that can be read back. It is what the statements about the
  configuration are applied to.
\<close>

section \<open>Trees\<close>

datatype jtree = JNull | JBool bool | JInt int | JStr string | JObj jfields
  and jfields = FNil | FCons string jtree jfields

primrec entries :: "jfields \<Rightarrow> (string \<times> jtree) list" where
  "entries FNil = []"
| "entries (FCons k v fs) = (k, v) # entries fs"

primrec fadd :: "string \<Rightarrow> jtree \<Rightarrow> jfields \<Rightarrow> jfields" where
  "fadd k v FNil = FCons k v FNil"
| "fadd k v (FCons k' v' fs) = (if k = k' then FCons k v fs else FCons k' v' (fadd k v fs))"

fun jtype :: "jtree \<Rightarrow> json_type" where
  "jtype JNull = json_type_null"
| "jtype (JBool b) = json_type_boolean"
| "jtype (JInt d) = json_type_int"
| "jtype (JStr s) = json_type_string"
| "jtype (JObj fs) = json_type_object"

fun jget :: "jtree \<Rightarrow> string \<Rightarrow> jtree option" where
  "jget (JObj fs) k = map_of (entries fs) k"
| "jget _ k = None"

fun jadd :: "jtree \<Rightarrow> string \<Rightarrow> jtree \<Rightarrow> jtree option" where
  "jadd (JObj fs) k v = Some (JObj (fadd k v fs))"
| "jadd _ k v = None"

fun jfields_of :: "jtree \<Rightarrow> (string \<times> jtree) list option" where
  "jfields_of (JObj fs) = Some (AList.clearjunk (entries fs))"
| "jfields_of _ = None"

lemma map_of_fadd: "map_of (entries (fadd k v fs)) k' = (if k' = k then Some v else map_of (entries fs) k')"
  by (induction fs rule: jfields.induct [where ?P1.0 = "\<lambda>_. True"]) auto

section \<open>Printed form\<close>

primrec esc :: "string \<Rightarrow> string" where
  "esc [] = ''.''"
| "esc (c # cs) = CHR ''x'' # c # esc cs"

fun unesc :: "string \<Rightarrow> (string \<times> string) option" where
  "unesc (m # cs) =
     (if m = CHR ''.'' then Some ([], cs)
      else case cs of [] \<Rightarrow> None | c # cs \<Rightarrow> map_option (\<lambda>(s, r). (c # s, r)) (unesc cs))"
| "unesc [] = None"

lemma unesc_esc: "unesc (esc s @ r) = Some (s, r)"
  by (induction s) simp_all

primrec print_tree :: "jtree \<Rightarrow> string" and print_fields :: "jfields \<Rightarrow> string" where
  "print_tree JNull = ''n''"
| "print_tree (JBool b) = (if b then ''t'' else ''f'')"
| "print_tree (JInt d) = (if d < 0 then ''m'' else ''p'') @ esc (replicate (nat \<bar>d\<bar>) (CHR ''1''))"
| "print_tree (JStr s) = ''s'' @ esc s"
| "print_tree (JObj fs) = ''o'' @ print_fields fs"
| "print_fields FNil = ''e''"
| "print_fields (FCons k v fs) = ''k'' @ esc k @ print_tree v @ print_fields fs"

text \<open>The first argument bounds the depth of the recursion; the text itself is long enough.\<close>

fun read_tree :: "string \<Rightarrow> string \<Rightarrow> (jtree \<times> string) option" and
  read_fields :: "string \<Rightarrow> string \<Rightarrow> (jfields \<times> string) option" where
  "read_tree (u # n) (c # cs) =
     (if c = CHR ''n'' then Some (JNull, cs)
      else if c = CHR ''t'' then Some (JBool True, cs)
      else if c = CHR ''f'' then Some (JBool False, cs)
      else if c = CHR ''m'' then map_option (\<lambda>(s, r). (JInt (- int (length s)), r)) (unesc cs)
      else if c = CHR ''p'' then map_option (\<lambda>(s, r). (JInt (int (length s)), r)) (unesc cs)
      else if c = CHR ''s'' then map_option (\<lambda>(s, r). (JStr s, r)) (unesc cs)
      else if c = CHR ''o'' then map_option (\<lambda>(fs, r). (JObj fs, r)) (read_fields n cs)
      else None)"
| "read_tree _ _ = None"
| "read_fields (u # n) (c # cs) =
     (if c = CHR ''e'' then Some (FNil, cs)
      else do {
        (k, cs) \<leftarrow> unesc cs;
        (v, cs) \<leftarrow> read_tree n cs;
        (fs, cs) \<leftarrow> read_fields n cs;
        Some (FCons k v fs, cs)
      })"
| "read_fields _ _ = None"

lemma read_print:
  "length (print_tree t) \<le> length n \<Longrightarrow> read_tree n (print_tree t @ r) = Some (t, r)"
  "length (print_fields fs) \<le> length m \<Longrightarrow> read_fields m (print_fields fs @ r') = Some (fs, r')"
proof (induction t and fs arbitrary: n r and m r')
  case (JObj fs)
  then show ?case by (cases n) simp_all
next
  case (FCons k v fs)
  obtain u j where "m = u # j" using FCons.prems by (cases m) simp_all
  with FCons show ?case by (simp add: unesc_esc)
next
  case FNil
  then show ?case by (cases m) simp_all
next
  case (JInt d)
  then show ?case by (cases n) (simp_all add: unesc_esc split: if_splits)
next
  case (JStr s)
  then show ?case by (cases n) (simp_all add: unesc_esc)
next
  case (JBool b)
  then show ?case by (cases n) (simp_all split: if_splits)
next
  case JNull
  then show ?case by (cases n) simp_all
qed

definition parse_tree :: "string \<Rightarrow> jtree option" where
  "parse_tree s = (case read_tree s s of Some (t, []) \<Rightarrow> Some t | _ \<Rightarrow> None)"

lemma parse_print: "parse_tree (print_tree t) = Some t"
  using read_print(1) [of t "print_tree t" "[]"] by (simp add: parse_tree_def)

section \<open>The library\<close>

definition tree_json :: "jtree json_c" where
  "tree_json =
     \<lparr>json_tokener_parse = parse_tree, json_object_object_get_ex = jget, json_is_string = \<lambda>t. jtype t = json_type_string,
      json_object_get_string = \<lambda>t. (case t of JStr s \<Rightarrow> s | _ \<Rightarrow> []),
      json_object_get_type = jtype, json_object_object_add = jadd, json_object_fields = jfields_of,
      json_object_new_object = JObj FNil, json_object_new_string = JStr, json_object_new_int = JInt,
      json_object_new_boolean = JBool, json_object_get_int = \<lambda>t. (case t of JInt d \<Rightarrow> d | _ \<Rightarrow> 0),
      json_object_get_boolean = \<lambda>t. (case t of JBool b \<Rightarrow> b | _ \<Rightarrow> False),
      json_object_to_json_string = print_tree\<rparr>"

lemma tree_json_laws: "json_c_laws tree_json"
proof -
  have add: "jadd a k v = Some a' \<Longrightarrow> jtype a' = json_type_object \<and>
      (\<forall>k'. jget a' k' = (if k' = k then Some v else jget a k'))" for a k v a'
    by (cases a) (auto simp: map_of_fadd)
  have object: "jtype a = json_type_object \<Longrightarrow> \<exists>fs. a = JObj fs" for a by (cases a) simp_all
  have no_object: "jtype a \<noteq> json_type_object \<Longrightarrow> jget a k = None" for a k by (cases a) simp_all
  show ?thesis
    unfolding json_c_laws_def tree_json_def
    using add object no_object
    by (auto simp: map_of_clearjunk fun_eq_iff dest!: object)
qed

lemma tree_json_depth: "json_depth tree_json size"
proof -
  have "(k, v) \<in> set (entries fs) \<Longrightarrow> size v < Suc (size fs)" for k v fs
    by (induction fs rule: jfields.induct [where ?P1.0 = "\<lambda>_. True"]) auto
  moreover have "(k, v) \<in> set (AList.clearjunk al) \<Longrightarrow> (k, v) \<in> set al" for k v and al :: "(string \<times> jtree) list"
    by (metis distinct_clearjunk map_of_SomeD map_of_clearjunk map_of_is_SomeI)
  ultimately have "json_object_fields tree_json a = Some fs \<Longrightarrow> (k, v) \<in> set fs \<Longrightarrow> size v < size a" for a fs k v
    by (cases a) (simp_all add: tree_json_def, blast)
  then show ?thesis by (auto simp: json_depth_def)
qed

section \<open>Configurations\<close>

definition sample_builtin :: jtree where
  "sample_builtin =
     JObj (FCons ''data_dir'' (JStr ''/d'') (FCons ''coredump_plugin'' (JObj (FCons ''max_size_kib'' (JInt 10) FNil)) FNil))"

definition sample_installed :: jtree where
  "sample_installed =
     JObj (FCons ''coredump_plugin'' (JObj (FCons ''compression'' (JStr ''gzip'') FNil)) FNil)"


definition sample_files :: files where
  "sample_files = (\<lambda>f. if f = ''/etc/ticosd.conf'' then Some (print_tree sample_installed) else None)"

definition sample_config :: "jtree sTicosdConfig" where
  "sample_config =
     the (ticosd_config_init tree_json (\<lambda>_. True) (print_tree sample_builtin) ''/etc/ticosd.conf'' sample_files)"

lemma sample_config_facts:
  "ticosd_config_init tree_json (\<lambda>_. True) (print_tree sample_builtin) ''/etc/ticosd.conf'' sample_files = Some sample_config"
  "runtime sample_config = Some (JObj FNil)"
  "ticosd_config_generate_rw_filename tree_json (\<lambda>_. True) sample_config ''runtime.conf'' = Some ''/d/runtime.conf''"
  "prv_config_find_object tree_json (Some (JObj FNil)) [] ''data_dir'' = None"
  "json_object_get_type tree_json (JObj FNil) = json_type_object"
  by code_simp+


end
