(* ===== verification/Config_Sections.thy ===== *)
theory Config_Sections
  imports Json_Sample
begin

text \<open>
  Whole sections of the configuration (\<^verbatim>\<open>ticosd_config_get_objects\<close> in src/util/config.c): the array of typed values agrees with the
  lookups of single values.
\<close>

section \<open>Entries by key\<close>

definition entry :: "sTicosdConfigObject list \<Rightarrow> string \<Rightarrow> sTicosdConfigObject option" where
  "entry es k = find (\<lambda>e. co_key e = k) es"

definition fresh_entry :: "string \<Rightarrow> sTicosdConfigObject" where
  "fresh_entry k = \<lparr>co_key = k, co_type = kTicosdConfigTypeUnknown, co_value = None\<rparr>"

definition stored :: "'j json_c \<Rightarrow> sTicosdConfigObject list \<Rightarrow> string \<Rightarrow> 'j option \<Rightarrow> sTicosdConfigObject option" where
  "stored J es k v =
     (case v of
        None \<Rightarrow> entry es k
      | Some v \<Rightarrow> Some (store_value J v (case entry es k of None \<Rightarrow> fresh_entry k | Some e \<Rightarrow> e)))"

lemma key_store_value [simp]: "co_key (store_value J v e) = co_key e"
  by (simp add: store_value_def split: json_type.split)

lemma entry_store_at: "entry (store_at J key v es) k = (if k = key then stored J es k (Some v) else entry es k)"
  by (induction es) (auto simp: entry_def stored_def fresh_entry_def)

lemma keys_store_at: "set (map co_key (store_at J key v es)) = insert key (set (map co_key es))"
  by (induction es) auto

lemma distinct_store_at: "distinct (map co_key es) \<Longrightarrow> distinct (map co_key (store_at J key v es))"
proof (induction es)
  case (Cons e es)
  then show ?case using keys_store_at [of J key v es] by auto
qed simp

lemma entry_fold:
  "distinct (map fst fs) \<Longrightarrow> entry (fold (\<lambda>(key, v) es. store_at J key v es) fs es) k = stored J es k (map_of fs k)"
proof (induction fs arbitrary: es)
  case (Cons f fs)
  obtain key v where f: "f = (key, v)" by (cases f)
  have "map_of fs key = None" using Cons.prems f by (auto simp: map_of_eq_None_iff)
  with Cons f show ?case by (auto simp: entry_store_at stored_def split: option.split)
qed (simp add: stored_def)

lemma distinct_fold:
  "distinct (map co_key es) \<Longrightarrow> distinct (map co_key (fold (\<lambda>(key, v) es. store_at J key v es) fs es))"
  by (induction fs arbitrary: es) (auto intro: distinct_store_at)

lemma entry_iff: "distinct (map co_key es) \<Longrightarrow> e \<in> set es \<longleftrightarrow> entry es (co_key e) = Some e"
  unfolding entry_def
  by (induction es) (auto simp: find_Some_iff)

section \<open>A section of one tree\<close>

definition section_value :: "'j json_c \<Rightarrow> 'j option \<Rightarrow> string \<Rightarrow> string \<Rightarrow> 'j option" where
  "section_value J tree parent_key k = do {
     object \<leftarrow> prv_config_find_object J tree parent_key [];
     json_object_object_get_ex J object k
   }"

lemma merge_section_entries:
  assumes "json_c_laws J"
  obtains es' where "merge_section J tree parent_key es = Some es'"
    and "\<And>k. entry es' k = stored J es k (section_value J tree parent_key k)"
    and "distinct (map co_key es) \<Longrightarrow> distinct (map co_key es')"
proof (cases "prv_config_find_object J tree parent_key []")
  case None
  then show thesis using that [of es] by (simp add: merge_section_def section_value_def stored_def)
next
  case (Some object)
  show thesis
  proof (cases "json_object_get_type J object = json_type_object")
    case False
    with Some json_no_object [OF assms] show thesis using that [of es] by (simp add: merge_section_def section_value_def stored_def)
  next
    case True
    obtain fs where fs: "json_object_fields J object = Some fs" "distinct (map fst fs)" "map_of fs = json_object_object_get_ex J object"
      by (rule json_fields [OF assms True])
    show thesis
      by (rule that [of "fold (\<lambda>(key, v) es. store_at J key v es) fs es"])
        (simp_all add: merge_section_def prv_config_merge_object_into_array_def section_value_def Some True fs entry_fold distinct_fold)
  qed
qed

lemma find_value:
  "k \<noteq> [] \<Longrightarrow> prv_config_find_object J tree parent_key k =
    (case section_value J tree parent_key k of None \<Rightarrow> None | Some v \<Rightarrow> if json_object_get_type J v = json_type_null then None else Some v)"
  by (auto simp: prv_config_find_object_def section_value_def split: option.split bind_splits)

lemma section_entries:
  assumes "json_c_laws J"
  obtains objects where "ticosd_config_get_objects J h parent_key = Some objects" and "distinct (map co_key objects)"
    and "\<And>k. entry objects k =
      (case section_value J (runtime h) parent_key k of
         Some v \<Rightarrow> Some (store_value J v (case stored J [] k (section_value J (base h) parent_key k) of
                                        None \<Rightarrow> fresh_entry k | Some e \<Rightarrow> e))
       | None \<Rightarrow> map_option (\<lambda>v. store_value J v (fresh_entry k)) (section_value J (base h) parent_key k))"
proof -
  obtain es where es: "merge_section J (base h) parent_key [] = Some es" "distinct (map co_key es)"
    "\<And>k. entry es k = stored J [] k (section_value J (base h) parent_key k)"
    by (rule merge_section_entries [OF assms, of "base h" parent_key "[]"]) simp
  obtain objects where ob: "merge_section J (runtime h) parent_key es = Some objects" "distinct (map co_key objects)"
    "\<And>k. entry objects k = stored J es k (section_value J (runtime h) parent_key k)"
    by (rule merge_section_entries [OF assms, of "runtime h" parent_key es]) (use es(2) in blast)
  show thesis
    by (rule that [of objects]) (use es ob in \<open>auto simp: ticosd_config_get_objects_def stored_def entry_def split: option.split\<close>)
qed

section \<open>Agreement with single values\<close>

text \<open>The value a lookup of the key gives for an entry of the array, by the type the entry has.\<close>

definition value_agrees :: "'j json_c \<Rightarrow> 'j sTicosdConfig \<Rightarrow> string \<Rightarrow> sTicosdConfigObject \<Rightarrow> bool" where
  "value_agrees J h parent_key e \<longleftrightarrow>
     (case co_type e of
        kTicosdConfigTypeBoolean \<Rightarrow>
          ticosd_config_get_boolean J h parent_key (co_key e) \<noteq> None \<and>
          co_value e = map_option Value_b (ticosd_config_get_boolean J h parent_key (co_key e))
      | kTicosdConfigTypeInteger \<Rightarrow>
          ticosd_config_get_integer J h parent_key (co_key e) \<noteq> None \<and>
          co_value e = map_option Value_d (ticosd_config_get_integer J h parent_key (co_key e))
      | kTicosdConfigTypeString \<Rightarrow>
          ticosd_config_get_string J h parent_key (co_key e) \<noteq> None \<and>
          co_value e = map_option Value_s (ticosd_config_get_string J h parent_key (co_key e))
      | _ \<Rightarrow> True)"

lemma stored_agrees:
  assumes "json_object_get_type J v \<noteq> json_type_null \<Longrightarrow> config_find J h parent_key (co_key e) = Some v"
  shows "value_agrees J h parent_key (store_value J v e)"
  using assms
  by (cases "json_object_get_type J v")
    (simp_all add: value_agrees_def store_value_def ticosd_config_get_boolean_def ticosd_config_get_integer_def
      ticosd_config_get_string_def)

text \<open>
  C21. The settings of a section are typed: no key appears twice, every setting that can be looked up is in the
  array, and an entry of type boolean, integer or string carries a value of just that type, the one the
  getter of that type returns for its key, wherever the built-in, the installed and the runtime configuration
  set it.
\<close>

theorem section_values_typed:
  assumes "json_c_laws J"
  shows "\<exists>objects. ticosd_config_get_objects J h parent_key = Some objects \<and> distinct (map co_key objects) \<and>
    (\<forall>k. k \<noteq> [] \<and> config_find J h parent_key k \<noteq> None \<longrightarrow> k \<in> set (map co_key objects)) \<and>
    (\<forall>e \<in> set objects. co_key e \<noteq> [] \<longrightarrow> value_agrees J h parent_key e)"
proof -
  obtain objects where ob: "ticosd_config_get_objects J h parent_key = Some objects" "distinct (map co_key objects)"
    "\<And>k. entry objects k =
      (case section_value J (runtime h) parent_key k of
         Some v \<Rightarrow> Some (store_value J v (case stored J [] k (section_value J (base h) parent_key k) of
                                        None \<Rightarrow> fresh_entry k | Some e \<Rightarrow> e))
       | None \<Rightarrow> map_option (\<lambda>v. store_value J v (fresh_entry k)) (section_value J (base h) parent_key k))"
    using section_entries [OF assms] by blast
  have "k \<in> set (map co_key objects)" if "k \<noteq> []" "config_find J h parent_key k \<noteq> None" for k
  proof -
    from that have "entry objects k \<noteq> None"
      by (auto simp: ob(3) config_find_def find_value split: option.splits if_splits)
    then show ?thesis by (auto simp: entry_def find_Some_iff)
  qed
  moreover have "value_agrees J h parent_key e" if "e \<in> set objects" "co_key e \<noteq> []" for e
  proof -
    from that(1) have e: "entry objects (co_key e) = Some e" using entry_iff [OF ob(2)] by blast
    show ?thesis
    proof (cases "section_value J (runtime h) parent_key (co_key e)")
      case None
      with e ob(3) [of "co_key e"] obtain v where "section_value J (base h) parent_key (co_key e) = Some v"
        "e = store_value J v (fresh_entry (co_key e))" by auto
      with None that(2) stored_agrees [of J v h parent_key "fresh_entry (co_key e)"] show ?thesis
        by (auto simp: fresh_entry_def config_find_def find_value)
    next
      case (Some v)
      with e ob(3) [of "co_key e"] obtain e' where e': "e = store_value J v e'"
        by (auto dest: sym)
      then have "co_key e' = co_key e" by simp
      with Some that(2) have "value_agrees J h parent_key (store_value J v e')"
        by (intro stored_agrees) (simp add: config_find_def find_value)
      with e' show ?thesis by simp
    qed
  qed
  ultimately show ?thesis using ob(1,2) by blast
qed

definition sample_runtime :: jtree where
  "sample_runtime =
     JObj (FCons ''coredump_plugin'' (JObj (FCons ''max_size_kib'' (JInt 20) (FCons ''on'' (JBool True) FNil))) FNil)"

definition sample_handle :: "jtree sTicosdConfig" where
  "sample_handle = \<lparr>base = Some sample_builtin, runtime = Some sample_runtime\<rparr>"

theorem section_values_typed_witness:
  "ticosd_config_get_objects tree_json sample_handle ''coredump_plugin'' =
     Some [\<lparr>co_key = ''max_size_kib'', co_type = kTicosdConfigTypeInteger, co_value = Some (Value_d 20)\<rparr>,
           \<lparr>co_key = ''on'', co_type = kTicosdConfigTypeBoolean, co_value = Some (Value_b True)\<rparr>] \<and>
   ticosd_config_get_integer tree_json sample_handle ''coredump_plugin'' ''max_size_kib'' = Some 20"
proof -
  have "ticosd_config_get_objects tree_json sample_handle ''coredump_plugin'' =
     Some [\<lparr>co_key = ''max_size_kib'', co_type = kTicosdConfigTypeInteger, co_value = Some (Value_d 20)\<rparr>,
           \<lparr>co_key = ''on'', co_type = kTicosdConfigTypeBoolean, co_value = Some (Value_b True)\<rparr>]"
    by code_simp
  with section_values_typed [OF tree_json_laws, of sample_handle "''coredump_plugin''"]
  show ?thesis by (auto simp: value_agrees_def)
qed

end
