(* ===== verification/Ticosd_Handle.thy ===== *)
theory Ticosd_Handle
  imports Ticosd Config
begin

text \<open>
  What the plugins see of the daemon (the accessors at the end of src/ticosd.c), the settings of the device
  (src/util/device_settings.c) and the space on the disk (src/util/disk.c). The output of
  \<^verbatim>\<open>ticos-device-info\<close>, the answers of \<^verbatim>\<open>statfs\<close> and \<^verbatim>\<open>nftw\<close> and the success of each
  allocation are arguments; \<open>None\<close> as the outcome of a call is undefined behaviour.
\<close>

section \<open>Device settings\<close>

record sTicosdDeviceSettings =
  ds_device_id :: string
  ds_hardware_version :: string

text \<open>
  \<^verbatim>\<open>fgets\<close> takes a line with its newline, or as much of it as the buffer has room for.
\<close>

definition newline :: char where "newline = CHR 0x0A"

definition fgets :: "nat \<Rightarrow> string \<Rightarrow> string \<times> string" where
  "fgets bufsize s = (let k = min (bufsize - 1) (length (takeWhile (\<lambda>c. c \<noteq> newline) s) + 1) in (take k s, drop k s))"

text \<open>
  \<^verbatim>\<open>strtok\<close> with one delimiter: leading delimiters are skipped, and there is no token in what is left
  of an exhausted string.
\<close>

definition strtok :: "char \<Rightarrow> string \<Rightarrow> string option \<times> string" where
  "strtok d s =
     (let s = dropWhile (\<lambda>c. c = d) s in
      if s = [] then (None, [])
      else (Some (takeWhile (\<lambda>c. c \<noteq> d) s), drop 1 (dropWhile (\<lambda>c. c \<noteq> d) s)))"

definition TICOS_DEVICE_ID :: string where "TICOS_DEVICE_ID = ''TICOS_DEVICE_ID''"
definition TICOS_HARDWARE_VERSION :: string where "TICOS_HARDWARE_VERSION = ''TICOS_HARDWARE_VERSION''"

definition settings_line ::
  "(nat \<Rightarrow> bool) \<Rightarrow> string \<Rightarrow> string option \<times> string option \<Rightarrow> (string option \<times> string option) option" where
  "settings_line al line ids =
     (let (name, rest) = strtok (CHR ''='') (c_str line);
          (val, _) = strtok newline rest;
          strdup = (\<lambda>v. if al (length v + 1) then Some v else None)
      in case name of
           None \<Rightarrow> None
         | Some name \<Rightarrow>
             if name = TICOS_DEVICE_ID then
               (case val of None \<Rightarrow> Some ids | Some v \<Rightarrow> if v = [] then Some ids else Some (strdup v, snd ids))
             else if name = TICOS_HARDWARE_VERSION then
               (case val of None \<Rightarrow> Some ids | Some v \<Rightarrow> if v = [] then Some ids else Some (fst ids, strdup v))
             else Some ids)"

function settings_lines ::
  "(nat \<Rightarrow> bool) \<Rightarrow> string \<Rightarrow> string option \<times> string option \<Rightarrow> (string option \<times> string option) option" where
  "settings_lines al s ids =
     (if s = [] then Some ids
      else do {
        ids \<leftarrow> settings_line al (fst (fgets 1024 s)) ids;
        settings_lines al (snd (fgets 1024 s)) ids
      })"
  by pat_completeness auto
termination by (relation "measure (\<lambda>(al, s, ids). length s)") (auto simp: fgets_def Let_def)

declare settings_lines.simps [simp del]

text \<open>\<open>output\<close> is what the program prints, if it can be started.\<close>

definition ticosd_device_settings_init ::
  "(nat \<Rightarrow> bool) \<Rightarrow> string option \<Rightarrow> sTicosdDeviceSettings option option" where
  "ticosd_device_settings_init al output =
     (case output of
        None \<Rightarrow> Some None
      | Some s \<Rightarrow>
          if \<not> al 16 then None
          else do {
            ids \<leftarrow> settings_lines al s (None, None);
            Some (case ids of
                    (Some i, Some v) \<Rightarrow> Some \<lparr>ds_device_id = i, ds_hardware_version = v\<rparr>
                  | _ \<Rightarrow> None)
          })"

lemma fgets_line: "newline \<notin> set l \<Longrightarrow> length l < bufsize - 1 \<Longrightarrow> fgets bufsize (l @ newline # s) = (l @ [newline], s)"
  by (auto simp: fgets_def takeWhile_append Let_def min_absorb2)

lemma strtok_token:
  assumes "t \<noteq> []" and "d \<notin> set t"
  shows "strtok d (t @ d # s) = (Some t, s)"
proof -
  have "dropWhile (\<lambda>c. c = d) (t @ d # s) = t @ d # s" using assms by (cases t) auto
  moreover have "\<forall>c \<in> set t. c \<noteq> d" using assms(2) by blast
  ultimately show ?thesis by (simp add: strtok_def Let_def)
qed

definition plain_value :: "string \<Rightarrow> bool" where
  "plain_value v \<longleftrightarrow> v \<noteq> [] \<and> newline \<notin> set v \<and> CHR 0x00 \<notin> set v \<and> length v < 900"

definition setting :: "string \<Rightarrow> string \<Rightarrow> string" where "setting k v = k @ ''='' @ v @ [newline]"

lemma settings_line_setting:
  assumes "plain_value v" and "k \<noteq> []" and "CHR ''='' \<notin> set k" and "CHR 0x00 \<notin> set k" and "\<forall>n. al n"
  shows "settings_line al (setting k v) ids =
    Some (if k = TICOS_DEVICE_ID then (Some v, snd ids) else if k = TICOS_HARDWARE_VERSION then (fst ids, Some v) else ids)"
proof -
  have "c_str (setting k v) = setting k v"
    using assms(1,4) by (intro c_str_id) (auto simp: setting_def plain_value_def newline_def)
  moreover have "strtok (CHR ''='') (setting k v) = (Some k, v @ [newline])"
    using strtok_token [OF assms(2,3)] by (simp add: setting_def)
  moreover have "strtok newline (v @ [newline]) = (Some v, [])"
    using assms(1) strtok_token [of v newline "[]"] by (simp add: plain_value_def)
  ultimately show ?thesis using assms(1,5) by (simp add: settings_line_def plain_value_def)
qed

lemma settings_lines_setting:
  assumes "plain_value v" and "k \<in> {TICOS_DEVICE_ID, TICOS_HARDWARE_VERSION}" and "\<forall>n. al n"
  shows "settings_lines al (setting k v @ s) ids =
    settings_lines al s (if k = TICOS_DEVICE_ID then (Some v, snd ids) else (fst ids, Some v))"
proof -
  have k: "newline \<notin> set k" "CHR ''='' \<notin> set k" "CHR 0x00 \<notin> set k" "k \<noteq> []" "length k < 100"
    using assms(2) by (auto simp: TICOS_DEVICE_ID_def TICOS_HARDWARE_VERSION_def newline_def)
  have "fgets 1024 (setting k v @ s) = (setting k v, s)"
    using fgets_line [of "k @ ''='' @ v" 1024 s] k assms(1) by (simp add: setting_def plain_value_def newline_def)
  with settings_line_setting [OF assms(1) k(4,2,3) assms(3)] assms(2) show ?thesis
    by (subst settings_lines.simps) (auto simp: setting_def)
qed

lemma device_settings_read:
  assumes "plain_value i" and "plain_value v" and "\<forall>n. al n"
  shows "ticosd_device_settings_init al (Some (setting TICOS_DEVICE_ID i @ setting TICOS_HARDWARE_VERSION v)) =
    Some (Some \<lparr>ds_device_id = i, ds_hardware_version = v\<rparr>)"
proof -
  have "TICOS_HARDWARE_VERSION \<noteq> TICOS_DEVICE_ID" by (simp add: TICOS_DEVICE_ID_def TICOS_HARDWARE_VERSION_def)
  moreover have "settings_lines al (setting TICOS_HARDWARE_VERSION v) ids = Some (fst ids, Some v)" for ids
    using settings_lines_setting [OF assms(2) _ assms(3), of TICOS_HARDWARE_VERSION "[]"] calculation
    by (simp add: settings_lines.simps [of al "[]"])
  moreover have "settings_lines al (setting TICOS_DEVICE_ID i @ s) ids = settings_lines al s (Some i, snd ids)" for s ids
    using settings_lines_setting [OF assms(1) _ assms(3), of TICOS_DEVICE_ID] by simp
  ultimately show ?thesis using assms(3) by (simp add: ticosd_device_settings_init_def)
qed

section \<open>The handle\<close>

record 'j sTicosd =
  td_queue :: sTicosdQueue
  td_config :: "'j sTicosdConfig"
  td_settings :: sTicosdDeviceSettings
  td_dev_mode :: bool

definition ticosd_get_boolean :: "'j json_c \<Rightarrow> 'j sTicosd \<Rightarrow> string \<Rightarrow> string \<Rightarrow> bool option" where
  "ticosd_get_boolean J t parent_key key = ticosd_config_get_boolean J (td_config t) parent_key key"

definition ticosd_get_integer :: "'j json_c \<Rightarrow> 'j sTicosd \<Rightarrow> string \<Rightarrow> string \<Rightarrow> int option" where
  "ticosd_get_integer J t parent_key key = ticosd_config_get_integer J (td_config t) parent_key key"

definition ticosd_get_string :: "'j json_c \<Rightarrow> 'j sTicosd \<Rightarrow> string \<Rightarrow> string \<Rightarrow> string option" where
  "ticosd_get_string J t parent_key key = ticosd_config_get_string J (td_config t) parent_key key"

definition ticosd_get_objects :: "'j json_c \<Rightarrow> 'j sTicosd \<Rightarrow> string \<Rightarrow> sTicosdConfigObject list option" where
  "ticosd_get_objects J t parent_key = ticosd_config_get_objects J (td_config t) parent_key"

definition ticosd_generate_rw_filename :: "'j json_c \<Rightarrow> (nat \<Rightarrow> bool) \<Rightarrow> 'j sTicosd \<Rightarrow> string \<Rightarrow> string option" where
  "ticosd_generate_rw_filename J al t filename = ticosd_config_generate_rw_filename J al (td_config t) filename"

text \<open>\<^verbatim>\<open>ticosd_txdata\<close> on the queue and with the configuration of the handle.\<close>

definition handle_txdata ::
  "'j json_c \<Rightarrow> 'j sTicosd \<Rightarrow> sTicosdTxData \<Rightarrow> nat \<Rightarrow> (bool \<times> 'j sTicosd) option" where
  "handle_txdata J t data payload_size = do {
     (ok, q) \<leftarrow> ticosd_txdata (ticosd_get_boolean J t [] ''enable_data_collection'') (td_queue t) data payload_size;
     Some (ok, t\<lparr>td_queue := q\<rparr>)
   }"

lemma handle_txdata_queues:
  assumes "ticosd_get_boolean J t [] ''enable_data_collection'' = Some True" and "rep (td_queue t) xs"
    and "room (td_queue t) (txdata_bytes data)" and "payload_size = length (payload data)" and "payload_size < 2 ^ 31"
  shows "\<exists>q. handle_txdata J t data payload_size = Some (True, t\<lparr>td_queue := q\<rparr>) \<and>
    rep q (xs @ [txdata_bytes data]) \<and> queue_put (td_queue t) (txdata_bytes data) = Some (True, q)"
proof -
  obtain q where q: "queue_put (td_queue t) (txdata_bytes data) = Some (True, q)" "rep q (xs @ [txdata_bytes data])"
    using txq.write_back [OF assms(2,3)] by blast
  moreover have "u32_of (1 + payload_size) = length (txdata_bytes data)"
    using assms(4,5) by (simp add: txdata_bytes_def u32_of_def)
  ultimately show ?thesis using assms(1) by (auto simp: handle_txdata_def ticosd_txdata_def)
qed

lemma txdata_refused:
  assumes "handle_txdata J t data n = Some (False, t')"
  shows "t' = t"
  using assms by (auto simp: handle_txdata_def ticosd_txdata_def ticosd_queue_write_def Let_def split: bind_splits if_splits)

text \<open>
  What the plugins work on: the handle, the files, the directories, the descriptors that were closed and the requests made to
  systemd, in this order.
\<close>

datatype bus_call = Restart_Unit string | Kill_Unit string int

record 'j world =
  w_ticosd :: "'j sTicosd"
  w_files :: "string \<Rightarrow> byte list option"
  w_dirs :: "string list"
  w_closed :: "int list"
  w_bus :: "bus_call list"

section \<open>Space on the disk\<close>

record statfs_buf =
  f_bsize :: nat
  f_bfree :: nat
  f_bavail :: nat

definition ticosd_get_free_space :: "statfs_buf option \<Rightarrow> bool \<Rightarrow> nat" where
  "ticosd_get_free_space statfs privileged =
     (case statfs of
        None \<Rightarrow> 0
      | Some b \<Rightarrow> if privileged then u64_of (f_bsize b * f_bfree b) else u64_of (f_bsize b * f_bavail b))"

text \<open>\<open>walk\<close> is the size of each entry that \<^verbatim>\<open>nftw\<close> visits, or that it fails.\<close>

definition prv_get_folder_size_sum :: "nat \<Rightarrow> nat \<Rightarrow> nat" where
  "prv_get_folder_size_sum st_size s_foldersize = u64_of (s_foldersize + st_size)"

definition ticosd_get_folder_size :: "nat list option \<Rightarrow> nat" where
  "ticosd_get_folder_size walk = (case walk of None \<Rightarrow> 0 | Some sizes \<Rightarrow> fold prv_get_folder_size_sum sizes 0)"

lemma folder_size_sum: "sum_list sizes < 2 ^ 64 \<Longrightarrow> ticosd_get_folder_size (Some sizes) = sum_list sizes"
proof -
  have "s + sum_list sizes < 2 ^ 64 \<Longrightarrow> fold prv_get_folder_size_sum sizes s = s + sum_list sizes" for s
    by (induction sizes arbitrary: s) (simp_all add: prv_get_folder_size_sum_def u64_of_id add.assoc)
  then show "sum_list sizes < 2 ^ 64 \<Longrightarrow> ?thesis" by (simp add: ticosd_get_folder_size_def)
qed

end
