(* ===== verification/Ipc.thy ===== *)
theory Ipc
  imports Ticosd_Handle
begin

text \<open>
  Messages between the daemon and its helpers: what \<^verbatim>\<open>recvmsg\<close> delivers, the C library functions the
  message handlers read it with, sending a message (src/util/ipc.c), the process id file (src/util/pid.c) and
  the message of the core handler
  (src/meta-ticos/recipes-ticos/ticos-core-handler/files/ticos-core-handler/ticos-core-handler.c). A buffer is the list of all its bytes, received or
  left over; reading behind its end is the outcome \<open>None\<close>.
\<close>

section \<open>Received messages\<close>

datatype cmsg = Scm_Rights int | Other_Cmsg

record msghdr =
  iov_base :: "byte list"
  msg_control :: "cmsg list"

definition buf_chars :: "byte list \<Rightarrow> string" where "buf_chars bs = map (\<lambda>b. char_of (unat b)) bs"

definition strnlen :: "byte list \<Rightarrow> nat \<Rightarrow> nat" where
  "strnlen s maxlen = length (takeWhile (\<lambda>b. b \<noteq> 0) (take maxlen s))"

text \<open>Whether \<^verbatim>\<open>strcmp\<close> of a literal and a string in a buffer is 0; it stops at the first difference.\<close>

fun strcmp_eq :: "string \<Rightarrow> byte list \<Rightarrow> bool option" where
  "strcmp_eq s [] = None"
| "strcmp_eq [] (b # bs) = Some (b = 0)"
| "strcmp_eq (c # s) (b # bs) = (if b \<noteq> of_char c then Some False else strcmp_eq s bs)"

text \<open>\<^verbatim>\<open>strtol\<close> in base 10: the value and the rest of the buffer, or that there is no number.\<close>

definition strtol :: "byte list \<Rightarrow> (int \<times> byte list) option option" where
  "strtol s =
     (let cs = buf_chars s in
      case scan_long cs of
        None \<Rightarrow> if dropWhile is_space cs \<in> {[], ''+'', ''-''} then None else Some None
      | Some (v, rest) \<Rightarrow> if rest = [] then None else Some (Some (v, drop (length s - length rest) s)))"

definition int32 :: "int \<Rightarrow> int" where "int32 v = sint (word_of_int v :: 32 word)"

lemma int32_id: "- (2 ^ 31) \<le> v \<Longrightarrow> v < 2 ^ 31 \<Longrightarrow> int32 v = v"
  by (simp add: int32_def signed_of_int signed_take_bit_int_eq_self)

text \<open>NUL-terminated strings behind one another.\<close>

lemma of_char_0_iff: "of_char c = (0 :: byte) \<longleftrightarrow> c = CHR 0x00"
proof
  assume "of_char c = (0 :: byte)"
  then have "of_char c = (of_char (CHR 0x00) :: nat)" using unat_of_char [of c] by simp
  then show "c = CHR 0x00" by (simp only: of_char_eq_iff)
qed simp

lemma c_bytes_no_nul: "CHR 0x00 \<notin> set s \<Longrightarrow> \<forall>b \<in> set (c_bytes s). b \<noteq> 0"
  by (auto simp: c_bytes_def of_char_0_iff)

lemma buf_chars_c_bytes: "buf_chars (c_bytes s) = s"
  by (simp add: buf_chars_def c_bytes_def unat_of_char comp_def)

lemma strnlen_string:
  assumes "CHR 0x00 \<notin> set s" and "length s < n"
  shows "strnlen (c_bytes s @ 0 # rest) n = length s"
proof -
  from assms(2) obtain k where "n = length s + Suc k" using less_iff_Suc_add by auto
  then have "take n (c_bytes s @ 0 # rest) = c_bytes s @ 0 # take k rest" by simp
  with c_bytes_no_nul [OF assms(1)] show ?thesis by (simp add: strnlen_def)
qed

lemma strcmp_eq_string: "strcmp_eq s (c_bytes s @ 0 # rest) = Some True"
  by (induction s) (simp_all add: c_bytes_def)

lemma strcmp_eq_defined: "0 \<in> set bs \<Longrightarrow> CHR 0x00 \<notin> set s \<Longrightarrow> \<exists>b. strcmp_eq s bs = Some b"
  by (induction s bs rule: strcmp_eq.induct) (auto simp: of_char_0_iff)

lemma strcmp_eq_True:
  "strcmp_eq s bs = Some True \<Longrightarrow> take (length s + 1) bs = c_bytes s @ [0]"
  by (induction s bs rule: strcmp_eq.induct) (auto simp: c_bytes_def split: if_splits)

lemma strtol_show_int:
  assumes "- (2 ^ 63) \<le> v" and "v < 2 ^ 63"
  shows "strtol (c_bytes (show_int v) @ 0 # rest) = Some (Some (v, 0 # rest))"
proof -
  let ?s = "c_bytes (show_int v) @ 0 # rest"
  have "buf_chars ?s = show_int v @ CHR 0x00 # buf_chars rest"
    using buf_chars_c_bytes [of "show_int v"] by (simp add: buf_chars_def char_of_def)
  moreover have "scan_long (show_int v @ CHR 0x00 # buf_chars rest) = Some (v, CHR 0x00 # buf_chars rest)"
    by (rule scan_show_int) (use assms in \<open>simp_all add: is_digit_def\<close>)
  ultimately show ?thesis by (simp add: strtol_def buf_chars_def)
qed

section \<open>Sending\<close>

text \<open>
  \<open>have_socket\<close> is whether a socket can be created; \<open>sendto\<close> answers the number of bytes sent or -1,
  and the datagram that is delivered.
\<close>

definition ticosd_ipc_sendmsg :: "bool \<Rightarrow> (byte list \<Rightarrow> int) \<Rightarrow> byte list \<Rightarrow> nat \<Rightarrow> bool" where
  "ticosd_ipc_sendmsg have_socket sendto msg len =
     (if \<not> have_socket then False
      else let result = sendto (take len msg) in result mod 2 ^ 64 = int len)"

text \<open>\<open>pid_file\<close> is what reading the file yields: it can be missing or unreadable.\<close>

datatype pid_file = Pid_Missing | Pid_Unopened | Pid_Unread | Pid_Read string

definition ticosd_check_for_pid_file :: "pid_file \<Rightarrow> bool" where
  "ticosd_check_for_pid_file f = (f \<noteq> Pid_Missing)"

definition atoi :: "string \<Rightarrow> int" where
  "atoi s = (case scan_long s of None \<Rightarrow> 0 | Some (v, _) \<Rightarrow> int32 v)"

definition ticosd_get_pid :: "pid_file \<Rightarrow> int" where
  "ticosd_get_pid f =
     (case f of
        Pid_Missing \<Rightarrow> - 1
      | Pid_Unopened \<Rightarrow> - 1
      | Pid_Unread \<Rightarrow> - 1
      | Pid_Read s \<Rightarrow> atoi (c_str (take 11 s)))"

definition ticosd_send_flush_queue_signal :: "pid_file \<Rightarrow> (int \<Rightarrow> bool) \<Rightarrow> bool" where
  "ticosd_send_flush_queue_signal f kill_ok =
     (let pid = ticosd_get_pid f in if pid = - 1 then False else kill_ok pid)"

section \<open>The core handler\<close>

text \<open>
  The message of the core handler: the strings \<^verbatim>\<open>CORE\<close> and \<^verbatim>\<open>ELF\<close> and its arguments one behind
  the other. \<^verbatim>\<open>strncpy\<close> copies a string up to the room and fills the rest with zeros; it has no terminating
  NUL only if the room is used up, and the buffer keeps a zero behind the room. When there is no room left, the
  subtraction wraps around and the buffer overflows.
\<close>

definition TX_BUFFER_SIZE :: nat where "TX_BUFFER_SIZE = 1024"

fun put_strings :: "string list \<Rightarrow> byte list \<Rightarrow> byte list option" where
  "put_strings [] sent = Some sent"
| "put_strings (s # ss) sent =
     (if TX_BUFFER_SIZE < length sent + 1 then None
      else put_strings ss (sent @ c_bytes (take (TX_BUFFER_SIZE - length sent - 1) (c_str s)) @ [0]))"

definition core_handler_message :: "string list \<Rightarrow> byte list option" where
  "core_handler_message args = put_strings (''CORE'' # ''ELF'' # args) []"

text \<open>
  The loop that sends it: at most \<open>tx_retry_count\<close> failures are waited out. The answers of
  \<^verbatim>\<open>sendmsg\<close> are given; the result is whether the message was sent and how many seconds were slept.
\<close>

fun core_handler_send :: "int \<Rightarrow> int \<Rightarrow> bool list \<Rightarrow> (bool \<times> nat) option" where
  "core_handler_send tx_retry_count i [] = None"
| "core_handler_send tx_retry_count i (sent # answers) =
     (if sent then Some (True, 0)
      else if i + 1 > tx_retry_count then Some (False, 0)
      else map_option (\<lambda>(ok, s). (ok, s + 1)) (core_handler_send tx_retry_count (i + 1) answers))"

text \<open>
  The exit code: the daemon's answer has to be as long as an \<^verbatim>\<open>int\<close>, and its first byte counts, as
  a signed \<^verbatim>\<open>char\<close>.
\<close>

definition core_handler_result :: "byte list option \<Rightarrow> int" where
  "core_handler_result answer =
     (case answer of None \<Rightarrow> 1 | Some bs \<Rightarrow> if length bs \<noteq> 4 then 1 else sint (hd bs))"

lemma length_show_nat: "n < 10 ^ Suc k \<Longrightarrow> length (show_nat n) \<le> Suc k"
proof (induction k arbitrary: n)
  case (Suc k)
  then have "n div 10 < 10 ^ Suc k" by (simp add: div_less_iff_less_mult)
  with Suc.IH show ?case by (subst show_nat.simps) simp
qed (simp add: show_nat.simps)

lemma core_handler_message_pid:
  assumes "0 \<le> pid" and "pid < 2 ^ 31"
  shows "core_handler_message [show_int pid] = Some (c_bytes ''CORE'' @ 0 # c_bytes ''ELF'' @ 0 # c_bytes (show_int pid) @ [0])"
proof -
  have "CHR 0x00 \<notin> set (show_int pid)"
    using show_nat_digits [of "nat pid"] assms by (auto simp: show_int_def is_digit_def)
  moreover have "length (show_int pid) \<le> 10" using length_show_nat [of "nat pid" 9] assms by (simp add: show_int_def)
  ultimately show ?thesis by (simp add: core_handler_message_def TX_BUFFER_SIZE_def c_str_id c_bytes_def)
qed

end
