(* ===== verification/Core_Handler.thy ===== *)
theory Core_Handler
  imports Ipc
begin

text \<open>
  The core handler as a program
  (src/meta-ticos/recipes-ticos/ticos-core-handler/files/ticos-core-handler/ticos-core-handler.c): the kernel starts it with the core
  of a crashed process on its standard input, and it passes the descriptor on to the daemon. What \<^verbatim>\<open>getopt\<close> makes of the
  command line and the answers of the system calls are arguments.
\<close>

section \<open>Options\<close>

text \<open>\<^verbatim>\<open>strtol\<close> with base 0, as it is used on the options: no number is 0.\<close>

definition digit_value :: "char \<Rightarrow> nat" where
  "digit_value c =
     (let n = of_char c :: nat in
      if 48 \<le> n \<and> n \<le> 57 then n - 48
      else if 65 \<le> n \<and> n \<le> 70 then n - 55
      else if 97 \<le> n \<and> n \<le> 102 then n - 87 else 36)"

definition number_base :: "string \<Rightarrow> nat \<times> string" where
  "number_base s =
     (case s of
        [] \<Rightarrow> (10, [])
      | c # cs \<Rightarrow>
          if c \<noteq> CHR ''0'' then (10, s)
          else (case cs of
                  x # h # _ \<Rightarrow> if x \<in> set ''xX'' \<and> digit_value h < 16 then (16, tl cs) else (8, s)
                | _ \<Rightarrow> (8, s)))"

definition strtol_any :: "string \<Rightarrow> int" where
  "strtol_any s =
     (let s = dropWhile is_space s;
          (neg, s) = (case s of
             [] \<Rightarrow> (False, [])
           | c # cs \<Rightarrow> if c = CHR ''-'' then (True, cs) else if c = CHR ''+'' then (False, cs) else (False, s));
          (b, s) = number_base s;
          v = int (foldl (\<lambda>n c. n * b + digit_value c) 0 (takeWhile (\<lambda>c. digit_value c < b) s))
      in clamp64 (if neg then - v else v))"

record handler_options =
  completion_timeout :: int
  tx_retry_count :: int

definition default_options :: handler_options where
  "default_options = \<lparr>completion_timeout = 60, tx_retry_count = 10\<rparr>"

text \<open>The options in order; \<open>None\<close> prints the usage and ends the program.\<close>

fun core_handler_options :: "(char \<times> string) list \<Rightarrow> handler_options \<Rightarrow> handler_options option" where
  "core_handler_options [] os = Some os"
| "core_handler_options ((opt, optarg) # opts) os =
     (if opt = CHR ''r'' then core_handler_options opts (os\<lparr>tx_retry_count := int32 (strtol_any optarg)\<rparr>)
      else if opt = CHR ''t'' then core_handler_options opts (os\<lparr>completion_timeout := int32 (strtol_any optarg)\<rparr>)
      else None)"

section \<open>The program\<close>

text \<open>
  \<open>hv_tmp_name\<close> is the name \<^verbatim>\<open>mkstemps\<close> leaves in the template, \<open>hv_unlink_first_ok\<close> and \<open>hv_unlink_ok\<close> are whether a file can be
  removed before the socket is bound and afterwards, \<open>hv_sent\<close> are the answers of \<^verbatim>\<open>sendmsg\<close>, \<open>hv_signal\<close> is whether a signal arrives while
  the program waits, and \<open>hv_answer\<close> is what the daemon sends back, if anything.
\<close>

record handler_env =
  hv_socket_ok :: bool
  hv_tmp_name :: string
  hv_tmp_ok :: bool
  hv_unlink_first_ok :: bool
  hv_unlink_ok :: bool
  hv_bind_ok :: bool
  hv_sent :: "bool list"
  hv_timeout_ok :: bool
  hv_signal :: bool
  hv_answer :: "byte list option"

record handler_state =
  hs_open :: bool
  hs_files :: "string list"
  hs_messages :: "byte list list"
  hs_slept :: nat

text \<open>The program ends with an exit code, or it waits for an answer without a limit.\<close>

datatype handler_end = Handler_Exit int handler_state | Handler_Waits handler_state

definition resp_socket :: string where "resp_socket = ''/tmp/ticos-core-handler-XXXXXX.sock''"

text \<open>A file that does not exist need not be removed.\<close>

definition unlink_socket :: "bool \<Rightarrow> string \<Rightarrow> handler_state \<Rightarrow> bool \<times> handler_state" where
  "unlink_socket ok name st =
     (if name \<notin> set (hs_files st) then (True, st)
      else if \<not> ok then (False, st)
      else (True, st\<lparr>hs_files := filter (\<lambda>f. f \<noteq> name) (hs_files st)\<rparr>))"

text \<open>The signal handler also shuts the socket down, which ends a call that waits on it.\<close>

definition prv_sig_handler :: "handler_env \<Rightarrow> string \<Rightarrow> handler_state \<Rightarrow> handler_state" where
  "prv_sig_handler env name st = snd (unlink_socket (hv_unlink_ok env) name st)"

definition handler_cleanup :: "handler_env \<Rightarrow> string \<Rightarrow> int \<Rightarrow> handler_state \<Rightarrow> handler_end" where
  "handler_cleanup env name ret st =
     (let st = (if hs_open st then st\<lparr>hs_open := False\<rparr> else st) in
      Handler_Exit ret (snd (unlink_socket (hv_unlink_ok env) name st)))"

text \<open>A receive timeout of 0 is none; a negative one does not wait at all.\<close>

definition wait_for_answer :: "handler_env \<Rightarrow> int \<Rightarrow> string \<Rightarrow> handler_state \<Rightarrow> handler_end" where
  "wait_for_answer env seconds name st =
     (if hv_signal env then handler_cleanup env name (core_handler_result None) (prv_sig_handler env name st)
      else if hv_answer env = None \<and> (\<not> hv_timeout_ok env \<or> seconds = 0) then Handler_Waits st
      else handler_cleanup env name (core_handler_result (hv_answer env)) st)"

definition deliver_core :: "handler_env \<Rightarrow> handler_options \<Rightarrow> string list \<Rightarrow> string \<Rightarrow> handler_state \<Rightarrow> handler_end option" where
  "deliver_core env os args name st = do {
     msg \<leftarrow> core_handler_message args;
     (sent, slept) \<leftarrow> core_handler_send (tx_retry_count os) 0 (hv_sent env);
     let st = st\<lparr>hs_slept := hs_slept st + slept\<rparr>;
     Some (if \<not> sent then handler_cleanup env name 1 st
           else wait_for_answer env (completion_timeout os) name (st\<lparr>hs_messages := hs_messages st @ [msg]\<rparr>))
   }"

definition core_handler_main ::
  "handler_env \<Rightarrow> (char \<times> string) list \<Rightarrow> string list \<Rightarrow> handler_state \<Rightarrow> handler_end option" where
  "core_handler_main env opts args st =
     (case core_handler_options opts default_options of
        None \<Rightarrow> Some (Handler_Exit 1 st)
      | Some os \<Rightarrow>
          if \<not> hv_socket_ok env then Some (handler_cleanup env resp_socket 1 st)
          else
            let st = st\<lparr>hs_open := True\<rparr>; name = hv_tmp_name env in
            if \<not> hv_tmp_ok env then Some (handler_cleanup env name 1 st)
            else
              let (ok, st) = unlink_socket (hv_unlink_first_ok env) name (st\<lparr>hs_files := name # hs_files st\<rparr>) in
              if \<not> ok then Some (handler_cleanup env name 1 st)
              else if \<not> hv_bind_ok env then Some (handler_cleanup env name 1 st)
              else deliver_core env os args name (st\<lparr>hs_files := name # hs_files st\<rparr>))"

section \<open>Its end\<close>

lemma put_strings_fit:
  "length sent + sum_list (map (\<lambda>s. length s + 1) ss) \<le> TX_BUFFER_SIZE \<Longrightarrow> \<exists>m. put_strings ss sent = Some m"
proof (induction ss arbitrary: sent)
  case (Cons s ss)
  have "length (c_bytes (take (TX_BUFFER_SIZE - length sent - 1) (c_str s))) \<le> length s"
    using length_takeWhile_le [of _ s] by (simp add: c_bytes_def c_str_def le_trans [OF min.cobounded1] min.coboundedI1)
  then show ?case using Cons.prems by (auto intro!: Cons.IH)
qed simp

text \<open>The loop that sends waits once for each failure but the last.\<close>

lemma handler_send_tries:
  "nat (r - i) < length answers \<Longrightarrow>
   \<exists>s. core_handler_send r i answers = Some (True \<in> set (take (Suc (nat (r - i))) answers), s) \<and> s \<le> nat (r - i)"
proof (induction answers arbitrary: i)
  case (Cons a answers)
  show ?case
  proof (cases "a \<or> r < i + 1")
    case True
    then show ?thesis by auto
  next
    case False
    then have n: "nat (r - i) = Suc (nat (r - (i + 1)))" by linarith
    with Cons.prems have "nat (r - (i + 1)) < length answers" by simp
    from Cons.IH [OF this] obtain s where
      "core_handler_send r (i + 1) answers = Some (True \<in> set (take (Suc (nat (r - (i + 1)))) answers), s)"
      "s \<le> nat (r - (i + 1))" by blast
    with False n show ?thesis by auto
  qed
qed simp

text \<open>What a run that ends leaves behind.\<close>

definition left_clean :: "handler_state \<Rightarrow> handler_state \<Rightarrow> bool" where
  "left_clean st st' \<longleftrightarrow> \<not> hs_open st' \<and> set (hs_files st') = set (hs_files st)"

lemma unlink_clean:
  "set (hs_files (snd (unlink_socket True name st))) = set (hs_files st) - {name}"
  "hs_open (snd (unlink_socket ok name st)) = hs_open st"
  "hs_messages (snd (unlink_socket ok name st)) = hs_messages st" "hs_slept (snd (unlink_socket ok name st)) = hs_slept st"
  by (auto simp: unlink_socket_def)

lemma cleanup_clean:
  assumes "hv_unlink_ok env" and "name \<notin> set (hs_files st0)" and "set (hs_files st) - {name} = set (hs_files st0)"
  obtains st' where "handler_cleanup env name ret st = Handler_Exit ret st'" and "left_clean st0 st'"
    and "hs_messages st' = hs_messages st" and "hs_slept st' = hs_slept st"
  using assms by (simp add: handler_cleanup_def Let_def left_clean_def unlink_clean)

lemma wait_clean:
  assumes "hv_unlink_ok env" and "name \<notin> set (hs_files st0)" and "set (hs_files st) - {name} = set (hs_files st0)"
    and "hv_timeout_ok env" and "seconds \<noteq> 0"
  shows "\<exists>code st'. wait_for_answer env seconds name st = Handler_Exit code st' \<and> left_clean st0 st' \<and>
    hs_messages st' = hs_messages st \<and> hs_slept st' = hs_slept st \<and> (hv_answer env = None \<longrightarrow> code = 1)"
proof (cases "hv_signal env")
  case True
  have "set (hs_files (prv_sig_handler env name st)) - {name} = set (hs_files st0)"
    using assms(1,3) by (auto simp: prv_sig_handler_def unlink_clean)
  then show ?thesis
    by (rule cleanup_clean [OF assms(1,2), where ret = "core_handler_result None"])
      (use True in \<open>auto simp: wait_for_answer_def core_handler_result_def prv_sig_handler_def unlink_clean\<close>)
next
  case False
  show ?thesis
    by (rule cleanup_clean [OF assms(1-3), where ret = "core_handler_result (hv_answer env)"])
      (use False assms(4,5) in \<open>auto simp: wait_for_answer_def core_handler_result_def\<close>)
qed

lemma deliver_clean:
  assumes "hv_unlink_ok env" and "name \<notin> set (hs_files st0)" and "set (hs_files st) - {name} = set (hs_files st0)"
    and "hv_timeout_ok env" and "completion_timeout os \<noteq> 0" and "nat (tx_retry_count os) < length (hv_sent env)"
    and "core_handler_message args = Some m"
  shows "\<exists>code st'. deliver_core env os args name st = Some (Handler_Exit code st') \<and> left_clean st0 st' \<and>
    hs_slept st' \<le> hs_slept st + nat (tx_retry_count os) \<and> (hv_answer env = None \<longrightarrow> code = 1) \<and>
    hs_messages st' = hs_messages st @ (if True \<in> set (take (Suc (nat (tx_retry_count os))) (hv_sent env)) then [m] else [])"
proof -
  obtain s where s: "core_handler_send (tx_retry_count os) 0 (hv_sent env) =
      Some (True \<in> set (take (Suc (nat (tx_retry_count os))) (hv_sent env)), s)" "s \<le> nat (tx_retry_count os)"
    using handler_send_tries [of "tx_retry_count os" 0 "hv_sent env"] assms(6) by auto
  let ?st = "st\<lparr>hs_slept := hs_slept st + s\<rparr>"
  show ?thesis
  proof (cases "True \<in> set (take (Suc (nat (tx_retry_count os))) (hv_sent env))")
    case True
    obtain code st' where "wait_for_answer env (completion_timeout os) name (?st\<lparr>hs_messages := hs_messages st @ [m]\<rparr>) = Handler_Exit code st'"
      "left_clean st0 st'" "hs_messages st' = hs_messages st @ [m]" "hs_slept st' = hs_slept st + s" "hv_answer env = None \<longrightarrow> code = 1"
      using wait_clean [OF assms(1,2), of "?st\<lparr>hs_messages := hs_messages st @ [m]\<rparr>" "completion_timeout os"] assms(3-5) by auto
    with s True assms(7) show ?thesis by (simp add: deliver_core_def)
  next
    case False
    have "set (hs_files ?st) - {name} = set (hs_files st0)" using assms(3) by simp
    then obtain st' where "handler_cleanup env name 1 ?st = Handler_Exit 1 st'" "left_clean st0 st'"
      "hs_messages st' = hs_messages st" "hs_slept st' = hs_slept st + s"
      by (rule cleanup_clean [OF assms(1,2), where ret = 1]) simp
    with s False assms(7) show ?thesis by (simp add: deliver_core_def)
  qed
qed

text \<open>The set-up: each of its failures goes to the cleanup.\<close>

definition set_up :: "handler_env \<Rightarrow> bool" where
  "set_up env \<longleftrightarrow> hv_socket_ok env \<and> hv_tmp_ok env \<and> hv_unlink_first_ok env \<and> hv_bind_ok env"

lemma main_set_up:
  assumes "core_handler_options opts default_options = Some os" and "hv_tmp_name env \<notin> set (hs_files st)"
  shows "set_up env \<Longrightarrow> core_handler_main env opts args st =
      deliver_core env os args (hv_tmp_name env) (st\<lparr>hs_open := True, hs_files := hv_tmp_name env # hs_files st\<rparr>)"
    and "\<not> set_up env \<Longrightarrow> \<exists>name st1. core_handler_main env opts args st = Some (handler_cleanup env name 1 st1) \<and>
      name \<in> {resp_socket, hv_tmp_name env} \<and> set (hs_files st1) - {name} = set (hs_files st) - {name} \<and>
      hs_messages st1 = hs_messages st \<and> hs_slept st1 = hs_slept st"
proof -
  have f: "filter (\<lambda>f. f \<noteq> hv_tmp_name env) (hs_files st) = hs_files st"
    using assms(2) by (auto simp: filter_id_conv)
  show "set_up env \<Longrightarrow> core_handler_main env opts args st =
      deliver_core env os args (hv_tmp_name env) (st\<lparr>hs_open := True, hs_files := hv_tmp_name env # hs_files st\<rparr>)"
    by (simp add: core_handler_main_def assms(1) set_up_def unlink_socket_def f Let_def)
  show "\<not> set_up env \<Longrightarrow> \<exists>name st1. core_handler_main env opts args st = Some (handler_cleanup env name 1 st1) \<and>
      name \<in> {resp_socket, hv_tmp_name env} \<and> set (hs_files st1) - {name} = set (hs_files st) - {name} \<and>
      hs_messages st1 = hs_messages st \<and> hs_slept st1 = hs_slept st"
    using f by (auto simp: core_handler_main_def assms(1) set_up_def unlink_socket_def Let_def intro!: exI conjI)
qed


definition handler_sample :: handler_env where
  "handler_sample =
     \<lparr>hv_socket_ok = True, hv_tmp_name = ''/tmp/ticos-core-handler-a.sock'', hv_tmp_ok = True, hv_unlink_first_ok = True,
      hv_unlink_ok = True, hv_bind_ok = True, hv_sent = [False, True, True, True], hv_timeout_ok = True, hv_signal = False,
      hv_answer = None\<rparr>"

definition handler_start :: handler_state where
  "handler_start = \<lparr>hs_open = False, hs_files = [''/x''], hs_messages = [], hs_slept = 0\<rparr>"


end
