(* ===== verification/Coredump.thy ===== *)
theory Coredump
  imports Ipc Core_Elf_Delivery Rate_Limiter
begin

text \<open>
  The coredump plugin (src/plugins/coredump/coredump.c and coredump_ratelimiter.c): it receives a core file through a
  descriptor of a message, lets the transformer write it to the core directory under a fresh name, within
  the limits on disk space, and queues the name of the file for upload. What the system answers is the
  environment; the daemon's handle, the files, the directories and the descriptors that were closed
  are the state. \<open>None\<close> as the outcome is undefined behaviour or a loop that does not return.
\<close>

section \<open>Environment and state\<close>

record 'zs coredump_env =
  ce_alloc :: "nat \<Rightarrow> bool"
  ce_malloc :: "nat \<Rightarrow> byte list"
  mkdir_ok :: "string \<Rightarrow> bool"
  unlink_ok :: "string \<Rightarrow> bool"
  uuid_str :: string
  sdk_version :: string
  epoch_s :: int
  tv_sec :: int
  open_mem :: "string \<Rightarrow> int"
  pread_mem :: "int \<Rightarrow> nat \<Rightarrow> nat \<Rightarrow> byte list option"
  open_excl_ok :: "string \<Rightarrow> bool"
  stream :: "int \<Rightarrow> byte list \<times> read_answer list"
  out_answers :: "write_result list"
  out_fsync_ok :: bool
  deflateInit2 :: "int \<Rightarrow> int \<Rightarrow> 'zs option"
  deflate_call :: "'zs deflate"
  statfs :: "string \<Rightarrow> statfs_buf option"
  nftw :: "string \<Rightarrow> nat list option"
  rate_file_ok :: bool
  pattern_open_ok :: bool
  pattern_write_ok :: bool

record coredump_plugin =
  enable_data_collection :: bool
  rate_limiter :: "sTicosdRateLimiter option"
  core_dir :: string
  gzip_enabled :: bool

section \<open>Helpers\<close>

definition prv_create_dir ::
  "'j json_c \<Rightarrow> 'zs coredump_env \<Rightarrow> string \<Rightarrow> 'j world \<Rightarrow> string option \<times> 'j world" where
  "prv_create_dir J env subdir w =
     (case ticosd_get_string J (w_ticosd w) [] ''data_dir'' of
        None \<Rightarrow> (None, w)
      | Some data_dir \<Rightarrow>
          if data_dir = [] then (None, w)
          else
            let path = data_dir @ ''/'' @ subdir in
            if \<not> ce_alloc env (length path + 1) then (None, w)
            else if path \<in> set (w_dirs w) then (Some path, w)
            else if \<not> mkdir_ok env path then (None, w)
            else (Some path, w\<lparr>w_dirs := path # w_dirs w\<rparr>))"

definition prv_generate_filename ::
  "'zs coredump_env \<Rightarrow> coredump_plugin \<Rightarrow> string \<Rightarrow> string \<Rightarrow> string option" where
  "prv_generate_filename env h pre extension =
     (let filename = core_dir h @ ''/'' @ pre @ uuid_str env @ extension in
      if ce_alloc env (length filename + 1) then Some filename else None)"

definition prv_init_metadata ::
  "'j json_c \<Rightarrow> 'zs coredump_env \<Rightarrow> 'j sTicosd \<Rightarrow> sTicosCoreElfMetadata option" where
  "prv_init_metadata J env t =
     (case ticosd_get_string J t [] ''software_type'' of
        None \<Rightarrow> None
      | Some ty \<Rightarrow>
          if ty = [] then None
          else (case ticosd_get_string J t [] ''software_version'' of
                  None \<Rightarrow> None
                | Some v \<Rightarrow>
                    if v = [] then None
                    else Some \<lparr>linux_sdk_version = c_bytes (sdk_version env),
                               captured_time_epoch_s = (if epoch_s env \<noteq> - 1 then nat (epoch_s env mod 2 ^ 32) else 0),
                               device_serial = c_bytes (ds_device_id (td_settings t)),
                               hardware_version = c_bytes (ds_hardware_version (td_settings t)),
                               software_type = c_bytes ty, software_version = c_bytes v\<rparr>))"

text \<open>
  A run of the transformer from a descriptor into a new file. When the metadata is incomplete, the
  clean-up closes the descriptor of a handler that was never initialised, which is undefined.
\<close>

definition run_transformer ::
  "'zs coredump_env \<Rightarrow> int \<Rightarrow> int \<Rightarrow> 'io sTicosCoreElfWriteIO \<Rightarrow> 'io \<Rightarrow> sTicosCoreElfMetadata \<Rightarrow>
   (bool \<times> 'io) option" where
  "run_transformer env in_fd mem_fd ops io metadata = do {
     (ok, r) \<leftarrow> ticos_core_elf_transformer_run
       (transformer_env file_read_io (ce_alloc env) (ce_malloc env) (prv_copy_proc_mem (pread_mem env) mem_fd))
       (ticos_core_elf_transformer_init
         (ticos_core_elf_read_file_io_init (fst (stream env in_fd)) (snd (stream env in_fd))) ops io metadata);
     Some (ok, out_io (w_out (t_writer (r_owner r))))
   }"

definition prv_transform_coredump_from_fd_to_file ::
  "'j json_c \<Rightarrow> 'zs coredump_env \<Rightarrow> coredump_plugin \<Rightarrow> string \<Rightarrow> int \<Rightarrow> int \<Rightarrow> nat \<Rightarrow> 'j world \<Rightarrow>
   (bool \<times> 'j world) option" where
  "prv_transform_coredump_from_fd_to_file J env h path in_fd pid limit w =
     (case prv_init_metadata J env (w_ticosd w) of
        None \<Rightarrow> None
      | Some metadata \<Rightarrow>
          let (ok, mem_fd) = ticos_init_core_elf_transformer_procfs_handler (open_mem env) pid in
          if \<not> ok then Some (False, w)
          else if w_files w path \<noteq> None \<or> \<not> open_excl_ok env path then Some (False, w)
          else
            let out = (\<lambda>bytes. w\<lparr>w_files := (w_files w)(path \<mapsto> bytes)\<rparr>);
                wio = ticos_core_elf_write_file_io_init [] limit (out_answers env) (out_fsync_ok env)
            in if gzip_enabled h then
                 (case ticos_core_elf_write_gzip_io_init (deflateInit2 env) wio of
                    None \<Rightarrow> Some (False, out [])
                  | Some gz \<Rightarrow> do {
                      (ok, gz) \<leftarrow> run_transformer env in_fd mem_fd
                        (gzip_ops (deflate_call env) file_ops errno_is_EINTR) gz metadata;
                      Some (ok, out (fio_bytes (gz_next gz)))
                    })
               else do {
                 (ok, wio) \<leftarrow> run_transformer env in_fd mem_fd file_ops wio metadata;
                 Some (ok, out (fio_bytes wio))
               })"

definition prv_build_queue_entry ::
  "(nat \<Rightarrow> bool) \<Rightarrow> bool \<Rightarrow> string \<Rightarrow> (sTicosdTxData \<times> nat) option" where
  "prv_build_queue_entry al gzip filename =
     (let filename_len = length filename in
      if \<not> al (1 + filename_len + 1) then None
      else Some
        (\<lparr>tx_type = txdata_type (if gzip then kTicosdTxDataType_CoreUploadWithGzip else kTicosdTxDataType_CoreUpload),
          payload = c_bytes filename @ [0]\<rparr>,
         u32_of (filename_len + 1)))"

text \<open>
  The settings are stored through an \<^verbatim>\<open>int\<close> pointer into the lower half of a \<^verbatim>\<open>size_t\<close> that was 0,
  so a negative setting becomes a large one.
\<close>

definition size_setting :: "int option \<Rightarrow> nat" where
  "size_setting v = (case v of None \<Rightarrow> 0 | Some d \<Rightarrow> nat (d mod 2 ^ 32))"

definition prv_check_for_available_space :: "'j json_c \<Rightarrow> 'zs coredump_env \<Rightarrow> coredump_plugin \<Rightarrow> 'j sTicosd \<Rightarrow> nat" where
  "prv_check_for_available_space J env h t =
     (let kib = (\<lambda>key. size_setting (ticosd_get_integer J t ''coredump_plugin'' key));
          min_headroom = kib ''storage_min_headroom_kib'';
          max_usage = kib ''storage_max_usage_kib'';
          max_core = kib ''coredump_max_size_kib''
      in if min_headroom = 0 \<and> max_usage = 0 \<and> max_core = 0
         then ticosd_get_free_space (statfs env (core_dir h)) False
         else
           let min_headroom = u64_of (min_headroom * 1024);
               max_usage = u64_of (max_usage * 1024);
               max_core = u64_of (max_core * 1024);
               free = ticosd_get_free_space (statfs env (core_dir h)) True;
               used = ticosd_get_folder_size (nftw env (core_dir h))
           in if min_headroom \<noteq> 0 \<and> free \<le> min_headroom then 0
              else
                let headroom_delta = (if min_headroom \<noteq> 0 then free - min_headroom else 2 ^ 64 - 1) in
                if max_usage \<noteq> 0 \<and> used \<ge> max_usage then 0
                else
                  let usage_delta = (if max_usage \<noteq> 0 then max_usage - used else 2 ^ 64 - 1) in
                  min (min headroom_delta usage_delta) max_core)"

section \<open>The message handler\<close>

text \<open>The descriptor of the first message that carries one.\<close>

fun find_stream :: "cmsg list \<Rightarrow> int" where
  "find_stream [] = - 1"
| "find_stream (Scm_Rights fd # cs) = fd"
| "find_stream (Other_Cmsg # cs) = find_stream cs"

text \<open>The process id in a message, if the message is valid.\<close>

definition core_message_pid :: "byte list \<Rightarrow> nat \<Rightarrow> int option option" where
  "core_message_pid rx received_size =
     (let offset = strnlen rx received_size + 1 in
      if offset \<ge> received_size then Some None
      else
        let match_subtype = drop offset rx;
            offset = offset + strnlen match_subtype (received_size - offset) + 1
        in do {
          _ \<leftarrow> strcmp_eq ''ELF'' match_subtype;
          if offset \<ge> received_size then Some None
          else do {
            number \<leftarrow> strtol (drop offset rx);
            case number of
              None \<Rightarrow> Some None
            | Some (v, endptr) \<Rightarrow> Some (if hd endptr \<noteq> 0 then None else Some (int32 v))
          }
        })"

definition unlink_file :: "'zs coredump_env \<Rightarrow> string \<Rightarrow> 'j world \<Rightarrow> 'j world" where
  "unlink_file env path w = (if unlink_ok env path then w\<lparr>w_files := (w_files w)(path := None)\<rparr> else w)"

text \<open>The history the rate limiter writes to its file.\<close>

definition save_history :: "sTicosdRateLimiter option \<Rightarrow> string option \<Rightarrow> 'j world \<Rightarrow> 'j world" where
  "save_history rl hist w =
     (case (rl, hist) of
        (Some l, Some s) \<Rightarrow>
          (case rl_file l of None \<Rightarrow> w | Some f \<Rightarrow> w\<lparr>w_files := (w_files w)(f \<mapsto> c_bytes s)\<rparr>)
      | _ \<Rightarrow> w)"

text \<open>
  What is done for a core file: whether it is a success, the name of the output file once there is one,
  and the new state.
\<close>

definition store_corefile ::
  "'j json_c \<Rightarrow> 'zs coredump_env \<Rightarrow> coredump_plugin \<Rightarrow> int \<Rightarrow> int \<Rightarrow> 'j world \<Rightarrow>
   (bool \<times> string option \<times> 'j world) option" where
  "store_corefile J env h file_stream pid w =
     (let limit = prv_check_for_available_space J env h (w_ticosd w) in
      if limit = 0 then Some (False, None, w)
      else case prv_generate_filename env h ''corefile-'' (if gzip_enabled h then ''.gz'' else []) of
        None \<Rightarrow> Some (False, None, w)
      | Some outfile \<Rightarrow> do {
          (ok, w) \<leftarrow> prv_transform_coredump_from_fd_to_file J env h outfile file_stream pid limit w;
          if \<not> ok then Some (False, Some outfile, unlink_file env outfile w)
          else case prv_build_queue_entry (ce_alloc env) (gzip_enabled h) outfile of
            None \<Rightarrow> Some (False, Some outfile, w)
          | Some (data, payload_size) \<Rightarrow> do {
              (ok, t) \<leftarrow> handle_txdata J (w_ticosd w) data payload_size;
              Some (ok, Some outfile, w\<lparr>w_ticosd := t\<rparr>)
            }
        })"

definition process_corefile ::
  "'j json_c \<Rightarrow> 'zs coredump_env \<Rightarrow> coredump_plugin \<Rightarrow> int \<Rightarrow> int \<Rightarrow> 'j world \<Rightarrow>
   (bool \<times> string option \<times> coredump_plugin \<times> 'j world) option" where
  "process_corefile J env h file_stream pid w =
     (if \<not> enable_data_collection h then Some (True, None, h, w)
      else do {
        (ok, rl, hist) \<leftarrow> ticosd_rate_limiter_check_event (rate_file_ok env) (tv_sec env) (rate_limiter h);
        let h = h\<lparr>rate_limiter := rl\<rparr>;
        let w = save_history rl hist w;
        if \<not> ok then Some (True, None, h, w)
        else do { (ok, outfile, w) \<leftarrow> store_corefile J env h file_stream pid w; Some (ok, outfile, h, w) }
      })"

definition core_cleanup ::
  "'zs coredump_env \<Rightarrow> bool \<Rightarrow> int \<Rightarrow> string option \<Rightarrow> 'j world \<Rightarrow> 'j world" where
  "core_cleanup env ok file_stream outfile w =
     (let w = (if file_stream \<noteq> - 1 then w\<lparr>w_closed := w_closed w @ [file_stream]\<rparr> else w) in
      if \<not> ok then (case outfile of None \<Rightarrow> w | Some f \<Rightarrow> unlink_file env f w) else w)"

definition prv_msg_handler ::
  "'j json_c \<Rightarrow> 'zs coredump_env \<Rightarrow> coredump_plugin \<Rightarrow> msghdr \<Rightarrow> nat \<Rightarrow> 'j world \<Rightarrow>
   (bool \<times> coredump_plugin \<times> 'j world) option" where
  "prv_msg_handler J env h msg received_size w =
     (let file_stream = find_stream (msg_control msg) in
      if file_stream = - 1 then Some (False, h, core_cleanup env False file_stream None w)
      else do {
        pid \<leftarrow> core_message_pid (iov_base msg) received_size;
        case pid of
          None \<Rightarrow> Some (False, h, core_cleanup env False file_stream None w)
        | Some pid \<Rightarrow> do {
            (ok, outfile, h, w) \<leftarrow> process_corefile J env h file_stream pid w;
            Some (ok, h, core_cleanup env ok file_stream outfile w)
          }
      })"

section \<open>Initialisation\<close>

definition CORE_PATTERN_PATH :: string where "CORE_PATTERN_PATH = ''/proc/sys/kernel/core_pattern''"
definition CORE_PATTERN :: string where "CORE_PATTERN = ''|/usr/sbin/ticos-core-handler %P''"
definition COMPRESSION_DEFAULT :: string where "COMPRESSION_DEFAULT = ''gzip''"
definition RATE_LIMIT_FILENAME :: string where "RATE_LIMIT_FILENAME = ''coredump_rate_limit''"

text \<open>The result is \<open>Some None\<close> when there is no rate limiter.\<close>

definition coredump_create_rate_limiter ::
  "'j json_c \<Rightarrow> 'zs coredump_env \<Rightarrow> 'j world \<Rightarrow> sTicosdRateLimiter option option" where
  "coredump_create_rate_limiter J env w =
     (let t = w_ticosd w;
          setting = (\<lambda>key. if td_dev_mode t then 0
            else case ticosd_get_integer J t ''coredump_plugin'' key of None \<Rightarrow> 0 | Some d \<Rightarrow> d);
          count = setting ''rate_limit_count'';
          path = ticosd_generate_rw_filename J (ce_alloc env) t RATE_LIMIT_FILENAME;
          state = (case path of
             None \<Rightarrow> Missing
           | Some f \<Rightarrow> (case w_files w f of
               None \<Rightarrow> Missing
             | Some bs \<Rightarrow> if rate_file_ok env then Opened (buf_chars bs) else Unreadable))
      in ticosd_rate_limiter_init True (ce_alloc env 32) (ce_alloc env (nat (8 * count))) path state
           count (setting ''rate_limit_duration_seconds'') (Some RATE_LIMIT_FILENAME))"

definition ticosd_coredump_init ::
  "'j json_c \<Rightarrow> 'zs coredump_env \<Rightarrow> 'j world \<Rightarrow> (coredump_plugin option \<times> 'j world) option" where
  "ticosd_coredump_init J env w =
     (if \<not> ce_alloc env 40 then None
      else
        let enabled = (ticosd_get_boolean J (w_ticosd w) [] ''enable_data_collection'' = Some True);
            (dir, w) = prv_create_dir J env ''core'' w
        in case dir of
             None \<Rightarrow> Some (None, w)
           | Some dir \<Rightarrow>
               if \<not> pattern_open_ok env then Some (None, w)
               else if \<not> pattern_write_ok env then Some (None, w)
               else do {
                 let w = w\<lparr>w_files := (w_files w)(CORE_PATTERN_PATH \<mapsto> c_bytes CORE_PATTERN)\<rparr>;
                 rl \<leftarrow> coredump_create_rate_limiter J env w;
                 let compression =
                   (case ticosd_get_string J (w_ticosd w) ''coredump_plugin'' ''compression'' of
                      None \<Rightarrow> COMPRESSION_DEFAULT | Some s \<Rightarrow> s);
                 let gzip = (if compression = ''gzip'' then True else if compression = ''none'' then False else True);
                 Some (Some \<lparr>enable_data_collection = enabled, rate_limiter = rl, core_dir = dir, gzip_enabled = gzip\<rparr>, w)
               })"

section \<open>All or nothing\<close>

definition core_filename :: "'zs coredump_env \<Rightarrow> coredump_plugin \<Rightarrow> string" where
  "core_filename env h = core_dir h @ ''/corefile-'' @ uuid_str env @ (if gzip_enabled h then ''.gz'' else [])"

definition limiter_file :: "coredump_plugin \<Rightarrow> string \<Rightarrow> bool" where
  "limiter_file h f \<longleftrightarrow> (\<exists>l. rate_limiter h = Some l \<and> rl_file l = Some f)"

text \<open>The state keeps the queue, and all files but the one of the rate limiter.\<close>

definition kept :: "coredump_plugin \<Rightarrow> 'j world \<Rightarrow> 'j world \<Rightarrow> bool" where
  "kept h w w' \<longleftrightarrow> w_ticosd w' = w_ticosd w \<and> (\<forall>f. \<not> limiter_file h f \<longrightarrow> w_files w' f = w_files w f)"

lemma filename_generated:
  "prv_generate_filename env h ''corefile-'' (if gzip_enabled h then ''.gz'' else []) =
    (if ce_alloc env (length (core_filename env h) + 1) then Some (core_filename env h) else None)"
  by (simp add: prv_generate_filename_def core_filename_def Let_def)

lemma check_event_file:
  "ticosd_rate_limiter_check_event b now rl = Some (ok, rl', hist) \<Longrightarrow> map_option rl_file rl' = map_option rl_file rl"
  by (auto simp: ticosd_rate_limiter_check_event_def Let_def split: option.splits if_splits)

lemma save_history_kept:
  assumes "ticosd_rate_limiter_check_event b now (rate_limiter h) = Some (ok, rl, hist)"
  shows "kept h w (save_history rl hist w)" "w_closed (save_history rl hist w) = w_closed w"
proof -
  have "rl = Some l \<Longrightarrow> rl_file l = Some f \<Longrightarrow> limiter_file h f" for l f
    using check_event_file [OF assms] by (cases "rate_limiter h") (auto simp: limiter_file_def)
  then show "kept h w (save_history rl hist w)"
    by (auto simp: kept_def save_history_def split: option.splits)
  show "w_closed (save_history rl hist w) = w_closed w" by (auto simp: save_history_def split: option.splits)
qed

lemma transform_world:
  assumes "prv_transform_coredump_from_fd_to_file J env h path fd pid limit w = Some (ok, w')"
  shows "w' = w \<and> \<not> ok \<or> w_files w path = None \<and> (\<exists>bs. w' = w\<lparr>w_files := (w_files w)(path \<mapsto> bs)\<rparr>)"
  using assms
  by (auto simp: prv_transform_coredump_from_fd_to_file_def Let_def split: option.splits if_splits bind_splits prod.splits)

text \<open>A core file that is stored, by a successful transformation within the limit, and queued for upload.\<close>

definition stored_and_queued ::
  "'j json_c \<Rightarrow> 'zs coredump_env \<Rightarrow> coredump_plugin \<Rightarrow> int \<Rightarrow> int \<Rightarrow> 'j world \<Rightarrow> 'j world \<Rightarrow> bool" where
  "stored_and_queued J env h fd pid w w' \<longleftrightarrow>
     (\<exists>bs data n.
        0 < prv_check_for_available_space J env h (w_ticosd w) \<and>
        prv_transform_coredump_from_fd_to_file J env h (core_filename env h) fd pid
            (prv_check_for_available_space J env h (w_ticosd w)) w =
          Some (True, w\<lparr>w_files := (w_files w)(core_filename env h \<mapsto> bs)\<rparr>) \<and>
        prv_build_queue_entry (ce_alloc env) (gzip_enabled h) (core_filename env h) = Some (data, n) \<and>
        handle_txdata J (w_ticosd w) data n = Some (True, w_ticosd w') \<and>
        w_files w' = (w_files w)(core_filename env h \<mapsto> bs))"

lemma cleanup_fields:
  "w_closed (core_cleanup env ok fd outfile w) = w_closed w @ (if fd = - 1 then [] else [fd])"
  "w_ticosd (core_cleanup env ok fd outfile w) = w_ticosd w"
  "w_files (core_cleanup env True fd outfile w) = w_files w" "w_files (core_cleanup env ok fd None w) = w_files w"
  "unlink_ok env f \<Longrightarrow> w_files (core_cleanup env False fd (Some f) w) = (w_files w)(f := None)"
  by (simp_all add: core_cleanup_def unlink_file_def Let_def split: option.splits)

lemma store_outcome:
  assumes p: "store_corefile J env h fd pid w = Some (ok, outfile, w')"
    and fresh: "w_files w (core_filename env h) = None" "unlink_ok env (core_filename env h)"
  shows "w_closed w' = w_closed w \<and>
    (w_ticosd w' = w_ticosd w \<and> w_files (core_cleanup env ok fd outfile w') = w_files w \<or>
     ok \<and> stored_and_queued J env h fd pid w w')"
proof (cases outfile)
  case None
  with p show ?thesis
    by (auto simp: store_corefile_def Let_def cleanup_fields split: if_splits option.splits bind_splits prod.splits)
next
  case (Some f)
  let ?f = "core_filename env h" and ?limit = "prv_check_for_available_space J env h (w_ticosd w)"
  note p' = p [unfolded store_corefile_def filename_generated Let_def]
  from p' Some have f: "f = ?f" by (auto split: if_splits option.splits bind_splits prod.splits)
  from p' Some obtain ok2 w2 where nz: "0 < ?limit"
    and tr: "prv_transform_coredump_from_fd_to_file J env h ?f fd pid ?limit w = Some (ok2, w2)"
    and rest: "(if \<not> ok2 then Some (False, Some ?f, unlink_file env ?f w2)
      else case prv_build_queue_entry (ce_alloc env) (gzip_enabled h) ?f of
        None \<Rightarrow> Some (False, Some ?f, w2)
      | Some (data, n) \<Rightarrow> do {
          (ok, t) \<leftarrow> handle_txdata J (w_ticosd w2) data n; Some (ok, Some ?f, w2\<lparr>w_ticosd := t\<rparr>)
        }) = Some (ok, outfile, w')"
    by (auto split: if_splits bind_splits)
  define g where "g = w_files w2"
  from transform_world [OF tr] fresh(1) have w2: "w2 = w\<lparr>w_files := g\<rparr>" and g: "g(?f := None) = w_files w"
    and ok2: "ok2 \<Longrightarrow> \<exists>bs. g = (w_files w)(?f \<mapsto> bs)"
    by (auto simp: g_def fun_upd_idem)
  show ?thesis
  proof (cases "ok \<and> ok2")
    case True
    with rest w2 ok2 nz tr show ?thesis
      by (auto simp: stored_and_queued_def split: option.splits bind_splits prod.splits)
  next
    case False
    with rest w2 g fresh Some f show ?thesis
      by (auto simp: cleanup_fields unlink_file_def fun_upd_idem split: option.splits bind_splits prod.splits if_splits dest!: txdata_refused)
  qed
qed

lemma process_corefile_outcome:
  assumes p: "process_corefile J env h fd pid w = Some (ok, outfile, h', w')"
    and fresh: "w_files w (core_filename env h) = None" "\<not> limiter_file h (core_filename env h)"
      "unlink_ok env (core_filename env h)"
  shows "w_closed w' = w_closed w \<and>
    (kept h w (core_cleanup env ok fd outfile w') \<or>
     ok \<and> (\<exists>w1. kept h w w1 \<and> stored_and_queued J env h' fd pid w1 (core_cleanup env ok fd outfile w')))"
proof (cases "enable_data_collection h")
  case False
  with p show ?thesis by (auto simp: process_corefile_def cleanup_fields kept_def)
next
  case True
  with p obtain okr rl hist where rl:
    "ticosd_rate_limiter_check_event (rate_file_ok env) (tv_sec env) (rate_limiter h) = Some (okr, rl, hist)"
    and rest: "(if \<not> okr then Some (True, None, h\<lparr>rate_limiter := rl\<rparr>, save_history rl hist w)
      else do { (ok, outfile, w) \<leftarrow> store_corefile J env (h\<lparr>rate_limiter := rl\<rparr>) fd pid (save_history rl hist w);
                Some (ok, outfile, h\<lparr>rate_limiter := rl\<rparr>, w) }) = Some (ok, outfile, h', w')"
    by (auto simp: process_corefile_def Let_def split: bind_splits)
  note k = save_history_kept [OF rl, of w]
  show ?thesis
  proof (cases okr)
    case False
    with rest k show ?thesis by (auto simp: kept_def cleanup_fields)
  next
    case True
    let ?h = "h\<lparr>rate_limiter := rl\<rparr>" and ?w = "save_history rl hist w"
    from True rest have st: "store_corefile J env ?h fd pid ?w = Some (ok, outfile, w')" and h': "h' = ?h"
      by (auto split: bind_splits)
    have "core_filename env ?h = core_filename env h" by (simp add: core_filename_def)
    moreover have "w_files ?w (core_filename env h) = None" using k(1) fresh(1,2) by (simp add: kept_def)
    ultimately have "w_closed w' = w_closed ?w \<and>
        (w_ticosd w' = w_ticosd ?w \<and> w_files (core_cleanup env ok fd outfile w') = w_files ?w \<or>
         ok \<and> stored_and_queued J env ?h fd pid ?w w')"
      using store_outcome [OF st] fresh(3) by simp
    then show ?thesis
    proof (elim conjE disjE, goal_cases)
      case 1
      with k show ?case by (simp add: kept_def cleanup_fields)
    next
      case 2
      then have "stored_and_queued J env h' fd pid ?w (core_cleanup env ok fd outfile w')"
        by (simp add: stored_and_queued_def h' cleanup_fields)
      with 2 k show ?case by auto
    qed
  qed
qed

text \<open>
  C11. A core file is stored and queued, or leaves no trace. Whatever message the plugin gets, if the name for
  a new core file is not in use and files can be removed, then afterwards either the queue and every file
  (but the history of the rate limiter) are as they were, or the handler reports success and the directory has exactly one new
  file, written by a successful run of the transformer within the space available, whose name has been
  handed to the queue. In every case the descriptor that came with the message is closed, once.
\<close>

theorem corefile_all_or_nothing:
  assumes "prv_msg_handler J env h msg received_size w = Some (ok, h', w')"
    and "w_files w (core_filename env h) = None" and "\<not> limiter_file h (core_filename env h)"
    and "unlink_ok env (core_filename env h)" and "fd = find_stream (msg_control msg)"
  shows "w_closed w' = w_closed w @ (if fd = - 1 then [] else [fd]) \<and>
    (kept h w w' \<or> ok \<and> (\<exists>pid w1. kept h w w1 \<and> stored_and_queued J env h' fd pid w1 w'))"
proof (cases "\<exists>pid. core_message_pid (iov_base msg) received_size = Some (Some pid) \<and> fd \<noteq> - 1")
  case False
  with assms(1,5) show ?thesis
    by (auto simp: prv_msg_handler_def Let_def cleanup_fields kept_def split: if_splits bind_splits option.splits)
next
  case True
  with assms(1,5) obtain pid outfile w2 where
    "process_corefile J env h fd pid w = Some (ok, outfile, h', w2)" "w' = core_cleanup env ok fd outfile w2"
    by (auto simp: prv_msg_handler_def Let_def split: if_splits bind_splits)
  with process_corefile_outcome [OF _ assms(2-4)] show ?thesis by (fastforce simp: cleanup_fields)
qed

end
