(* ===== verification/Coredump_Capture.thy ===== *)
theory Coredump_Capture
  imports Coredump Json_Sample
begin

text \<open>
  From the message of the core handler to the file in the core directory and the entry in the transmit queue:
  the coredump plugin put together with the message format, the transformer, the compressed and the plain
  output, the limits on disk space and the queue.
\<close>

section \<open>Space\<close>

abbreviation core_setting :: "'j json_c \<Rightarrow> 'j sTicosd \<Rightarrow> string \<Rightarrow> nat" where
  "core_setting J t key \<equiv> 1024 * size_setting (ticosd_get_integer J t ''coredump_plugin'' key)"

lemma u64_of_setting: "u64_of (size_setting v * 1024) = 1024 * size_setting v"
proof -
  have "size_setting v < 2 ^ 32"
    using pos_mod_bound [of "2 ^ 32 :: int"] by (auto simp: size_setting_def nat_less_iff split: option.splits)
  then show ?thesis by (simp add: u64_of_id)
qed

lemma free_space_less: "ticosd_get_free_space b p < 2 ^ 64"
  by (auto simp: ticosd_get_free_space_def u64_of_def split: option.splits)


section \<open>The file\<close>

text \<open>
  A core file as the kernel writes it: a valid ELF header, the segment table behind it and then \<open>rest\<close>, which has the
  notes where the table says. \<open>segs\<close> are the segments with their data, from the file or from memory.
\<close>

definition regular_core ::
  "Elf_Ehdr \<Rightarrow> Elf_Phdr list \<Rightarrow> byte list \<Rightarrow> read_answer list \<Rightarrow> (nat \<Rightarrow> byte option) \<Rightarrow>
   (nat \<Rightarrow> nat \<Rightarrow> byte list option) \<Rightarrow> (Elf_Phdr \<times> byte list) list \<Rightarrow> bool" where
  "regular_core eh hs rest answers memory cp segs \<longleftrightarrow>
     ehdr_ok eh \<and> (\<forall>p \<in> set hs. phdr_ok p) \<and> ticos_core_elf_reader_is_valid_core_elf (Some (ehdr_bytes eh)) \<and>
     e_phoff eh = sizeof_Elf_Ehdr \<and> e_phnum eh = length hs \<and> (\<forall>a \<in> set answers. \<forall>e. a \<noteq> Fail e) \<and>
     length rest < 2 ^ 63 \<and> copies memory cp \<and>
     expected cp (sizeof_Elf_Ehdr + sizeof_Elf_Phdr * length hs) rest hs = Some segs \<and>
     demand (map fst segs) < 2 ^ 63"

definition core_bytes :: "Elf_Ehdr \<Rightarrow> Elf_Phdr list \<Rightarrow> byte list \<Rightarrow> byte list" where
  "core_bytes eh hs rest = ehdr_bytes eh @ concat (map phdr_bytes hs) @ rest"

definition memory_of :: "'zs coredump_env \<Rightarrow> int \<Rightarrow> nat \<Rightarrow> nat \<Rightarrow> byte list option" where
  "memory_of env pid = prv_copy_proc_mem (pread_mem env) (open_mem env (procfs_mem_path pid))"

text \<open>Memory can be allocated, and what is allocated has the size that was asked for.\<close>

definition has_memory :: "'zs coredump_env \<Rightarrow> bool" where
  "has_memory env \<longleftrightarrow> (\<forall>n. ce_alloc env n) \<and> (\<forall>n. length (ce_malloc env n) = n)"

lemma metadata_time: "prv_init_metadata J env t = Some md \<Longrightarrow> captured_time_epoch_s md < 2 ^ 32"
  by (auto simp: prv_init_metadata_def nat_less_iff split: option.splits if_splits)

lemma run_transformer_layout:
  assumes "elf_sink ops invar contents" and "regular_core eh hs rest answers memory (memory_of env pid) segs"
    and "stream env fd = (core_bytes eh hs rest, answers)" and "has_memory env"
    and "length (metadata_cbor md) < 2 ^ 31" and "captured_time_epoch_s md < 2 ^ 32" and "invar io" and "contents io = []"
    and "run_transformer env fd (open_mem env (procfs_mem_path pid)) ops io md = Some (True, io')"
  shows "output_layout (contents io') (e_machine eh) (e_flags eh) md segs \<and>
    (\<exists>io. invar io \<and> io_sync ops io = Some (True, io'))"
proof -
  from assms(9) obtain r where r: "ticos_core_elf_transformer_run
      (transformer_env file_read_io (ce_alloc env) (ce_malloc env) (memory_of env pid))
      (ticos_core_elf_transformer_init
        (ticos_core_elf_read_file_io_init (ehdr_bytes eh @ concat (map phdr_bytes hs) @ rest) answers) ops io md) =
      Some (True, r)" "io' = out_io (w_out (t_writer (r_owner r)))"
    using assms(3) by (auto simp: run_transformer_def memory_of_def core_bytes_def split: bind_splits)
  show ?thesis unfolding r(2)
    by (rule elf_sink.transform_layout [where memory = memory, OF assms(1) _ _ _ _ _ _ _ _ _ _ _ assms(5,6) _ assms(7,8) r(1)])
      (use assms(2,4) in \<open>simp_all add: regular_core_def has_memory_def\<close>)
qed

text \<open>What the file holds once it is decompressed, if it is compressed.\<close>

definition decoded :: "(byte list \<Rightarrow> byte list option) \<Rightarrow> bool \<Rightarrow> byte list \<Rightarrow> byte list option" where
  "decoded inflate gzip bs = (if gzip then inflate bs else Some bs)"


section \<open>From the message to the queue\<close>

lemma core_message_understood:
  assumes "0 \<le> pid" and "pid < 2 ^ 31" and "core_handler_message [show_int pid] = Some m"
  shows "core_message_pid (m @ left) (length m) = Some (Some pid)"
proof -
  let ?p = "c_bytes (show_int pid)"
  have m: "m = c_bytes ''CORE'' @ 0 # c_bytes ''ELF'' @ 0 # ?p @ [0]"
    using core_handler_message_pid [OF assms(1,2)] assms(3) by simp
  have n: "strnlen (m @ left) (length m) = 4"
    using strnlen_string [of "''CORE''" "length m" "c_bytes ''ELF'' @ 0 # ?p @ 0 # left"] by (simp add: m)
  have d: "drop 5 (m @ left) = c_bytes ''ELF'' @ 0 # ?p @ 0 # left" by (simp add: m c_bytes_def)
  have e: "strnlen (drop 5 (m @ left)) (length m - 5) = 3"
    using strnlen_string [of "''ELF''" "length m - 5" "?p @ 0 # left"] unfolding d by (simp add: m)
  have f: "drop 9 (m @ left) = ?p @ 0 # left" by (simp add: m c_bytes_def)
  have v: "strtol (drop 9 (m @ left)) = Some (Some (pid, 0 # left))"
    unfolding f by (rule strtol_show_int) (use assms(1,2) in simp_all)
  have "length m > 9" by (simp add: m)
  with n e v assms(1,2) strcmp_eq_string [of "''ELF''" "?p @ 0 # left", folded d] show ?thesis
    by (simp add: core_message_pid_def Let_def int32_id)
qed

text \<open>The system lets the output be written: the name is free, and no write or synchronisation fails or is interrupted.\<close>

definition willing :: "'zs coredump_env \<Rightarrow> int \<Rightarrow> string \<Rightarrow> 'j world \<Rightarrow> bool" where
  "willing env pid f w \<longleftrightarrow>
     open_mem env (procfs_mem_path pid) \<noteq> - 1 \<and> w_files w f = None \<and> open_excl_ok env f \<and>
     Write_EINTR \<notin> set (out_answers env) \<and> Write_Failed \<notin> set (out_answers env) \<and> out_fsync_ok env"

text \<open>The space a plain core file takes at most.\<close>

definition core_size_bound :: "sTicosCoreElfMetadata \<Rightarrow> (Elf_Phdr \<times> byte list) list \<Rightarrow> nat" where
  "core_size_bound md segs =
     sizeof_Elf_Ehdr + sizeof_Elf_Phdr * (length segs + 1) + demand (map fst segs) +
     ticos_core_elf_metadata_note_calculate_size md + 1"

lemma transform_plain_succeeds:
  assumes "\<not> gzip_enabled h" and "willing env pid f w"
    and "regular_core eh hs rest answers memory (memory_of env pid) segs"
    and "stream env fd = (core_bytes eh hs rest, answers)" and "has_memory env"
    and "prv_init_metadata J env (w_ticosd w) = Some md" and "length (metadata_cbor md) < 2 ^ 31"
    and "core_size_bound md segs \<le> limit" and "limit < 2 ^ 63"
  shows "\<exists>bs. prv_transform_coredump_from_fd_to_file J env h f fd pid limit w =
      Some (True, w\<lparr>w_files := (w_files w)(f \<mapsto> bs)\<rparr>) \<and>
    output_layout bs (e_machine eh) (e_flags eh) md segs"
proof -
  let ?wio = "ticos_core_elf_write_file_io_init [] limit (out_answers env) (out_fsync_ok env)"
  have "length segs = length hs" using assms(3) expected_length by (auto simp: regular_core_def)
  then have room: "file_room ?wio (sizeof_Elf_Ehdr + sizeof_Elf_Phdr * (length hs + 1) + demand (map fst segs) +
      ticos_core_elf_metadata_note_calculate_size md + 1)"
    using assms(2,8,9)
    by (simp add: willing_def file_room_def within_limit_def ticos_core_elf_write_file_io_init_def core_size_bound_def)
  have "\<exists>r'. ticos_core_elf_transformer_run (transformer_env file_read_io (ce_alloc env) (ce_malloc env) (memory_of env pid))
      (ticos_core_elf_transformer_init
        (ticos_core_elf_read_file_io_init (ehdr_bytes eh @ concat (map phdr_bytes hs) @ rest) answers) file_ops ?wio md) =
      Some (True, r')"
    by (rule file_delivery.transform_succeeds [where memory = memory, OF _ _ _ _ _ _ _ _ _ _ _ assms(7) metadata_time [OF assms(6)] _ TrueI _ room])
      (use assms(3,5) in \<open>simp_all add: regular_core_def has_memory_def ticos_core_elf_write_file_io_init_def\<close>)
  then obtain io' where run: "run_transformer env fd (open_mem env (procfs_mem_path pid)) file_ops ?wio md = Some (True, io')"
    using assms(4) by (auto simp: run_transformer_def memory_of_def core_bytes_def)
  have "prv_transform_coredump_from_fd_to_file J env h f fd pid limit w =
      Some (True, w\<lparr>w_files := (w_files w)(f \<mapsto> fio_bytes io')\<rparr>)"
    using assms(1,2,6) run
    by (simp add: prv_transform_coredump_from_fd_to_file_def ticos_init_core_elf_transformer_procfs_handler_def willing_def)
  moreover have "output_layout (fio_bytes io') (e_machine eh) (e_flags eh) md segs"
    using run_transformer_layout [OF file_sink.elf_sink_axioms assms(3-5,7) metadata_time [OF assms(6)] TrueI _ run]
    by (simp add: ticos_core_elf_write_file_io_init_def)
  ultimately show ?thesis by blast
qed

lemma capture_succeeds:
  assumes "0 \<le> pid" and "pid < 2 ^ 31" and "core_handler_message [show_int pid] = Some m"
    and "iov_base msg = m @ left" and "msg_control msg = [Scm_Rights fd]" and "fd \<noteq> - 1"
    and "enable_data_collection h" and "\<not> gzip_enabled h"
    and "ticosd_rate_limiter_check_event (rate_file_ok env) (tv_sec env) (rate_limiter h) = Some (True, rl, hist)"
    and "f = core_filename env h" and "\<not> limiter_file h f" and "willing env pid f w" and "has_memory env"
    and "regular_core eh hs rest answers memory (memory_of env pid) segs"
    and "stream env fd = (core_bytes eh hs rest, answers)"
    and "prv_init_metadata J env (w_ticosd w) = Some md" and "length (metadata_cbor md) < 2 ^ 31"
    and "core_size_bound md segs \<le> prv_check_for_available_space J env (h\<lparr>rate_limiter := rl\<rparr>) (w_ticosd w)"
    and "prv_check_for_available_space J env (h\<lparr>rate_limiter := rl\<rparr>) (w_ticosd w) < 2 ^ 63"
    and "ticosd_get_boolean J (w_ticosd w) [] ''enable_data_collection'' = Some True"
    and "rep (td_queue (w_ticosd w)) xs"
    and "entry = txdata_type kTicosdTxDataType_CoreUpload # c_bytes f @ [0]"
    and "room (td_queue (w_ticosd w)) entry" and "length f < 2 ^ 30"
  shows "\<exists>h' w' bs. prv_msg_handler J env h msg (length m) w = Some (True, h', w') \<and>
    w_files w' f = Some bs \<and> output_layout bs (e_machine eh) (e_flags eh) md segs \<and>
    rep (td_queue (w_ticosd w')) (xs @ [entry])"
proof -
  let ?h = "h\<lparr>rate_limiter := rl\<rparr>"
  define w1 where "w1 = save_history rl hist w"
  have k: "kept h w w1" unfolding w1_def by (rule save_history_kept(1) [OF assms(9)])
  then have t: "w_ticosd w1 = w_ticosd w" and w1: "willing env pid f w1"
    using assms(11,12) by (simp_all add: kept_def willing_def)
  have f: "core_filename env ?h = f" by (simp add: assms(10) core_filename_def)
  define limit where "limit = prv_check_for_available_space J env ?h (w_ticosd w)"
  have "0 < limit" using assms(18) by (simp add: limit_def core_size_bound_def)
  obtain bs where bs: "prv_transform_coredump_from_fd_to_file J env ?h f fd pid limit w1 =
      Some (True, w1\<lparr>w_files := (w_files w1)(f \<mapsto> bs)\<rparr>)" "output_layout bs (e_machine eh) (e_flags eh) md segs"
    using transform_plain_succeeds [OF _ w1 assms(14,15,13) _ assms(17), where h = ?h and J = J and limit = limit] assms(8,16,18,19) t
    by (auto simp: limit_def)
  define data where "data = \<lparr>tx_type = txdata_type kTicosdTxDataType_CoreUpload, payload = c_bytes f @ [0]\<rparr>"
  have entry: "txdata_bytes data = entry" by (simp add: data_def txdata_bytes_def assms(22))
  have len: "length f + 1 = length (payload data)" by (simp add: data_def)
  have b: "prv_build_queue_entry (ce_alloc env) False f = Some (data, length f + 1)"
    using assms(13,24) by (simp add: prv_build_queue_entry_def has_memory_def data_def u32_of_id Let_def)
  obtain q where q: "handle_txdata J (w_ticosd w) data (length f + 1) = Some (True, (w_ticosd w)\<lparr>td_queue := q\<rparr>)"
      "rep q (xs @ [entry])"
    using handle_txdata_queues [OF assms(20,21), of data, unfolded entry, OF assms(23) len] assms(24) by auto
  have "store_corefile J env ?h fd pid w1 =
      Some (True, Some f, w1\<lparr>w_files := (w_files w1)(f \<mapsto> bs), w_ticosd := (w_ticosd w)\<lparr>td_queue := q\<rparr>\<rparr>)"
    unfolding store_corefile_def filename_generated f t limit_def [symmetric] Let_def
    using \<open>0 < limit\<close> bs(1) b q(1) assms(8,13) t by (simp add: has_memory_def)
  then have "process_corefile J env h fd pid w = Some (True, Some f, ?h,
      w1\<lparr>w_files := (w_files w1)(f \<mapsto> bs), w_ticosd := (w_ticosd w)\<lparr>td_queue := q\<rparr>\<rparr>)"
    using assms(7,9) by (simp add: process_corefile_def w1_def)
  then show ?thesis
    using core_message_understood [OF assms(1-3), of left] assms(4-6) bs(2) q(2)
    by (simp add: prv_msg_handler_def cleanup_fields)
qed

text \<open>
  C10. A crash is recorded. When the core handler announces the core file of a process, data collection is on, the rate
  limiter agrees, compression is off, the core file is regular and there is space for it, then the message
  handler returns and reports success, the core directory has a new file that is the complete core file, and
  the name of this file is the last entry of the transmit queue.
\<close>

theorem crash_is_recorded:
  assumes "0 \<le> pid" and "pid < 2 ^ 31" and "core_handler_message [show_int pid] = Some m"
    and "iov_base msg = m @ left" and "msg_control msg = [Scm_Rights fd]" and "fd \<noteq> - 1"
    and "enable_data_collection h" and "\<not> gzip_enabled h"
    and "ticosd_rate_limiter_check_event (rate_file_ok env) (tv_sec env) (rate_limiter h) = Some (True, rl, hist)"
    and "f = core_filename env h" and "\<not> limiter_file h f" and "willing env pid f w" and "has_memory env"
    and "regular_core eh hs rest answers memory (memory_of env pid) segs"
    and "stream env fd = (core_bytes eh hs rest, answers)"
    and "prv_init_metadata J env (w_ticosd w) = Some md" and "length (metadata_cbor md) < 2 ^ 31"
    and "core_size_bound md segs \<le> prv_check_for_available_space J env (h\<lparr>rate_limiter := rl\<rparr>) (w_ticosd w)"
    and "prv_check_for_available_space J env (h\<lparr>rate_limiter := rl\<rparr>) (w_ticosd w) < 2 ^ 63"
    and "ticosd_get_boolean J (w_ticosd w) [] ''enable_data_collection'' = Some True"
    and "rep (td_queue (w_ticosd w)) xs"
    and "entry = txdata_type kTicosdTxDataType_CoreUpload # c_bytes f @ [0]"
    and "room (td_queue (w_ticosd w)) entry" and "length f < 2 ^ 30"
  shows "\<exists>h' w' bs. prv_msg_handler J env h msg (length m) w = Some (True, h', w') \<and>
    w_files w' f = Some bs \<and> output_layout bs (e_machine eh) (e_flags eh) md segs \<and>
    rep (td_queue (w_ticosd w')) (xs @ [entry])"
  using assms by (rule capture_succeeds)

section \<open>A device\<close>

definition capture_config :: "jtree sTicosdConfig" where
  "capture_config =
     \<lparr>base = Some (JObj (FCons ''data_dir'' (JStr ''/d'') (FCons ''software_type'' (JStr ''main'')
        (FCons ''software_version'' (JStr ''1.0'') (FCons ''enable_data_collection'' (JBool True)
        (FCons ''coredump_plugin'' (JObj (FCons ''coredump_max_size_kib'' (JInt 64)
          (FCons ''storage_min_headroom_kib'' (JInt 10) FNil))) FNil)))))),
      runtime = Some (JObj FNil)\<rparr>"

definition capture_env :: "byte list coredump_env" where
  "capture_env =
     \<lparr>ce_alloc = \<lambda>_. True, ce_malloc = \<lambda>n. replicate n 0, mkdir_ok = \<lambda>_. True, unlink_ok = \<lambda>_. True,
      uuid_str = ''0b7b35be-9c3e-4bd1-9bf5-0aef3a2b8c11'', sdk_version = ''1.2'', epoch_s = 1700000000, tv_sec = 1700000000,
      open_mem = \<lambda>_. 7, pread_mem = \<lambda>_ sz vaddr. sample_copy vaddr sz, open_excl_ok = \<lambda>_. True,
      stream = \<lambda>_. (core_bytes sample_core_header [sample_note_segment, data_segment 5] [1, 2, 3], [Give 10, Interrupt]),
      out_answers = [Written 10], out_fsync_ok = True, deflateInit2 = \<lambda>_ _. Some [], deflate_call = stored_deflate,
      statfs = \<lambda>_. Some \<lparr>f_bsize = 4096, f_bfree = 100, f_bavail = 90\<rparr>, nftw = \<lambda>_. Some [], rate_file_ok = True,
      pattern_open_ok = True, pattern_write_ok = True\<rparr>"

definition capture_plugin :: "bool \<Rightarrow> coredump_plugin" where
  "capture_plugin gzip =
     \<lparr>enable_data_collection = True, rate_limiter = None, core_dir = ''/d/core'', gzip_enabled = gzip\<rparr>"

definition capture_world :: "sTicosdQueue \<Rightarrow> jtree world" where
  "capture_world q =
     \<lparr>w_ticosd = \<lparr>td_queue = q, td_config = capture_config,
                  td_settings = \<lparr>ds_device_id = ''D1'', ds_hardware_version = ''H1''\<rparr>, td_dev_mode = False\<rparr>,
      w_files = \<lambda>_. None, w_dirs = [''/d/core''], w_closed = [], w_bus = []\<rparr>"

abbreviation capture_segs :: "(Elf_Phdr \<times> byte list) list" where
  "capture_segs \<equiv> [(sample_note_segment, [1, 2, 3]), (data_segment 5, load_image sample_copy 4096 5)]"

definition capture_metadata :: sTicosCoreElfMetadata where
  "capture_metadata =
     \<lparr>linux_sdk_version = c_bytes ''1.2'', captured_time_epoch_s = 1700000000, device_serial = c_bytes ''D1'',
      hardware_version = c_bytes ''H1'', software_type = c_bytes ''main'', software_version = c_bytes ''1.0''\<rparr>"

lemma capture_settings:
  "prv_init_metadata tree_json capture_env (w_ticosd (capture_world q)) = Some capture_metadata"
  "ticosd_get_boolean tree_json (w_ticosd (capture_world q)) [] ''enable_data_collection'' = Some True"
  "ticosd_get_integer tree_json (w_ticosd (capture_world q)) ''coredump_plugin'' ''coredump_max_size_kib'' = Some 64"
  "ticosd_get_integer tree_json (w_ticosd (capture_world q)) ''coredump_plugin'' ''storage_min_headroom_kib'' = Some 10"
  "ticosd_get_integer tree_json (w_ticosd (capture_world q)) ''coredump_plugin'' ''storage_max_usage_kib'' = None"
  by (simp_all add: prv_init_metadata_def capture_metadata_def ticosd_get_string_def ticosd_get_boolean_def ticosd_get_integer_def
      ticosd_config_get_string_def ticosd_config_get_boolean_def ticosd_config_get_integer_def config_find_def
      prv_config_find_object_def capture_world_def capture_config_def tree_json_def capture_env_def)

definition capture_queue :: sTicosdQueue where
  "capture_queue = the (the (ticosd_queue_init blank_env 1024))"

lemma capture_queue_facts: "rep capture_queue []" "length x \<le> 200 \<Longrightarrow> x \<noteq> [] \<Longrightarrow> room capture_queue x"
proof -
  obtain h where h: "ticosd_queue_init blank_env 1024 = Some (Some h)" "rep h []" "blank_tail h" "write_ptr h = 0"
    "qsize h = init_size 1024"
    using init_blank [of blank_env 1024] by (auto simp: blank_env_def blank_store_def)
  then have q: "capture_queue = h" by (simp add: capture_queue_def)
  with h show "rep capture_queue []" by simp
  have "init_size 1024 = 1024" by code_simp
  moreover assume "length x \<le> 200" and ne: "x \<noteq> []"
  ultimately have "write_ptr h + span x + 3 \<le> qwords h" using h(4,5) by (simp add: qwords_def span_def queue_consts)
  with blank_write [OF h(2,3) ne] \<open>length x \<le> 200\<close> q show "room capture_queue x" by auto
qed


lemma capture_core:
  "regular_core sample_core_header [sample_note_segment, data_segment 5] [1, 2, 3] [Give 10, Interrupt] sample_memory
    (memory_of capture_env pid) capture_segs"
  "stream capture_env fd = (core_bytes sample_core_header [sample_note_segment, data_segment 5] [1, 2, 3], [Give 10, Interrupt])"
  "has_memory capture_env" "willing capture_env pid f (capture_world q)"
  "length (metadata_cbor capture_metadata) < 2 ^ 31"
proof -
  have "memory_of capture_env pid = sample_copy" by (intro ext) (simp add: memory_of_def prv_copy_proc_mem_def capture_env_def)
  then show "regular_core sample_core_header [sample_note_segment, data_segment 5] [1, 2, 3] [Give 10, Interrupt] sample_memory
      (memory_of capture_env pid) capture_segs"
    using sample_core_ok sample_copies sample_expected by (simp add: regular_core_def)
  show "stream capture_env fd = (core_bytes sample_core_header [sample_note_segment, data_segment 5] [1, 2, 3], [Give 10, Interrupt])"
    "has_memory capture_env" "willing capture_env pid f (capture_world q)"
    by (simp_all add: capture_env_def has_memory_def willing_def capture_world_def)
  show "length (metadata_cbor capture_metadata) < 2 ^ 31" by code_simp
qed

lemma capture_space:
  "prv_check_for_available_space tree_json capture_env (capture_plugin g) (w_ticosd (capture_world q)) = 65536"
  "core_size_bound capture_metadata capture_segs \<le> 65536"
proof -
  show "prv_check_for_available_space tree_json capture_env (capture_plugin g) (w_ticosd (capture_world q)) = 65536"
    by (simp add: prv_check_for_available_space_def capture_settings size_setting_def ticosd_get_free_space_def u64_of_def
        capture_env_def)
  have "ticos_core_elf_metadata_note_calculate_size capture_metadata \<le> 1000" by code_simp
  then show "core_size_bound capture_metadata capture_segs \<le> 65536"
    using sample_expected(2) by (simp add: core_size_bound_def sizeof_Elf_Ehdr_def sizeof_Elf_Phdr_def)
qed

definition capture_file :: string where
  "capture_file = ''/d/core/corefile-0b7b35be-9c3e-4bd1-9bf5-0aef3a2b8c11''"

definition capture_message :: msghdr where
  "capture_message = \<lparr>iov_base = the (core_handler_message [''42'']) @ [1, 2, 3], msg_control = [Scm_Rights 5]\<rparr>"

definition capture_run :: "(bool \<times> coredump_plugin \<times> jtree world) option" where
  "capture_run =
     prv_msg_handler tree_json capture_env (capture_plugin False) capture_message
       (length (the (core_handler_message [''42'']))) (capture_world capture_queue)"

abbreviation capture_entry :: "byte list" where
  "capture_entry \<equiv> txdata_type kTicosdTxDataType_CoreUpload # c_bytes capture_file @ [0]"

lemma capture_facts:
  "(0 :: int) \<le> 42" "(42 :: int) < 2 ^ 31" "core_handler_message [show_int 42] = Some (the (core_handler_message [''42'']))"
  "iov_base capture_message = the (core_handler_message [''42'']) @ [1, 2, 3]" "msg_control capture_message = [Scm_Rights 5]"
  "(5 :: int) \<noteq> - 1" "enable_data_collection (capture_plugin False)" "\<not> gzip_enabled (capture_plugin False)"
  "ticosd_rate_limiter_check_event (rate_file_ok capture_env) (tv_sec capture_env) (rate_limiter (capture_plugin False)) =
    Some (True, None, None)"
  "capture_file = core_filename capture_env (capture_plugin False)" "\<not> limiter_file (capture_plugin False) capture_file"
proof -
  have "show_int 42 = ''42''" by code_simp
  moreover have "\<exists>m. core_handler_message [''42''] = Some m" by (simp add: core_handler_message_def TX_BUFFER_SIZE_def c_str_def)
  ultimately show "core_handler_message [show_int 42] = Some (the (core_handler_message [''42'']))" by auto
qed (simp_all add: capture_message_def capture_plugin_def ticosd_rate_limiter_check_event_def capture_file_def core_filename_def
    capture_env_def limiter_file_def)

lemma capture_at_queue:
  "prv_check_for_available_space tree_json capture_env (capture_plugin False\<lparr>rate_limiter := None\<rparr>)
    (w_ticosd (capture_world capture_queue)) = 65536"
  "rep (td_queue (w_ticosd (capture_world capture_queue))) []"
  "room (td_queue (w_ticosd (capture_world capture_queue))) capture_entry" "length capture_file < 2 ^ 30"
proof -
  have "capture_plugin False\<lparr>rate_limiter := None\<rparr> = capture_plugin False" by (simp add: capture_plugin_def)
  then show "prv_check_for_available_space tree_json capture_env (capture_plugin False\<lparr>rate_limiter := None\<rparr>)
      (w_ticosd (capture_world capture_queue)) = 65536" by (simp add: capture_space)
  show "rep (td_queue (w_ticosd (capture_world capture_queue))) []"
    "room (td_queue (w_ticosd (capture_world capture_queue))) capture_entry" "length capture_file < 2 ^ 30"
    using capture_queue_facts by (simp_all add: capture_world_def capture_file_def)
qed

lemma capture_run_succeeds:
  "\<exists>h' w' bs. capture_run = Some (True, h', w') \<and> w_files w' capture_file = Some bs \<and>
    output_layout bs (e_machine sample_core_header) (e_flags sample_core_header) capture_metadata capture_segs \<and>
    rep (td_queue (w_ticosd w')) ([] @ [capture_entry])"
  unfolding capture_run_def
  by (rule capture_succeeds [OF capture_facts capture_core(4,3,1,2) capture_settings(1) capture_core(5) _ _ capture_settings(2)
        capture_at_queue(2) refl capture_at_queue(3,4)])
    (simp_all add: capture_at_queue capture_space)

theorem crash_is_recorded_witness:
  "\<exists>h' w' bs. capture_run = Some (True, h', w') \<and> w_files w' capture_file = Some bs \<and>
    output_layout bs (e_machine sample_core_header) (e_flags sample_core_header) capture_metadata capture_segs \<and>
    rep (td_queue (w_ticosd w')) ([] @ [capture_entry])"
  unfolding capture_run_def
  by (rule crash_is_recorded [OF capture_facts capture_core(4,3,1,2) capture_settings(1) capture_core(5) _ _ capture_settings(2)
        capture_at_queue(2) refl capture_at_queue(3,4)])
    (simp_all add: capture_at_queue capture_space)

theorem corefile_all_or_nothing_witness:
  "\<exists>h' w'. capture_run = Some (True, h', w') \<and> w_closed w' = [5] \<and>
    (kept (capture_plugin False) (capture_world capture_queue) w' \<or>
     (\<exists>pid w1. kept (capture_plugin False) (capture_world capture_queue) w1 \<and>
       stored_and_queued tree_json capture_env h' 5 pid w1 w'))"
proof -
  obtain h' w' where r: "capture_run = Some (True, h', w')" using capture_run_succeeds by blast
  have "w_files (capture_world capture_queue) capture_file = None" "unlink_ok capture_env capture_file"
    "(5 :: int) = find_stream (msg_control capture_message)"
    by (simp_all add: capture_world_def capture_env_def capture_message_def)
  with corefile_all_or_nothing [OF r [unfolded capture_run_def], of 5] capture_facts(10,11) r show ?thesis
    by (auto simp: capture_world_def)
qed


end
