(* ===== verification/Systemd.thy ===== *)
theory Systemd
  imports Ticosd_Handle
begin

text \<open>
  Requests to systemd over the system bus (src/util/systemd.c) and switching a setting of the daemon on and off
  (src/util/runtime_config.c). The bus is a parameter: whether it can be reached, what state it reports for a unit and which
  requests it accepts. The requests that were accepted are recorded in the state.
\<close>

record systemd =
  bus_ok :: bool
  path_encode_ok :: "string \<Rightarrow> bool"
  active_state :: "string \<Rightarrow> string option"
  restart_unit_ok :: "string \<Rightarrow> bool"
  kill_unit_ok :: "string \<Rightarrow> int \<Rightarrow> bool"

definition prv_systemd_get_service_state :: "systemd \<Rightarrow> string \<Rightarrow> string option" where
  "prv_systemd_get_service_state S service_name =
     (if \<not> path_encode_ok S service_name then None else active_state S service_name)"

definition prv_systemd_restart_service :: "systemd \<Rightarrow> string \<Rightarrow> 'j world \<Rightarrow> bool \<times> 'j world" where
  "prv_systemd_restart_service S service_name w =
     (if \<not> restart_unit_ok S service_name then (False, w)
      else (True, w\<lparr>w_bus := w_bus w @ [Restart_Unit service_name]\<rparr>))"

definition prv_systemd_kill_service :: "systemd \<Rightarrow> string \<Rightarrow> int \<Rightarrow> 'j world \<Rightarrow> bool \<times> 'j world" where
  "prv_systemd_kill_service S service_name signal w =
     (if \<not> kill_unit_ok S service_name signal then (False, w)
      else (True, w\<lparr>w_bus := w_bus w @ [Kill_Unit service_name signal]\<rparr>))"

definition ticosd_restart_service_if_running :: "systemd \<Rightarrow> string \<Rightarrow> 'j world \<Rightarrow> bool \<times> 'j world" where
  "ticosd_restart_service_if_running S service_name w =
     (if \<not> bus_ok S then (False, w)
      else case prv_systemd_get_service_state S service_name of
        None \<Rightarrow> (False, w)
      | Some state \<Rightarrow>
          if state \<noteq> ''active'' \<and> state \<noteq> ''activating'' then (False, w)
          else prv_systemd_restart_service S service_name w)"

definition ticosd_kill_service :: "systemd \<Rightarrow> string \<Rightarrow> int \<Rightarrow> 'j world \<Rightarrow> bool \<times> 'j world" where
  "ticosd_kill_service S service_name signal w =
     (if \<not> bus_ok S then (False, w) else prv_systemd_kill_service S service_name signal w)"

lemma restart_bus:
  assumes "ticosd_restart_service_if_running S u w = (ok, w')"
  shows "w' = (if ok then w\<lparr>w_bus := w_bus w @ [Restart_Unit u]\<rparr> else w)"
  using assms
  by (auto simp: ticosd_restart_service_if_running_def prv_systemd_restart_service_def split: if_splits option.splits)

lemma kill_bus:
  assumes "ticosd_kill_service S u s w = (ok, w')"
  shows "w' = (if ok then w\<lparr>w_bus := w_bus w @ [Kill_Unit u s]\<rparr> else w)"
  using assms by (auto simp: ticosd_kill_service_def prv_systemd_kill_service_def split: if_splits)

lemma restart_files:
  "w_files (snd (ticosd_restart_service_if_running S u w)) = w_files w"
  "w_ticosd (snd (ticosd_restart_service_if_running S u w)) = w_ticosd w"
proof -
  obtain ok w' where r: "ticosd_restart_service_if_running S u w = (ok, w')" by fastforce
  from restart_bus [OF r] r show "w_files (snd (ticosd_restart_service_if_running S u w)) = w_files w"
    "w_ticosd (snd (ticosd_restart_service_if_running S u w)) = w_ticosd w" by simp_all
qed

section \<open>Switching a setting\<close>

definition CONFIG_KEY_DEV_MODE :: string where "CONFIG_KEY_DEV_MODE = ''enable_dev_mode''"
definition CONFIG_KEY_DATA_COLLECTION :: string where "CONFIG_KEY_DATA_COLLECTION = ''enable_data_collection''"

text \<open>
  The result is the exit code, the configuration and its files, and the state of systemd. \<open>is_root\<close> is whether
  the process runs as root, and \<open>al\<close> whether the copy of the description for the message can be allocated.
\<close>

definition ticos_set_runtime_bool_and_reload ::
  "'j json_c \<Rightarrow> (nat \<Rightarrow> bool) \<Rightarrow> (string \<Rightarrow> bool) \<Rightarrow> systemd \<Rightarrow> bool \<Rightarrow> 'j sTicosdConfig \<Rightarrow> string \<Rightarrow> string \<Rightarrow> bool \<Rightarrow>
   files \<Rightarrow> 'j world \<Rightarrow> (int \<times> 'j sTicosdConfig \<times> files \<times> 'j world) option" where
  "ticos_set_runtime_bool_and_reload J al cw S is_root config config_key description val files w =
     (if ticosd_config_get_boolean J config [] config_key = Some val
      then if al (length description + 1) then Some (0, config, files, w) else None
      else do {
        (config, files) \<leftarrow> ticosd_config_set_boolean J al cw config [] config_key val files;
        if \<not> is_root then Some (0, config, files, w)
        else let (ok, w) = ticosd_restart_service_if_running S ''ticosd.service'' w in
             Some (if ok then 0 else - 1, config, files, w)
      })"

end
