(* ===== verification/Collectd.thy ===== *)
theory Collectd
  imports Systemd Json_Sample
begin

text \<open>
  The collectd plugin (src/plugins/collectd/collectd.c): it writes two files that the configuration of collectd includes, restarts
  collectd when they change, and asks it for metrics. Files are opened, written and looked at through the environment;
  a failed \<^verbatim>\<open>fprintf\<close> leaves the truncated file. \<open>None\<close> as the outcome is an overflow of an \<^verbatim>\<open>int\<close>.
\<close>

section \<open>Environment and state\<close>

record collectd_env =
  co_alloc :: "nat \<Rightarrow> bool"
  co_fopen_ok :: "string \<Rightarrow> bool"
  co_access_ok :: "string \<Rightarrow> bool"
  header_printf_ok :: bool
  http_printf_ok :: bool
  chain_printf_ok :: bool
  co_systemd :: systemd

record collectd_plugin =
  was_enabled :: bool
  header_include_output_file :: string
  footer_include_output_file :: string

definition DEFAULT_HEADER_INCLUDE_OUTPUT_FILE :: string where
  "DEFAULT_HEADER_INCLUDE_OUTPUT_FILE = ''/tmp/collectd-header-include.conf''"
definition DEFAULT_FOOTER_INCLUDE_OUTPUT_FILE :: string where
  "DEFAULT_FOOTER_INCLUDE_OUTPUT_FILE = ''/tmp/collectd-footer-include.conf''"
definition DEFAULT_INTERVAL_SECS :: int where "DEFAULT_INTERVAL_SECS = 3600"
definition COLLECTD_PATH :: string where "COLLECTD_PATH = ''/logstash''"
definition TICOS_HEADER :: string where "TICOS_HEADER = ''Ticos-Project-Key''"
definition SIGUSR1 :: int where "SIGUSR1 = 10"

text \<open>A string between quotation marks, and lines of text.\<close>

definition quoted :: "string \<Rightarrow> string" where "quoted s = CHR 0x22 # s @ [CHR 0x22]"

definition text_lines :: "string list \<Rightarrow> string" where "text_lines ls = concat (map (\<lambda>l. l @ [newline]) ls)"

definition put_file :: "string \<Rightarrow> string \<Rightarrow> 'j world \<Rightarrow> 'j world" where
  "put_file f s w = w\<lparr>w_files := (w_files w)(f \<mapsto> c_bytes s)\<rparr>"

section \<open>The files\<close>

definition prv_generate_header_include ::
  "'j json_c \<Rightarrow> collectd_env \<Rightarrow> collectd_plugin \<Rightarrow> int \<Rightarrow> 'j world \<Rightarrow> bool \<times> 'j world" where
  "prv_generate_header_include J env h override w =
     (let interval_seconds =
            (case ticosd_get_integer J (w_ticosd w) ''collectd_plugin'' ''interval_seconds'' of
               None \<Rightarrow> DEFAULT_INTERVAL_SECS | Some d \<Rightarrow> d);
          interval_seconds = (if override > 0 then override else interval_seconds);
          f = header_include_output_file h
      in if \<not> co_fopen_ok env f then (False, w)
         else if \<not> header_printf_ok env then (False, put_file f [] w)
         else (True, put_file f (text_lines [''Interval '' @ show_int interval_seconds, []]) w))"

definition write_http_text ::
  "int \<Rightarrow> string \<Rightarrow> string \<Rightarrow> sTicosdDeviceSettings \<Rightarrow> string \<Rightarrow> string \<Rightarrow> int \<Rightarrow> string" where
  "write_http_text interval_seconds url add_header settings sw_type sw_version buffer_size =
     text_lines
       [''<LoadPlugin write_http>'',
        ''  FlushInterval '' @ show_int interval_seconds,
        ''</LoadPlugin>'', [],
        ''<Plugin write_http>'',
        ''  <Node '' @ quoted ''ticos'' @ ''>'',
        ''    URL '' @ quoted url,
        ''#    VerifyPeer true'',
        ''#    VerifyHost true'',
        ''    Header '' @ quoted add_header,
        ''    Header '' @ quoted (''deviceId: '' @ ds_device_id settings),
        ''    Header '' @ quoted (''hardwareVersion: '' @ ds_hardware_version settings),
        ''    Header '' @ quoted (''softwareType: '' @ sw_type),
        ''    Header '' @ quoted (''softwareVersion: '' @ sw_version),
        ''    Format '' @ quoted ''JSON'',
        ''    Metrics true'',
        ''    Notifications false'',
        ''    StoreRates true'',
        ''    BufferSize '' @ show_int buffer_size,
        ''    LowSpeedLimit 0'',
        ''    Timeout 0'',
        ''  </Node>'',
        ''</Plugin>'', []]"

text \<open>The text that is added to the file: \<open>Some None\<close> when the section cannot be generated.\<close>

definition prv_generate_write_http ::
  "'j json_c \<Rightarrow> collectd_env \<Rightarrow> 'j sTicosd \<Rightarrow> string option option" where
  "prv_generate_write_http J env t =
     (case (ticosd_get_string J t [] ''base_url'', ticosd_get_string J t [] ''software_type'',
            ticosd_get_string J t [] ''software_version'', ticosd_get_string J t [] ''project_key'') of
        (Some b_url, Some sw_type, Some sw_version, Some p_key) \<Rightarrow> do {
          let interval_seconds =
            (case ticosd_get_integer J t ''collectd_plugin'' ''interval_seconds'' of None \<Rightarrow> 0 | Some d \<Rightarrow> d);
          buffer_size \<leftarrow> int_of_c (1024 *
            (case ticosd_get_integer J t ''collectd_plugin'' ''write_http_buffer_size_kib'' of None \<Rightarrow> 64 | Some d \<Rightarrow> d));
          let url = b_url @ COLLECTD_PATH;
          let add_header = TICOS_HEADER @ '': '' @ p_key;
          Some (if \<not> co_alloc env (length url + 1) then None
                else if \<not> co_alloc env (length add_header + 1) then None
                else if \<not> http_printf_ok env then None
                else Some (write_http_text interval_seconds url add_header (td_settings t) sw_type sw_version buffer_size))
        }
      | _ \<Rightarrow> Some None)"

definition chain_target :: "string option \<Rightarrow> string" where
  "chain_target non_ticos_chain =
     (case non_ticos_chain of
        None \<Rightarrow> text_lines [''    Target '' @ quoted ''stop'']
      | Some c \<Rightarrow>
          if c = [] then text_lines [''    Target '' @ quoted ''stop'']
          else text_lines [''    <Target '' @ quoted ''jump'' @ ''>'', ''      Chain '' @ quoted c] @ ''    </Target>'')"

definition chain_text :: "string \<Rightarrow> string" where
  "chain_text target =
     text_lines
       [''LoadPlugin match_regex'',
        ''PostCacheChain '' @ quoted ''TicosdGeneratedPostCacheChain'',
        ''<Chain '' @ quoted ''TicosdGeneratedPostCacheChain'' @ ''>'',
        ''  <Rule '' @ quoted ''ignore_memory_metrics'' @ ''>'',
        ''    <Match '' @ quoted ''regex'' @ ''>'',
        ''      Type '' @ quoted ''^memory$'',
        ''      TypeInstance '' @ quoted ''^(buffered|cached|slab_recl|slab_unrecl)$'',
        ''    </Match>''] @
     target @
     text_lines [''  </Rule>'', ''  Target '' @ quoted ''write'', ''</Chain>'', []]"

text \<open>A copy of the target that cannot be allocated is printed as the null pointer it is.\<close>

definition prv_generate_chain :: "'j json_c \<Rightarrow> collectd_env \<Rightarrow> 'j sTicosd \<Rightarrow> string option" where
  "prv_generate_chain J env t =
     (let post_chain = ticosd_get_string J t ''collectd_plugin'' ''non_ticosd_chain'';
          target = chain_target post_chain;
          jump = (case post_chain of None \<Rightarrow> False | Some c \<Rightarrow> c \<noteq> []);
          allocated = co_alloc env (length target + 1)
      in if jump \<and> \<not> allocated then None
         else if \<not> chain_printf_ok env then None
         else Some (chain_text (if allocated then target else ''(null)'')))"

definition prv_generate_footer_include ::
  "'j json_c \<Rightarrow> collectd_env \<Rightarrow> collectd_plugin \<Rightarrow> 'j world \<Rightarrow> (bool \<times> 'j world) option" where
  "prv_generate_footer_include J env h w =
     (let f = footer_include_output_file h in
      if \<not> co_fopen_ok env f then Some (False, w)
      else do {
        http \<leftarrow> prv_generate_write_http J env (w_ticosd w);
        case http of
          None \<Rightarrow> Some (False, put_file f [] w)
        | Some http \<Rightarrow>
            (case prv_generate_chain J env (w_ticosd w) of
               None \<Rightarrow> Some (False, put_file f http w)
             | Some post_chain \<Rightarrow> Some (True, put_file f (http @ post_chain) w))
      })"

section \<open>Clearing\<close>

text \<open>The size of a file or a negated error code.\<close>

definition ENOENT :: int where "ENOENT = 2"
definition EACCES :: int where "EACCES = 13"

definition prv_get_file_size :: "collectd_env \<Rightarrow> string \<Rightarrow> 'j world \<Rightarrow> int" where
  "prv_get_file_size env f w =
     (case w_files w f of
        None \<Rightarrow> - ENOENT
      | Some bs \<Rightarrow> if \<not> co_access_ok env f then - EACCES else int (length bs))"

definition prv_write_empty_file :: "collectd_env \<Rightarrow> string \<Rightarrow> 'j world \<Rightarrow> bool \<times> 'j world" where
  "prv_write_empty_file env f w = (if \<not> co_fopen_ok env f then (False, w) else (True, put_file f [] w))"

fun clear_files :: "collectd_env \<Rightarrow> string list \<Rightarrow> bool \<Rightarrow> 'j world \<Rightarrow> bool \<times> 'j world" where
  "clear_files env [] did_clear w = (did_clear, w)"
| "clear_files env (f # fs) did_clear w =
     (let rv = prv_get_file_size env f w;
          should_clear = rv > 0;
          w = (if should_clear \<or> rv = - ENOENT then snd (prv_write_empty_file env f w) else w)
      in clear_files env fs (did_clear \<or> should_clear) w)"

definition prv_clear_config_files_if_not_already_cleared ::
  "collectd_env \<Rightarrow> collectd_plugin \<Rightarrow> 'j world \<Rightarrow> bool \<times> 'j world" where
  "prv_clear_config_files_if_not_already_cleared env h w =
     clear_files env [header_include_output_file h, footer_include_output_file h] False w"

section \<open>Operations of the plugin\<close>

definition COLLECTD_SERVICE :: string where "COLLECTD_SERVICE = ''collectd.service''"

definition prv_reload ::
  "'j json_c \<Rightarrow> collectd_env \<Rightarrow> collectd_plugin option \<Rightarrow> 'j world \<Rightarrow>
   (bool \<times> collectd_plugin option \<times> 'j world) option" where
  "prv_reload J env handle w =
     (case handle of
        None \<Rightarrow> Some (False, None, w)
      | Some h \<Rightarrow>
          if ticosd_get_boolean J (w_ticosd w) [] ''enable_data_collection'' \<noteq> Some True then
            let (needs_restart, w) = prv_clear_config_files_if_not_already_cleared env h w in
            if was_enabled h \<or> needs_restart then
              let (ok, w) = ticosd_restart_service_if_running (co_systemd env) COLLECTD_SERVICE w in
              if \<not> ok then Some (False, Some h, w) else Some (True, Some (h\<lparr>was_enabled := False\<rparr>), w)
            else Some (True, Some h, w)
          else
            let (ok, w) = prv_generate_header_include J env h 0 w in
            if \<not> ok then Some (False, Some h, w)
            else do {
              (ok, w) \<leftarrow> prv_generate_footer_include J env h w;
              if \<not> ok then Some (False, Some h, w)
              else
                let (ok, w) = ticosd_restart_service_if_running (co_systemd env) COLLECTD_SERVICE w in
                if \<not> ok then Some (False, Some h, w) else Some (True, Some (h\<lparr>was_enabled := True\<rparr>), w)
            })"

definition prv_request_metrics :: "collectd_env \<Rightarrow> collectd_plugin \<Rightarrow> 'j world \<Rightarrow> bool \<times> 'j world" where
  "prv_request_metrics env h w =
     (if was_enabled h then
        let (ok, w) = ticosd_restart_service_if_running (co_systemd env) COLLECTD_SERVICE w in
        if \<not> ok then (False, w)
        else (True, snd (ticosd_kill_service (co_systemd env) COLLECTD_SERVICE SIGUSR1 w))
      else (True, w))"

definition ticosd_collectd_init ::
  "'j json_c \<Rightarrow> collectd_env \<Rightarrow> 'j world \<Rightarrow> (bool \<times> collectd_plugin option \<times> 'j world) option" where
  "ticosd_collectd_init J env w =
     (if \<not> co_alloc env 32 then Some (False, None, w)
      else
        let t = w_ticosd w;
            file = (\<lambda>key fallback. case ticosd_get_string J t ''collectd_plugin'' key of None \<Rightarrow> fallback | Some s \<Rightarrow> s);
            h = \<lparr>was_enabled = (ticosd_get_boolean J t [] ''enable_data_collection'' = Some True),
                 header_include_output_file = file ''header_include_output_file'' DEFAULT_HEADER_INCLUDE_OUTPUT_FILE,
                 footer_include_output_file = file ''footer_include_output_file'' DEFAULT_FOOTER_INCLUDE_OUTPUT_FILE\<rparr>
        in do { (_, h, w) \<leftarrow> prv_reload J env (Some h) w; Some (True, h, w) })"

section \<open>Reloading\<close>

definition has_text :: "'j world \<Rightarrow> string \<Rightarrow> bool" where
  "has_text w f \<longleftrightarrow> (\<exists>bs. w_files w f = Some bs \<and> bs \<noteq> [])"

lemma clear_files_spec:
  assumes "\<forall>f \<in> set fs. co_fopen_ok env f \<and> co_access_ok env f"
  shows "clear_files env fs d w =
    (d \<or> (\<exists>f \<in> set fs. has_text w f), w\<lparr>w_files := (\<lambda>f. if f \<in> set fs then Some [] else w_files w f)\<rparr>)"
  using assms
proof (induction fs arbitrary: d w)
  case (Cons f fs)
  let ?w = "w\<lparr>w_files := (w_files w)(f \<mapsto> [])\<rparr>"
  have "clear_files env (f # fs) d w = clear_files env fs (d \<or> has_text w f) ?w"
  proof (cases "w_files w f")
    case None
    with Cons.prems show ?thesis
      by (simp add: prv_get_file_size_def ENOENT_def has_text_def prv_write_empty_file_def put_file_def c_bytes_def)
  next
    case (Some bs)
    have "w = ?w" if "bs = []" using Some that by (simp add: fun_upd_idem)
    with Some Cons.prems show ?thesis
      by (cases "bs = []")
        (auto simp: prv_get_file_size_def ENOENT_def has_text_def prv_write_empty_file_def put_file_def c_bytes_def)
  qed
  also have "\<dots> = ((d \<or> has_text w f) \<or> (\<exists>g \<in> set fs. has_text ?w g),
      ?w\<lparr>w_files := (\<lambda>g. if g \<in> set fs then Some [] else w_files ?w g)\<rparr>)"
    using Cons.IH [of _ ?w] Cons.prems by simp
  also have "(\<lambda>g. if g \<in> set fs then Some [] else w_files ?w g) = (\<lambda>g. if g \<in> set (f # fs) then Some [] else w_files w g)"
    by auto
  also have "((d \<or> has_text w f) \<or> (\<exists>g \<in> set fs. has_text ?w g)) \<longleftrightarrow> d \<or> (\<exists>g \<in> set (f # fs). has_text w g)"
    by (auto simp: has_text_def)
  finally show ?case by simp
qed simp

lemma reload_disabled_eq:
  assumes "ticosd_get_boolean J (w_ticosd w) [] ''enable_data_collection'' \<noteq> Some True"
    and "\<forall>f \<in> {header_include_output_file h, footer_include_output_file h}. co_fopen_ok env f \<and> co_access_ok env f"
    and "w1 = w\<lparr>w_files := (w_files w)(header_include_output_file h \<mapsto> [], footer_include_output_file h \<mapsto> [])\<rparr>"
    and "stale = (has_text w (header_include_output_file h) \<or> has_text w (footer_include_output_file h))"
  shows "prv_reload J env (Some h) w =
    (if was_enabled h \<or> stale then
       (let (ok, w2) = ticosd_restart_service_if_running (co_systemd env) COLLECTD_SERVICE w1 in
        if \<not> ok then Some (False, Some h, w2) else Some (True, Some (h\<lparr>was_enabled := False\<rparr>), w2))
     else Some (True, Some h, w1))"
proof -
  have "(\<lambda>f. if f \<in> set [header_include_output_file h, footer_include_output_file h] then Some [] else w_files w f) =
      (w_files w)(header_include_output_file h \<mapsto> [], footer_include_output_file h \<mapsto> [])"
    by auto
  then have "prv_clear_config_files_if_not_already_cleared env h w = (stale, w1)"
    using clear_files_spec [of "[header_include_output_file h, footer_include_output_file h]" env False w] assms(2)
    by (simp add: prv_clear_config_files_if_not_already_cleared_def assms(3,4))
  with assms(1) show ?thesis by (simp add: prv_reload_def)
qed


text \<open>When data collection is on, a successful reload writes both files and restarts collectd.\<close>

lemma reload_enabled:
  assumes "ticosd_get_boolean J (w_ticosd w) [] ''enable_data_collection'' = Some True"
    and "prv_reload J env (Some h) w = Some (True, h', w')"
    and "header_include_output_file h \<noteq> footer_include_output_file h"
  shows "h' = Some (h\<lparr>was_enabled := True\<rparr>) \<and> w_bus w' = w_bus w @ [Restart_Unit COLLECTD_SERVICE] \<and>
    (\<exists>http post_chain. prv_generate_write_http J env (w_ticosd w) = Some (Some http) \<and>
      prv_generate_chain J env (w_ticosd w) = Some post_chain \<and>
      w_files w' (footer_include_output_file h) = Some (c_bytes (http @ post_chain)))"
proof -
  from assms(1,2) obtain w1 w2 where g: "prv_generate_header_include J env h 0 w = (True, w1)"
    "prv_generate_footer_include J env h w1 = Some (True, w2)"
    "ticosd_restart_service_if_running (co_systemd env) COLLECTD_SERVICE w2 = (True, w')" "h' = Some (h\<lparr>was_enabled := True\<rparr>)"
    by (auto simp: prv_reload_def split: if_splits prod.splits bind_splits)
  from g(1) have w1: "w_ticosd w1 = w_ticosd w" "w_bus w1 = w_bus w"
    by (auto simp: prv_generate_header_include_def Let_def put_file_def split: if_splits)
  from g(2) obtain http post_chain where f: "prv_generate_write_http J env (w_ticosd w1) = Some (Some http)"
    "prv_generate_chain J env (w_ticosd w1) = Some post_chain" "w2 = put_file (footer_include_output_file h) (http @ post_chain) w1"
    by (auto simp: prv_generate_footer_include_def Let_def split: if_splits option.splits bind_splits)
  from restart_bus [OF g(3)] f w1 g(4) show ?thesis by (simp add: put_file_def)
qed

section \<open>A device\<close>

definition metrics_world :: "jtree world" where
  "metrics_world =
     \<lparr>w_ticosd = \<lparr>td_queue = the (the (ticosd_queue_init blank_env 1024)),
                  td_config = \<lparr>base = Some (JObj (FCons ''enable_data_collection'' (JBool False) FNil)), runtime = Some (JObj FNil)\<rparr>,
                  td_settings = \<lparr>ds_device_id = ''D1'', ds_hardware_version = ''H1''\<rparr>, td_dev_mode = False\<rparr>,
      w_files = (\<lambda>_. None)(''/tmp/h'' \<mapsto> [1]), w_dirs = [], w_closed = [], w_bus = []\<rparr>"

definition metrics_env :: collectd_env where
  "metrics_env =
     \<lparr>co_alloc = \<lambda>_. True, co_fopen_ok = \<lambda>_. True, co_access_ok = \<lambda>_. True, header_printf_ok = True, http_printf_ok = True,
      chain_printf_ok = True,
      co_systemd = \<lparr>bus_ok = True, path_encode_ok = \<lambda>_. True, active_state = \<lambda>_. Some ''active'', restart_unit_ok = \<lambda>_. True,
                     kill_unit_ok = \<lambda>_ _. True\<rparr>\<rparr>"

definition metrics_plugin :: collectd_plugin where
  "metrics_plugin = \<lparr>was_enabled = False, header_include_output_file = ''/tmp/h'', footer_include_output_file = ''/tmp/f''\<rparr>"


end
