(* ===== verification/Swupdate.thy ===== *)
theory Swupdate
  imports Systemd Json_Sample
begin

text \<open>
  The swupdate plugin (src/plugins/swupdate.c): it reads the configuration of swupdate, puts the address of the server, the identity of
  the device and its versions in, writes the result to another file and restarts swupdate. libconfig is a
  parameter: a setting is named by its path from the root, an element of a list by the name \<open>cfg_append\<close>
  gives it. What the code relies on is \<open>libconfig_laws\<close>.
\<close>

section \<open>libconfig\<close>

datatype config_type = CONFIG_TYPE_GROUP | CONFIG_TYPE_LIST | CONFIG_TYPE_STRING

type_synonym setting_path = "string list"

record 'c libconfig =
  cfg_init :: 'c
  cfg_read :: "string \<Rightarrow> 'c option"
  cfg_exists :: "'c \<Rightarrow> setting_path \<Rightarrow> bool"
  cfg_string :: "'c \<Rightarrow> setting_path \<Rightarrow> string option"
  cfg_add :: "'c \<Rightarrow> setting_path \<Rightarrow> string \<Rightarrow> config_type \<Rightarrow> 'c option"
  cfg_append :: "'c \<Rightarrow> setting_path \<Rightarrow> config_type \<Rightarrow> ('c \<times> string) option"
  cfg_remove :: "'c \<Rightarrow> setting_path \<Rightarrow> string \<Rightarrow> 'c"
  cfg_set_string :: "'c \<Rightarrow> setting_path \<Rightarrow> string \<Rightarrow> 'c option"
  cfg_text :: "'c \<Rightarrow> string"

text \<open>
  Adding a setting changes no existing string, storing a string changes that one only, and removing a setting
  changes nothing outside it.
\<close>

definition libconfig_laws :: "'c libconfig \<Rightarrow> bool" where
  "libconfig_laws L \<longleftrightarrow>
     (\<forall>c p n ty c'. cfg_add L c p n ty = Some c' \<longrightarrow> (\<forall>q. q \<noteq> p @ [n] \<longrightarrow> cfg_string L c' q = cfg_string L c q)) \<and>
     (\<forall>c p ty c' n. cfg_append L c p ty = Some (c', n) \<longrightarrow> (\<forall>q. q \<noteq> p @ [n] \<longrightarrow> cfg_string L c' q = cfg_string L c q)) \<and>
     (\<forall>c p n q. take (length p + 1) q \<noteq> p @ [n] \<longrightarrow> cfg_string L (cfg_remove L c p n) q = cfg_string L c q) \<and>
     (\<forall>c p s c'. cfg_set_string L c p s = Some c' \<longrightarrow>
        cfg_string L c' p = Some s \<and> (\<forall>q. q \<noteq> p \<longrightarrow> cfg_string L c' q = cfg_string L c q))"

section \<open>Sections of the file\<close>

record swupdate_env =
  sw_alloc :: "nat \<Rightarrow> bool"
  sw_read_file :: "string \<Rightarrow> string option"
  sw_write_ok :: "string \<Rightarrow> bool"
  sw_systemd :: systemd

definition DEFAULT_INPUT_FILE :: string where "DEFAULT_INPUT_FILE = ''/etc/swupdate.cfg''"
definition DEFAULT_OUTPUT_FILE :: string where "DEFAULT_OUTPUT_FILE = ''/tmp/swupdate.cfg''"
definition DEFAULT_SURICATTA_TENANT :: string where "DEFAULT_SURICATTA_TENANT = ''default''"
definition HAWKBIT_PATH :: string where "HAWKBIT_PATH = ''/api/v0/hawkbit''"

definition prv_swupdate_add_globals :: "'c libconfig \<Rightarrow> 'c \<Rightarrow> 'c option" where
  "prv_swupdate_add_globals L config =
     (if \<not> cfg_exists L config [''globals''] then cfg_add L config [] ''globals'' CONFIG_TYPE_GROUP else Some config)"

text \<open>A string setting that is removed, added again and stored; the first failure ends it.\<close>

definition add_string :: "'c libconfig \<Rightarrow> setting_path \<Rightarrow> string \<Rightarrow> string \<Rightarrow> 'c \<Rightarrow> 'c option" where
  "add_string L p name val config = do {
     config \<leftarrow> cfg_add L config p name CONFIG_TYPE_STRING;
     cfg_set_string L config (p @ [name]) val
   }"

definition replace_string :: "'c libconfig \<Rightarrow> setting_path \<Rightarrow> string \<Rightarrow> string \<Rightarrow> 'c \<Rightarrow> 'c option" where
  "replace_string L p name val config = add_string L p name val (cfg_remove L config p name)"

text \<open>
  The outer option is undefined behaviour: the copy of the address is not checked for a failed allocation.
\<close>

definition prv_swupdate_add_suricatta ::
  "'j json_c \<Rightarrow> 'c libconfig \<Rightarrow> swupdate_env \<Rightarrow> 'j sTicosd \<Rightarrow> 'c \<Rightarrow> 'c option option" where
  "prv_swupdate_add_suricatta J L env t config =
     (case (if \<not> cfg_exists L config [''suricatta''] then cfg_add L config [] ''suricatta'' CONFIG_TYPE_GROUP
            else Some config) of
        None \<Rightarrow> Some None
      | Some config \<Rightarrow>
          (case ticosd_get_string J t [] ''base_url'' of
             None \<Rightarrow> Some None
           | Some server \<Rightarrow>
               if \<not> sw_alloc env (length HAWKBIT_PATH + length server + 1) then None
               else Some (do {
                 config \<leftarrow> replace_string L [''suricatta''] ''url'' (server @ HAWKBIT_PATH) config;
                 config \<leftarrow> replace_string L [''suricatta''] ''id'' (ds_device_id (td_settings t)) config;
                 config \<leftarrow> replace_string L [''suricatta''] ''tenant'' DEFAULT_SURICATTA_TENANT config;
                 key \<leftarrow> ticosd_get_string J t [] ''project_key'';
                 replace_string L [''suricatta''] ''gatewaytoken'' key config
               })))"

definition add_identity :: "'c libconfig \<Rightarrow> string \<Rightarrow> string \<Rightarrow> 'c \<Rightarrow> 'c option" where
  "add_identity L name val config = do {
     (config, i) \<leftarrow> cfg_append L config [''identify''] CONFIG_TYPE_GROUP;
     config \<leftarrow> add_string L [''identify'', i] ''name'' name config;
     add_string L [''identify'', i] ''value'' val config
   }"

definition prv_swupdate_add_identify :: "'j json_c \<Rightarrow> 'c libconfig \<Rightarrow> 'j sTicosd \<Rightarrow> 'c \<Rightarrow> 'c option" where
  "prv_swupdate_add_identify J L t config = do {
     config \<leftarrow> cfg_add L (cfg_remove L config [] ''identify'') [] ''identify'' CONFIG_TYPE_LIST;
     version \<leftarrow> ticosd_get_string J t [] ''software_version'';
     sw_type \<leftarrow> ticosd_get_string J t [] ''software_type'';
     config \<leftarrow> add_identity L ''ticos__current_version'' version config;
     config \<leftarrow> add_identity L ''ticos__hardware_version'' (ds_hardware_version (td_settings t)) config;
     add_identity L ''ticos__software_type'' sw_type config
   }"

definition prv_swupdate_add_runtime :: bool where "prv_swupdate_add_runtime = True"

section \<open>Operations of the plugin\<close>

text \<open>The input file, or the empty configuration when it cannot be read.\<close>

definition swupdate_input :: "'j json_c \<Rightarrow> 'c libconfig \<Rightarrow> swupdate_env \<Rightarrow> 'j sTicosd \<Rightarrow> 'c" where
  "swupdate_input J L env t =
     (let input_file =
            (case ticosd_get_string J t ''swupdate_plugin'' ''input_file'' of None \<Rightarrow> DEFAULT_INPUT_FILE | Some f \<Rightarrow> f)
      in case sw_read_file env input_file of
           None \<Rightarrow> cfg_init L
         | Some s \<Rightarrow> (case cfg_read L s of None \<Rightarrow> cfg_init L | Some c \<Rightarrow> c))"

definition swupdate_output_file :: "'j json_c \<Rightarrow> 'j sTicosd \<Rightarrow> string" where
  "swupdate_output_file J t =
     (case ticosd_get_string J t ''swupdate_plugin'' ''output_file'' of None \<Rightarrow> DEFAULT_OUTPUT_FILE | Some f \<Rightarrow> f)"

definition prv_swupdate_generate_config ::
  "'j json_c \<Rightarrow> 'c libconfig \<Rightarrow> swupdate_env \<Rightarrow> 'j world \<Rightarrow> (bool \<times> 'j world) option" where
  "prv_swupdate_generate_config J L env w =
     (let t = w_ticosd w in
      case prv_swupdate_add_globals L (swupdate_input J L env t) of
        None \<Rightarrow> Some (False, w)
      | Some config \<Rightarrow> do {
          config \<leftarrow> prv_swupdate_add_suricatta J L env t config;
          case config of
            None \<Rightarrow> Some (False, w)
          | Some config \<Rightarrow>
              (case prv_swupdate_add_identify J L t config of
                 None \<Rightarrow> Some (False, w)
               | Some config \<Rightarrow>
                   if \<not> prv_swupdate_add_runtime then Some (False, w)
                   else
                     let output_file = swupdate_output_file J t
                     in if \<not> sw_write_ok env output_file then Some (False, w)
                        else Some (True, w\<lparr>w_files := (w_files w)(output_file \<mapsto> c_bytes (cfg_text L config))\<rparr>))
        })"

definition prv_swupdate_reload ::
  "'j json_c \<Rightarrow> 'c libconfig \<Rightarrow> swupdate_env \<Rightarrow> 'j world \<Rightarrow> (bool \<times> 'j world) option" where
  "prv_swupdate_reload J L env w = do {
     (ok, w) \<leftarrow> prv_swupdate_generate_config J L env w;
     if \<not> ok then Some (False, w)
     else
       let (ok, w) = ticosd_restart_service_if_running (sw_systemd env) ''swupdate.service'' w in
       if \<not> ok then Some (False, w)
       else Some (ticosd_restart_service_if_running (sw_systemd env) ''swupdate.socket'' w)
   }"

definition ticosd_swupdate_init ::
  "'j json_c \<Rightarrow> 'c libconfig \<Rightarrow> swupdate_env \<Rightarrow> 'j world \<Rightarrow> (bool \<times> 'j world) option" where
  "ticosd_swupdate_init J L env w =
     (if \<not> sw_alloc env 8 then Some (False, w)
      else do { (_, w) \<leftarrow> prv_swupdate_reload J L env w; Some (True, w) })"

section \<open>The written configuration\<close>

lemma add_string_at:
  assumes "libconfig_laws L" and "add_string L p n v c = Some c'"
  shows "cfg_string L c' (p @ [n]) = Some v" and "q \<noteq> p @ [n] \<Longrightarrow> cfg_string L c' q = cfg_string L c q"
  using assms unfolding add_string_def libconfig_laws_def by (fastforce split: bind_splits)+

lemma replace_string_at:
  assumes "libconfig_laws L" and "replace_string L p n v c = Some c'"
  shows "cfg_string L c' (p @ [n]) = Some v" and "take (length p + 1) q \<noteq> p @ [n] \<Longrightarrow> cfg_string L c' q = cfg_string L c q"
proof -
  note r = assms(2) [unfolded replace_string_def]
  show "cfg_string L c' (p @ [n]) = Some v" by (rule add_string_at(1) [OF assms(1) r])
  assume q: "take (length p + 1) q \<noteq> p @ [n]"
  then have "q \<noteq> p @ [n]" by auto
  then have "cfg_string L c' q = cfg_string L (cfg_remove L c p n) q" by (rule add_string_at(2) [OF assms(1) r])
  with q assms(1) show "cfg_string L c' q = cfg_string L c q" unfolding libconfig_laws_def by simp
qed

lemma add_group_at:
  assumes "libconfig_laws L" and "cfg_add L c p n ty = Some c'" and "q \<noteq> p @ [n]"
  shows "cfg_string L c' q = cfg_string L c q"
  using assms unfolding libconfig_laws_def by blast

lemma add_identity_other:
  assumes "libconfig_laws L" and "add_identity L n v c = Some c'" and "take 1 q \<noteq> [''identify'']"
  shows "cfg_string L c' q = cfg_string L c q"
proof -
  from assms(2) obtain c1 i c2 where s: "cfg_append L c [''identify''] CONFIG_TYPE_GROUP = Some (c1, i)"
    "add_string L [''identify'', i] ''name'' n c1 = Some c2" "add_string L [''identify'', i] ''value'' v c2 = Some c'"
    by (auto simp: add_identity_def split: bind_splits)
  have q: "q \<noteq> [''identify'', i]" "q \<noteq> [''identify'', i] @ [k]" for k using assms(3) by auto
  have "cfg_string L c1 q = cfg_string L c q" using assms(1) s(1) q(1) unfolding libconfig_laws_def by fastforce
  with add_string_at(2) [OF assms(1) s(2) q(2)] add_string_at(2) [OF assms(1) s(3) q(2)] show ?thesis by simp
qed

lemma add_identify_other:
  assumes "libconfig_laws L" and "prv_swupdate_add_identify J L t c = Some c'" and "take 1 q \<noteq> [''identify'']"
  shows "cfg_string L c' q = cfg_string L c q"
proof -
  from assms(2) obtain c1 version sw_type c2 c3 where s:
    "cfg_add L (cfg_remove L c [] ''identify'') [] ''identify'' CONFIG_TYPE_LIST = Some c1"
    "add_identity L ''ticos__current_version'' version c1 = Some c2"
    "add_identity L ''ticos__hardware_version'' (ds_hardware_version (td_settings t)) c2 = Some c3"
    "add_identity L ''ticos__software_type'' sw_type c3 = Some c'"
    unfolding prv_swupdate_add_identify_def bind_eq_Some_conv by blast
  have "cfg_string L (cfg_remove L c [] ''identify'') q = cfg_string L c q"
    using assms(1,3) unfolding libconfig_laws_def by simp
  moreover have "cfg_string L c1 q = cfg_string L (cfg_remove L c [] ''identify'') q"
    by (rule add_group_at [OF assms(1) s(1)]) (use assms(3) in auto)
  ultimately show ?thesis
    using add_identity_other [OF assms(1) s(2) assms(3)] add_identity_other [OF assms(1) s(3) assms(3)]
      add_identity_other [OF assms(1) s(4) assms(3)] by simp
qed

definition suricatta_keys :: "string set" where "suricatta_keys = {''url'', ''id'', ''tenant'', ''gatewaytoken''}"

text \<open>Paths that the plugin has no reason to touch.\<close>

definition foreign :: "setting_path \<Rightarrow> bool" where
  "foreign q \<longleftrightarrow> take 1 q \<noteq> [''identify''] \<and> q \<noteq> [''globals''] \<and> q \<noteq> [''suricatta''] \<and>
     (\<forall>k \<in> suricatta_keys. take 2 q \<noteq> [''suricatta'', k])"

lemma add_globals_other:
  assumes "libconfig_laws L" and "prv_swupdate_add_globals L c = Some c'" and "q \<noteq> [''globals'']"
  shows "cfg_string L c' q = cfg_string L c q"
  using assms add_group_at [of L c "[]" "''globals''" CONFIG_TYPE_GROUP c' q]
  by (auto simp: prv_swupdate_add_globals_def split: if_splits)

lemma add_suricatta_at:
  assumes "libconfig_laws L" and "prv_swupdate_add_suricatta J L env t c = Some (Some c')"
  obtains server key where "ticosd_get_string J t [] ''base_url'' = Some server" "ticosd_get_string J t [] ''project_key'' = Some key"
    "cfg_string L c' [''suricatta'', ''url''] = Some (server @ HAWKBIT_PATH)"
    "cfg_string L c' [''suricatta'', ''id''] = Some (ds_device_id (td_settings t))"
    "cfg_string L c' [''suricatta'', ''tenant''] = Some DEFAULT_SURICATTA_TENANT"
    "cfg_string L c' [''suricatta'', ''gatewaytoken''] = Some key"
    "\<And>q. foreign q \<Longrightarrow> cfg_string L c' q = cfg_string L c q"
proof -
  let ?s = "[''suricatta'']"
  from assms(2) obtain c0 server where c0: "(if \<not> cfg_exists L c ?s then cfg_add L c [] ''suricatta'' CONFIG_TYPE_GROUP
      else Some c) = Some c0" "ticosd_get_string J t [] ''base_url'' = Some server"
    and rest: "do {
       config \<leftarrow> replace_string L ?s ''url'' (server @ HAWKBIT_PATH) c0;
       config \<leftarrow> replace_string L ?s ''id'' (ds_device_id (td_settings t)) config;
       config \<leftarrow> replace_string L ?s ''tenant'' DEFAULT_SURICATTA_TENANT config;
       key \<leftarrow> ticosd_get_string J t [] ''project_key'';
       replace_string L ?s ''gatewaytoken'' key config
     } = Some c'"
    unfolding prv_swupdate_add_suricatta_def by (auto split: option.splits if_splits)
  from rest obtain c1 c2 c3 key where r: "replace_string L ?s ''url'' (server @ HAWKBIT_PATH) c0 = Some c1"
    "replace_string L ?s ''id'' (ds_device_id (td_settings t)) c1 = Some c2"
    "replace_string L ?s ''tenant'' DEFAULT_SURICATTA_TENANT c2 = Some c3" "ticosd_get_string J t [] ''project_key'' = Some key"
    "replace_string L ?s ''gatewaytoken'' key c3 = Some c'"
    unfolding bind_eq_Some_conv by blast
  note at = replace_string_at(1) [OF assms(1)] and other = replace_string_at(2) [OF assms(1)]
  have keep: "cfg_string L c' q = cfg_string L c3 q" "cfg_string L c3 q = cfg_string L c2 q" "cfg_string L c2 q = cfg_string L c1 q"
    "cfg_string L c1 q = cfg_string L c0 q" "cfg_string L c0 q = cfg_string L c q" if "foreign q" for q
    using other [OF r(5), of q] other [OF r(3), of q] other [OF r(2), of q] other [OF r(1), of q] that c0(1)
      add_group_at [OF assms(1), of c "[]" "''suricatta''" CONFIG_TYPE_GROUP c0 q]
    by (auto simp: foreign_def suricatta_keys_def numeral_2_eq_2 split: if_splits)
  show ?thesis
  proof (rule that [OF c0(2) r(4)])
    show "cfg_string L c' [''suricatta'', ''gatewaytoken''] = Some key" using at [OF r(5)] by simp
    have 3: "cfg_string L c3 [''suricatta'', ''tenant''] = Some DEFAULT_SURICATTA_TENANT" using at [OF r(3)] by simp
    have 2: "cfg_string L c2 [''suricatta'', ''id''] = Some (ds_device_id (td_settings t))" using at [OF r(2)] by simp
    have 1: "cfg_string L c1 [''suricatta'', ''url''] = Some (server @ HAWKBIT_PATH)" using at [OF r(1)] by simp
    show "cfg_string L c' [''suricatta'', ''tenant''] = Some DEFAULT_SURICATTA_TENANT"
      using 3 other [OF r(5), of "[''suricatta'', ''tenant'']"] by simp
    show "cfg_string L c' [''suricatta'', ''id''] = Some (ds_device_id (td_settings t))"
      using 2 other [OF r(5), of "[''suricatta'', ''id'']"] other [OF r(3), of "[''suricatta'', ''id'']"] by simp
    show "cfg_string L c' [''suricatta'', ''url''] = Some (server @ HAWKBIT_PATH)"
      using 1 other [OF r(5), of "[''suricatta'', ''url'']"] other [OF r(3), of "[''suricatta'', ''url'']"]
        other [OF r(2), of "[''suricatta'', ''url'']"] by simp
    show "foreign q \<Longrightarrow> cfg_string L c' q = cfg_string L c q" for q using keep by simp
  qed
qed


section \<open>A configuration library\<close>

text \<open>A library for the witness: settings in a list, strings with their value.\<close>

type_synonym settings_list = "(setting_path \<times> string option) list"

definition below :: "setting_path \<Rightarrow> string \<Rightarrow> setting_path \<times> string option \<Rightarrow> bool" where
  "below p n e \<longleftrightarrow> take (length p + 1) (fst e) = p @ [n]"

definition list_config :: "settings_list libconfig" where
  "list_config =
     \<lparr>cfg_init = [], cfg_read = \<lambda>_. None, cfg_exists = \<lambda>c p. map_of c p \<noteq> None, cfg_string = \<lambda>c p. Option.bind (map_of c p) id,
      cfg_add = \<lambda>c p n _. if map_of c (p @ [n]) \<noteq> None then None else Some ((p @ [n], None) # c),
      cfg_append = \<lambda>c p _. Some ((p @ [show_nat (length c)], None) # c, show_nat (length c)),
      cfg_remove = \<lambda>c p n. filter (\<lambda>e. \<not> below p n e) c, cfg_set_string = \<lambda>c p s. Some ((p, Some s) # c),
      cfg_text = \<lambda>c. concat (map (\<lambda>(p, v). concat p) c)\<rparr>"

lemma map_of_filter_outside:
  "take (length p + 1) q \<noteq> p @ [n] \<Longrightarrow> map_of (filter (\<lambda>e. \<not> below p n e) c) q = map_of c q"
  by (induction c) (auto simp: below_def)

lemma list_config_laws: "libconfig_laws list_config"
  using map_of_filter_outside by (auto simp: libconfig_laws_def list_config_def split: if_splits)

definition update_world :: "sTicosdQueue \<Rightarrow> jtree world" where
  "update_world q =
     \<lparr>w_ticosd = \<lparr>td_queue = q,
        td_config = \<lparr>base = Some (JObj (FCons ''base_url'' (JStr ''https://h'') (FCons ''project_key'' (JStr ''k'')
          (FCons ''software_version'' (JStr ''1'') (FCons ''software_type'' (JStr ''m'') FNil))))), runtime = Some (JObj FNil)\<rparr>,
        td_settings = \<lparr>ds_device_id = ''D1'', ds_hardware_version = ''H1''\<rparr>, td_dev_mode = False\<rparr>,
      w_files = (\<lambda>_. None), w_dirs = [], w_closed = [], w_bus = []\<rparr>"

definition update_env :: swupdate_env where
  "update_env =
     \<lparr>sw_alloc = \<lambda>_. True, sw_read_file = \<lambda>_. None, sw_write_ok = \<lambda>_. True,
      sw_systemd = \<lparr>bus_ok = False, path_encode_ok = \<lambda>_. True, active_state = \<lambda>_. None, restart_unit_ok = \<lambda>_. False,
                     kill_unit_ok = \<lambda>_ _. False\<rparr>\<rparr>"

lemma update_runs: "map_option fst (prv_swupdate_generate_config tree_json list_config update_env (update_world q)) = Some True"
  by code_simp

definition update_start :: "jtree world" where
  "update_start = update_world (the (the (ticosd_queue_init blank_env 1024)))"


end
