(* ===== verification/Attributes.thy ===== *)
theory Attributes
  imports Ipc
begin

text \<open>
  The attributes plugin (src/plugins/attributes/attributes.c): it turns a message with device attributes into an entry of the transmit
  queue. \<^verbatim>\<open>sTicosAttributesIPC\<close> has the name in its first 11 bytes, 5 bytes of padding, the time in the next 8 and the JSON text from
  byte 24 on. \<open>None\<close> as the outcome is reading behind the end of the receive buffer.
\<close>

section \<open>The plugin\<close>

definition ATTRIBUTES_TIMESTAMP :: nat where "ATTRIBUTES_TIMESTAMP = 16"
definition sizeof_sTicosAttributesIPC :: nat where "sizeof_sTicosAttributesIPC = 24"
definition sizeof_time_t :: nat where "sizeof_time_t = 8"
definition sizeof_sTicosdTxDataAttributes :: nat where "sizeof_sTicosdTxDataAttributes = 9"

text \<open>The entry, if it can be allocated, and the size of its payload.\<close>

definition attributes_build_queue_entry ::
  "(nat \<Rightarrow> bool) \<Rightarrow> byte list \<Rightarrow> (sTicosdTxData option \<times> nat) option" where
  "attributes_build_queue_entry al rx =
     (let body = drop sizeof_sTicosAttributesIPC rx in
      if 0 \<notin> set body then None
      else do {
        let body = takeWhile (\<lambda>b. b \<noteq> 0) body;
        let payload_size = u32_of (sizeof_time_t + length body + 1);
        if \<not> al (sizeof_sTicosdTxDataAttributes + payload_size) then Some (None, payload_size)
        else do {
          timestamp \<leftarrow> mem_read rx ATTRIBUTES_TIMESTAMP sizeof_time_t;
          Some (Some \<lparr>tx_type = txdata_type kTicosdTxDataType_Attributes, payload = timestamp @ body @ [0]\<rparr>, payload_size)
        }
      })"

text \<open>An entry that could not be allocated is passed on as a null pointer, which the queue refuses.\<close>

definition attributes_msg_handler ::
  "'j json_c \<Rightarrow> (nat \<Rightarrow> bool) \<Rightarrow> msghdr \<Rightarrow> nat \<Rightarrow> 'j sTicosd \<Rightarrow> (bool \<times> 'j sTicosd) option" where
  "attributes_msg_handler J al msg received_size t = do {
     (data, len) \<leftarrow> attributes_build_queue_entry al (iov_base msg);
     case data of
       Some data \<Rightarrow> handle_txdata J t data len
     | None \<Rightarrow>
         if ticosd_get_boolean J t [] ''enable_data_collection'' \<noteq> Some True then Some (True, t)
         else do {
           (ok, q) \<leftarrow> ticosd_queue_write (td_queue t) None (u32_of (1 + len));
           Some (ok, t\<lparr>td_queue := q\<rparr>)
         }
   }"

definition ticosd_attributes_init :: "(nat \<Rightarrow> bool) \<Rightarrow> bool" where
  "ticosd_attributes_init al = al 8"

section \<open>Messages with attributes\<close>

text \<open>The message for a JSON text: the name, padding, the time and the text.\<close>

definition PLUGIN_ATTRIBUTES_IPC_NAME :: string where "PLUGIN_ATTRIBUTES_IPC_NAME = ''ATTRIBUTES''"

definition attributes_message :: "byte list \<Rightarrow> nat \<Rightarrow> string \<Rightarrow> byte list" where
  "attributes_message padding timestamp body =
     c_bytes PLUGIN_ATTRIBUTES_IPC_NAME @ [0] @ padding @ nat_le 8 timestamp @ c_bytes body @ [0]"

definition attributes_entry :: "nat \<Rightarrow> string \<Rightarrow> byte list" where
  "attributes_entry timestamp body =
     txdata_type kTicosdTxDataType_Attributes # nat_le 8 timestamp @ c_bytes body @ [0]"

lemma attributes_message_parts:
  assumes "length padding = 5"
  shows "length (attributes_message padding ts body) = 25 + length body"
    and "drop 24 (attributes_message padding ts body) = c_bytes body @ [0]"
    and "mem_read (attributes_message padding ts body @ left) 16 8 = Some (nat_le 8 ts)"
proof -
  let ?pre = "c_bytes PLUGIN_ATTRIBUTES_IPC_NAME @ [0] @ padding"
  have pre: "length ?pre = 16" using assms by (simp add: PLUGIN_ATTRIBUTES_IPC_NAME_def)
  have m: "attributes_message padding ts body = ?pre @ nat_le 8 ts @ c_bytes body @ [0]" by (simp add: attributes_message_def)
  show "length (attributes_message padding ts body) = 25 + length body"
    unfolding m by (subst length_append, subst pre) simp
  have "drop 24 (?pre @ nat_le 8 ts @ c_bytes body @ [0]) = drop 8 (nat_le 8 ts @ c_bytes body @ [0])"
    using assms by (simp add: PLUGIN_ATTRIBUTES_IPC_NAME_def)
  then show "drop 24 (attributes_message padding ts body) = c_bytes body @ [0]" unfolding m by simp
  have "mem_read (?pre @ nat_le 8 ts @ c_bytes body @ 0 # left) 16 8 = Some (nat_le 8 ts)"
    using assms by (simp add: mem_read_def PLUGIN_ATTRIBUTES_IPC_NAME_def)
  then show "mem_read (attributes_message padding ts body @ left) 16 8 = Some (nat_le 8 ts)" unfolding m by simp
qed

lemma attributes_entry_built:
  assumes "length padding = 5" and "CHR 0x00 \<notin> set body" and "\<forall>n. al n" and "length body < 2 ^ 30"
  shows "attributes_build_queue_entry al (attributes_message padding ts body @ left) =
    Some (Some \<lparr>tx_type = txdata_type kTicosdTxDataType_Attributes, payload = nat_le 8 ts @ c_bytes body @ [0]\<rparr>,
      9 + length body)"
proof -
  have "drop 24 (attributes_message padding ts body @ left) = c_bytes body @ 0 # left"
    using attributes_message_parts(1,2) [OF assms(1), of ts body] by simp
  moreover have "takeWhile (\<lambda>b. b \<noteq> 0) (c_bytes body @ 0 # left) = c_bytes body"
    using c_bytes_no_nul [OF assms(2)] by simp
  ultimately show ?thesis
    using attributes_message_parts(3) [OF assms(1)] assms(3,4)
    by (simp add: attributes_build_queue_entry_def sizeof_sTicosAttributesIPC_def sizeof_time_t_def
        sizeof_sTicosdTxDataAttributes_def ATTRIBUTES_TIMESTAMP_def u32_of_id Let_def)
qed

lemma attributes_queued:
  assumes "length padding = 5" and "CHR 0x00 \<notin> set body" and "\<forall>n. al n" and "length body < 2 ^ 30"
    and "ticosd_get_boolean J t [] ''enable_data_collection'' = Some True" and "rep (td_queue t) xs"
    and "room (td_queue t) (attributes_entry ts body)" and "iov_base msg = attributes_message padding ts body @ left"
  shows "\<exists>q. attributes_msg_handler J al msg n t = Some (True, t\<lparr>td_queue := q\<rparr>) \<and>
    rep q (xs @ [attributes_entry ts body]) \<and> queue_put (td_queue t) (attributes_entry ts body) = Some (True, q)"
proof -
  define data where
    "data = \<lparr>tx_type = txdata_type kTicosdTxDataType_Attributes, payload = nat_le 8 ts @ c_bytes body @ [0]\<rparr>"
  have e: "txdata_bytes data = attributes_entry ts body" by (simp only: data_def txdata_bytes_def attributes_entry_def sTicosdTxData.simps)
  have l: "9 + length body = length (payload data)" by (simp add: data_def)
  from handle_txdata_queues [OF assms(5,6), of data, unfolded e, OF assms(7) l] assms(4)
  obtain q where "handle_txdata J t data (9 + length body) = Some (True, t\<lparr>td_queue := q\<rparr>)" "rep q (xs @ [attributes_entry ts body])"
    "queue_put (td_queue t) (attributes_entry ts body) = Some (True, q)"
    by auto
  with attributes_entry_built [OF assms(1-4), of ts left, folded data_def] assms(8) show ?thesis
    by (auto simp: attributes_msg_handler_def)
qed

end
