(* ===== verification/Ticosctl.thy ===== *)
theory Ticosctl
  imports Attributes Systemd Reboot Json_Sample
begin

text \<open>
  The command line tool (src/ticosctl/ticosctl.c, parse_attributes.c and crash.c). What the system answers is
  the environment; the state has the files, the requests to systemd, the messages sent to the daemon, the signals sent to it,
  the reboots asked for and the crashes caused. What \<^verbatim>\<open>getopt\<close> makes of the command line is an argument. \<open>None\<close> as the
  outcome is a failed assertion or undefined behaviour.
\<close>

section \<open>Attributes on the command line\<close>

text \<open>The operations of json-c on arrays.\<close>

record 'j json_array =
  json_object_new_array :: 'j
  json_object_array_add :: "'j \<Rightarrow> 'j \<Rightarrow> 'j option"
  json_object_array_length :: "'j \<Rightarrow> nat"

definition prv_parse_attribute_value :: "'j json_c \<Rightarrow> string \<Rightarrow> 'j" where
  "prv_parse_attribute_value J v =
     (case json_tokener_parse J v of
        None \<Rightarrow> json_object_new_string J v
      | Some obj \<Rightarrow>
          if json_object_get_type J obj = json_type_array \<or> json_object_get_type J obj = json_type_object
          then json_object_new_string J v else obj)"

text \<open>The key and the value of an argument, if it has both.\<close>

definition split_attribute :: "string \<Rightarrow> (string \<times> string) option" where
  "split_attribute kvp =
     (let key = takeWhile (\<lambda>c. c \<noteq> CHR ''='') kvp in
      if CHR ''='' \<notin> set kvp \<or> key = [] then None else Some (key, drop (length key + 1) kvp))"

fun parse_attribute_list :: "'j json_c \<Rightarrow> 'j json_array \<Rightarrow> (nat \<Rightarrow> bool) \<Rightarrow> string list \<Rightarrow> 'j \<Rightarrow> 'j option option" where
  "parse_attribute_list J A al [] arr = Some (Some arr)"
| "parse_attribute_list J A al (kvp # args) arr =
     (if \<not> al (length kvp + 1) then None
      else case split_attribute kvp of
        None \<Rightarrow> Some None
      | Some (key, v) \<Rightarrow> do {
          pair \<leftarrow> json_object_object_add J (json_object_new_object J) ''string_key'' (json_object_new_string J key);
          pair \<leftarrow> json_object_object_add J pair ''value'' (prv_parse_attribute_value J v);
          arr \<leftarrow> json_object_array_add A arr pair;
          parse_attribute_list J A al args arr
        })"

definition ticosd_parse_attributes ::
  "'j json_c \<Rightarrow> 'j json_array \<Rightarrow> (nat \<Rightarrow> bool) \<Rightarrow> string list \<Rightarrow> 'j option option" where
  "ticosd_parse_attributes J A al args = do {
     r \<leftarrow> parse_attribute_list J A al args (json_object_new_array A);
     Some (case r of
             None \<Rightarrow> None
           | Some arr \<Rightarrow> if json_object_array_length A arr < 1 then None else Some arr)
   }"

section \<open>Environment and state\<close>

datatype eErrorType = eErrorTypeSegFault | eErrorTypeFPException

record 'j ctl_env =
  ct_json :: "'j json_c"
  ct_array :: "'j json_array"
  ct_alloc :: "nat \<Rightarrow> bool"
  ct_can_write :: "string \<Rightarrow> bool"
  ct_systemd :: systemd
  ct_root :: bool
  ct_socket :: bool
  ct_sendto :: "byte list \<Rightarrow> int"
  ct_pid_file :: pid_file
  ct_kill_ok :: "int \<Rightarrow> bool"
  ct_time :: int
  ct_padding :: "byte list"
  ct_fprintf_ok :: bool
  ct_reboot_ok :: bool
  ct_builtin_conf :: string
  ct_device_info :: "string option"

record 'j ctl_state =
  cs_world :: "'j world"
  cs_conf_files :: "string \<Rightarrow> string option"
  cs_sent :: "byte list list"
  cs_signals :: nat
  cs_reboots :: nat
  cs_crashes :: "eErrorType list"

record 'j sTicosCtl =
  ctl_config_file :: string
  ctl_config :: "'j sTicosdConfig"
  ctl_settings :: "sTicosdDeviceSettings option"
  ctl_extra_args :: "string list"
  ctl_dev_mode :: bool

section \<open>Commands\<close>

definition set_command ::
  "string \<Rightarrow> string \<Rightarrow> bool \<Rightarrow> 'j ctl_env \<Rightarrow> 'j sTicosCtl \<Rightarrow> 'j ctl_state \<Rightarrow> (int \<times> 'j ctl_state) option" where
  "set_command key description val env h st = do {
     (rc, _, conf, w) \<leftarrow> ticos_set_runtime_bool_and_reload (ct_json env) (ct_alloc env) (ct_can_write env) (ct_systemd env)
       (ct_root env) (ctl_config h) key description val (cs_conf_files st) (cs_world st);
     Some (rc, st\<lparr>cs_conf_files := conf, cs_world := w\<rparr>)
   }"

definition prv_cmd_show_settings :: "'j ctl_env \<Rightarrow> 'j sTicosCtl \<Rightarrow> 'j ctl_state \<Rightarrow> (int \<times> 'j ctl_state) option" where
  "prv_cmd_show_settings env h st = Some (0, st)"

definition prv_cmd_enable_developer_mode :: "'j ctl_env \<Rightarrow> 'j sTicosCtl \<Rightarrow> 'j ctl_state \<Rightarrow> (int \<times> 'j ctl_state) option" where
  "prv_cmd_enable_developer_mode = set_command CONFIG_KEY_DEV_MODE ''developer mode'' True"

definition prv_cmd_disable_developer_mode :: "'j ctl_env \<Rightarrow> 'j sTicosCtl \<Rightarrow> 'j ctl_state \<Rightarrow> (int \<times> 'j ctl_state) option" where
  "prv_cmd_disable_developer_mode = set_command CONFIG_KEY_DEV_MODE ''developer mode'' False"

definition prv_cmd_enable_data_collection :: "'j ctl_env \<Rightarrow> 'j sTicosCtl \<Rightarrow> 'j ctl_state \<Rightarrow> (int \<times> 'j ctl_state) option" where
  "prv_cmd_enable_data_collection = set_command CONFIG_KEY_DATA_COLLECTION ''data collection'' True"

definition prv_cmd_disable_data_collection :: "'j ctl_env \<Rightarrow> 'j sTicosCtl \<Rightarrow> 'j ctl_state \<Rightarrow> (int \<times> 'j ctl_state) option" where
  "prv_cmd_disable_data_collection = set_command CONFIG_KEY_DATA_COLLECTION ''data collection'' False"

text \<open>The reason on the command line: unknown without arguments.\<close>

definition reboot_argument :: "string list \<Rightarrow> int option" where
  "reboot_argument args =
     (case args of
        [] \<Rightarrow> Some (reboot_reason_value kTicosRebootReason_Unknown)
      | [option, reason_str] \<Rightarrow>
          if option \<noteq> ''--reason'' then None
          else (case scan_long reason_str of
                  None \<Rightarrow> None
                | Some (v, _) \<Rightarrow> if ticosd_is_reboot_reason_valid (int32 v) then Some (int32 v) else None)
      | _ \<Rightarrow> None)"

definition prv_cmd_reboot :: "'j ctl_env \<Rightarrow> 'j sTicosCtl \<Rightarrow> 'j ctl_state \<Rightarrow> (int \<times> 'j ctl_state) option" where
  "prv_cmd_reboot env h st =
     (case ticosd_config_get_string (ct_json env) (ctl_config h) ''reboot_plugin'' ''last_reboot_reason_file'' of
        None \<Rightarrow> Some (- 1, st)
      | Some file \<Rightarrow>
          (case reboot_argument (ctl_extra_args h) of
             None \<Rightarrow> Some (- 1, st)
           | Some reboot_reason \<Rightarrow>
               let put = (\<lambda>s. st\<lparr>cs_world := (cs_world st)\<lparr>w_files := (w_files (cs_world st))(file \<mapsto> c_bytes s)\<rparr>\<rparr>) in
               if \<not> ct_can_write env file then Some (- 1, st)
               else if \<not> ct_fprintf_ok env then Some (- 1, put [])
               else if \<not> ct_reboot_ok env then Some (- 1, put (show_int reboot_reason))
               else Some (0, (put (show_int reboot_reason))\<lparr>cs_reboots := cs_reboots st + 1\<rparr>)))"

definition send_message :: "'j ctl_env \<Rightarrow> byte list \<Rightarrow> 'j ctl_state \<Rightarrow> bool \<times> 'j ctl_state" where
  "send_message env msg st =
     (if ticosd_ipc_sendmsg (ct_socket env) (ct_sendto env) msg (length msg)
      then (True, st\<lparr>cs_sent := cs_sent st @ [msg]\<rparr>) else (False, st))"

definition send_flush :: "'j ctl_env \<Rightarrow> 'j ctl_state \<Rightarrow> bool \<times> 'j ctl_state" where
  "send_flush env st =
     (if ticosd_send_flush_queue_signal (ct_pid_file env) (ct_kill_ok env)
      then (True, st\<lparr>cs_signals := cs_signals st + 1\<rparr>) else (False, st))"

definition PLUGIN_COLLECTD_IPC_NAME :: string where "PLUGIN_COLLECTD_IPC_NAME = ''COLLECTD''"

definition prv_cmd_request_metrics :: "'j ctl_env \<Rightarrow> 'j sTicosCtl \<Rightarrow> 'j ctl_state \<Rightarrow> (int \<times> 'j ctl_state) option" where
  "prv_cmd_request_metrics env h st =
     (let (ok, st) = send_message env (c_bytes PLUGIN_COLLECTD_IPC_NAME @ [0]) st in Some (if ok then 0 else - 1, st))"

definition prv_cmd_sync :: "'j ctl_env \<Rightarrow> 'j sTicosCtl \<Rightarrow> 'j ctl_state \<Rightarrow> (int \<times> 'j ctl_state) option" where
  "prv_cmd_sync env h st = (let (ok, st) = send_flush env st in Some (if ok then 0 else - 1, st))"

text \<open>The crash of the forked child; \<^verbatim>\<open>strcmp\<close> is true in C when the strings differ.\<close>

definition ticos_trigger_crash :: "eErrorType \<Rightarrow> 'j ctl_state \<Rightarrow> 'j ctl_state" where
  "ticos_trigger_crash e st = st\<lparr>cs_crashes := cs_crashes st @ [e]\<rparr>"

definition crash_argument :: "string list \<Rightarrow> eErrorType option" where
  "crash_argument args =
     (case args of
        [] \<Rightarrow> Some eErrorTypeSegFault
      | a # _ \<Rightarrow>
          if a \<noteq> ''segfault'' then Some eErrorTypeSegFault
          else if a \<noteq> ''divide-by-zero'' then Some eErrorTypeFPException
          else None)"

definition prv_cmd_trigger_coredump :: "'j ctl_env \<Rightarrow> 'j sTicosCtl \<Rightarrow> 'j ctl_state \<Rightarrow> (int \<times> 'j ctl_state) option" where
  "prv_cmd_trigger_coredump env h st =
     (case crash_argument (ctl_extra_args h) of
        None \<Rightarrow> Some (- 1, st)
      | Some e \<Rightarrow>
          let st = ticos_trigger_crash e st in
          if ctl_dev_mode h then
            let (ok, st) = send_flush env st in Some (if ok then 0 else - 1, st)
          else Some (0, st))"

text \<open>
  The time of the message is the value of \<^verbatim>\<open>time(NULL) > 0\<close>, and the assertion is that this is not 0.
  The bytes between the name and the time are what the allocation left there.
\<close>

definition prv_cmd_write_attributes :: "'j ctl_env \<Rightarrow> 'j sTicosCtl \<Rightarrow> 'j ctl_state \<Rightarrow> (int \<times> 'j ctl_state) option" where
  "prv_cmd_write_attributes env h st = do {
     attributes \<leftarrow> ticosd_parse_attributes (ct_json env) (ct_array env) (ct_alloc env) (ctl_extra_args h);
     case attributes of
       None \<Rightarrow> Some (- 1, st)
     | Some object \<Rightarrow>
         let stringified = json_object_to_json_string (ct_json env) object;
             msg_size = sizeof_sTicosAttributesIPC + length stringified + 1
         in if \<not> ct_alloc env msg_size then Some (- 1, st)
            else
              let timestamp = (if ct_time env > 0 then 1 else 0) in
              if timestamp = 0 then None
              else
                let (success, st) = send_message env (attributes_message (ct_padding env) timestamp stringified) st;
                    st = (if success \<and> ctl_dev_mode h then snd (send_flush env st) else st)
                in Some (if success then 0 else - 1, st)
   }"

section \<open>The tool\<close>

definition cmds :: "(string \<times> ('j ctl_env \<Rightarrow> 'j sTicosCtl \<Rightarrow> 'j ctl_state \<Rightarrow> (int \<times> 'j ctl_state) option)) list" where
  "cmds =
     [(''enable-data-collection'', prv_cmd_enable_data_collection),
      (''disable-data-collection'', prv_cmd_disable_data_collection),
      (''enable-dev-mode'', prv_cmd_enable_developer_mode),
      (''disable-dev-mode'', prv_cmd_disable_developer_mode),
      (''reboot'', prv_cmd_reboot),
      (''request-metrics'', prv_cmd_request_metrics),
      (''show-settings'', prv_cmd_show_settings),
      (''sync'', prv_cmd_sync),
      (''trigger-coredump'', prv_cmd_trigger_coredump),
      (''write-attributes'', prv_cmd_write_attributes)]"

definition CONFIG_FILE :: string where "CONFIG_FILE = ''/etc/ticosd.conf''"

text \<open>The options in order: the exit code of an option that ends the program, or the configuration file.\<close>

fun ctl_options :: "(char \<times> string) list \<Rightarrow> string \<Rightarrow> int + string" where
  "ctl_options [] file = Inr file"
| "ctl_options ((opt, optarg) # opts) file =
     (if opt = CHR ''c'' then ctl_options opts optarg
      else if opt = CHR ''h'' then Inl 0
      else if opt = CHR ''v'' then Inl 0
      else Inl (- 1))"

definition ticosctl_main ::
  "'j ctl_env \<Rightarrow> (char \<times> string) list \<Rightarrow> string list \<Rightarrow> 'j ctl_state \<Rightarrow> (int \<times> 'j ctl_state) option" where
  "ticosctl_main env opts args st =
     (case ctl_options opts CONFIG_FILE of
        Inl code \<Rightarrow> Some (code, st)
      | Inr file \<Rightarrow>
          (case args of
             [] \<Rightarrow> Some (- 1, st)
           | command # extra_args \<Rightarrow> do {
               config \<leftarrow> ticosd_config_init (ct_json env) (ct_alloc env) (ct_builtin_conf env) file (cs_conf_files st);
               settings \<leftarrow> ticosd_device_settings_init (ct_alloc env) (ct_device_info env);
               let h = \<lparr>ctl_config_file = file, ctl_config = config, ctl_settings = settings, ctl_extra_args = extra_args,
                 ctl_dev_mode =
                   (ticosd_config_get_boolean (ct_json env) config [] CONFIG_KEY_DEV_MODE = Some True)\<rparr>;
               case map_of cmds command of
                 None \<Rightarrow> Some (- 1, st)
               | Some cmd \<Rightarrow> cmd env h st
             }))"

section \<open>What the commands do\<close>

lemma crash_arguments_swapped:
  "crash_argument [''segfault''] = Some eErrorTypeFPException" "crash_argument [''divide-by-zero''] = Some eErrorTypeSegFault"
  "crash_argument args \<noteq> None"
  by (auto simp: crash_argument_def split: list.splits)

lemma write_attributes_sends:
  assumes "prv_cmd_write_attributes env h st = Some (0, st')"
  shows "\<exists>object. ticosd_parse_attributes (ct_json env) (ct_array env) (ct_alloc env) (ctl_extra_args h) = Some (Some object) \<and>
    cs_sent st' = cs_sent st @ [attributes_message (ct_padding env) 1 (json_object_to_json_string (ct_json env) object)]"
proof -
  have f: "cs_sent (snd (send_flush env s)) = cs_sent s" for s by (simp add: send_flush_def)
  from assms show ?thesis
    by (auto simp: prv_cmd_write_attributes_def Let_def send_message_def f split: option.splits bind_splits if_splits)
qed

lemma int32_bounds: "- (2 ^ 31) \<le> int32 v" "int32 v < 2 ^ 31"
  using sint_ge [of "word_of_int v :: 32 word"] sint_lt [of "word_of_int v :: 32 word"] by (simp_all add: int32_def)

text \<open>The files as the reboot plugin sees them.\<close>

definition text_files :: "'j world \<Rightarrow> file_system" where
  "text_files w f = map_option buf_chars (w_files w f)"


section \<open>A device\<close>

definition list_array :: "jtree json_array" where
  "list_array = \<lparr>json_object_new_array = JObj FNil, json_object_array_add = \<lambda>a x. jadd a (print_tree x) x,
     json_object_array_length = \<lambda>a. case jfields_of a of None \<Rightarrow> 0 | Some fs \<Rightarrow> length fs\<rparr>"

definition shell_env :: "jtree ctl_env" where
  "shell_env =
     \<lparr>ct_json = tree_json, ct_array = list_array, ct_alloc = \<lambda>_. True, ct_can_write = \<lambda>_. True,
      ct_systemd = \<lparr>bus_ok = True, path_encode_ok = \<lambda>_. True, active_state = \<lambda>_. Some ''active'', restart_unit_ok = \<lambda>_. True,
                     kill_unit_ok = \<lambda>_ _. True\<rparr>,
      ct_root = True, ct_socket = True, ct_sendto = \<lambda>bs. int (length bs), ct_pid_file = Pid_Missing, ct_kill_ok = \<lambda>_. True,
      ct_time = 1700000000, ct_padding = [0, 0, 0, 0, 0], ct_fprintf_ok = True, ct_reboot_ok = True, ct_builtin_conf = [],
      ct_device_info = None\<rparr>"

definition shell_handle :: "jtree sTicosCtl" where
  "shell_handle =
     \<lparr>ctl_config_file = CONFIG_FILE,
      ctl_config = \<lparr>base = Some (JObj (FCons ''reboot_plugin'' (JObj (FCons ''last_reboot_reason_file'' (JStr ''/media/reason'') FNil)) FNil)),
                    runtime = None\<rparr>,
      ctl_settings = None, ctl_extra_args = [''--reason'', ''2''], ctl_dev_mode = False\<rparr>"

definition shell_state :: "jtree ctl_state" where
  "shell_state =
     \<lparr>cs_world = \<lparr>w_ticosd = \<lparr>td_queue = the (the (ticosd_queue_init blank_env 1024)), td_config = ctl_config shell_handle,
        td_settings = \<lparr>ds_device_id = ''D1'', ds_hardware_version = ''H1''\<rparr>, td_dev_mode = False\<rparr>, w_files = \<lambda>_. None, w_dirs = [], w_closed = [], w_bus = []\<rparr>,
      cs_conf_files = \<lambda>_. None, cs_sent = [], cs_signals = 0, cs_reboots = 0, cs_crashes = []\<rparr>"


end
