(* ===== verification/Plugins.thy ===== *)
theory Plugins
  imports Coredump_Capture Collectd Swupdate Ticosctl
begin

text \<open>
  The table of plugins (src/util/plugins.c) and the thread that receives messages for them (the socket thread of
  src/ticosd.c). A plugin is a record of its functions on the state of the daemon. The table is generic in that state; the
  table of the program, with all plugins built in, is \<open>g_plugins\<close>. The contract of message handlers is the locale
  \<open>plugin_table\<close>. \<open>None\<close> as an outcome is undefined behaviour of a handler or a handler that does not return.
\<close>

section \<open>Tables of plugins\<close>

record 's sTicosdPluginCallbackFns =
  plugin_destroy :: "('s \<Rightarrow> 's) option"
  plugin_ipc_msg_handler :: "(msghdr \<Rightarrow> nat \<Rightarrow> 's \<Rightarrow> (bool \<times> 's) option) option"

record 's sTicosdPluginDef =
  plugin_name :: string
  plugin_init :: "'s \<Rightarrow> (bool \<times> 's) option"
  plugin_callbacks :: "'s sTicosdPluginCallbackFns"
  plugin_ipc_name :: string
  plugin_fns :: "'s sTicosdPluginCallbackFns option"

text \<open>\<open>plugin_callbacks\<close> is the table of functions that \<open>init\<close> stores through its argument.\<close>

fun ticosd_load_plugins :: "'s sTicosdPluginDef list \<Rightarrow> 's \<Rightarrow> ('s sTicosdPluginDef list \<times> 's) option" where
  "ticosd_load_plugins [] s = Some ([], s)"
| "ticosd_load_plugins (p # ps) s = do {
     (ok, s) \<leftarrow> plugin_init p s;
     (ps, s) \<leftarrow> ticosd_load_plugins ps s;
     Some (p\<lparr>plugin_fns := (if ok then Some (plugin_callbacks p) else None)\<rparr> # ps, s)
   }"

fun ticosd_destroy_plugins :: "'s sTicosdPluginDef list \<Rightarrow> 's \<Rightarrow> 's" where
  "ticosd_destroy_plugins [] s = s"
| "ticosd_destroy_plugins (p # ps) s =
     ticosd_destroy_plugins ps
       (case plugin_fns p of
          None \<Rightarrow> s
        | Some fns \<Rightarrow> (case plugin_destroy fns of None \<Rightarrow> s | Some destroy \<Rightarrow> destroy s))"

text \<open>The handler of a plugin, if it is loaded and processes messages.\<close>

definition ipc_handler :: "'s sTicosdPluginDef \<Rightarrow> (msghdr \<Rightarrow> nat \<Rightarrow> 's \<Rightarrow> (bool \<times> 's) option) option" where
  "ipc_handler p =
     (if plugin_ipc_name p = [] then None
      else case plugin_fns p of None \<Rightarrow> None | Some fns \<Rightarrow> plugin_ipc_msg_handler fns)"

fun ticosd_plugins_process_ipc ::
  "'s sTicosdPluginDef list \<Rightarrow> msghdr \<Rightarrow> nat \<Rightarrow> 's \<Rightarrow> (bool \<times> 's) option" where
  "ticosd_plugins_process_ipc [] msg received_size s = Some (False, s)"
| "ticosd_plugins_process_ipc (p # ps) msg received_size s =
     (case ipc_handler p of
        None \<Rightarrow> ticosd_plugins_process_ipc ps msg received_size s
      | Some handler \<Rightarrow>
          if received_size \<le> length (plugin_ipc_name p) then ticosd_plugins_process_ipc ps msg received_size s
          else do {
            match \<leftarrow> strcmp_eq (plugin_ipc_name p) (iov_base msg);
            if \<not> match then ticosd_plugins_process_ipc ps msg received_size s
            else do { (_, s) \<leftarrow> handler msg received_size s; Some (True, s) }
          })"

text \<open>
  What the dispatch should do: the name is compared with the bytes received, up to and including its terminating NUL, and the first
  plugin that has the name gets the message. No byte behind the received ones is looked at.
\<close>

definition named :: "msghdr \<Rightarrow> nat \<Rightarrow> 's sTicosdPluginDef \<Rightarrow> bool" where
  "named msg received_size p \<longleftrightarrow>
     ipc_handler p \<noteq> None \<and> length (plugin_ipc_name p) < received_size \<and>
     take (length (plugin_ipc_name p) + 1) (iov_base msg) = c_bytes (plugin_ipc_name p) @ [0]"

lemma strcmp_eq_take:
  "CHR 0x00 \<notin> set s \<Longrightarrow> length s < length bs \<Longrightarrow> strcmp_eq s bs = Some (take (length s + 1) bs = c_bytes s @ [0])"
proof (induction s bs rule: strcmp_eq.induct)
  case (3 c s b bs)
  then show ?case by (auto simp: c_bytes_def)
qed (auto simp: c_bytes_def)

lemma dispatch_eq:
  assumes "\<forall>p \<in> set ps. CHR 0x00 \<notin> set (plugin_ipc_name p) \<and> length (plugin_ipc_name p) < length (iov_base msg)"
  shows "ticosd_plugins_process_ipc ps msg n s =
    (case find (named msg n) ps of
       None \<Rightarrow> Some (False, s)
     | Some p \<Rightarrow> do { (_, s) \<leftarrow> the (ipc_handler p) msg n s; Some (True, s) })"
  using assms
proof (induction ps)
  case (Cons p ps)
  then show ?case
    using strcmp_eq_take [of "plugin_ipc_name p" "iov_base msg"]
    by (cases "ipc_handler p") (auto simp: named_def)
qed simp

section \<open>The contract\<close>

text \<open>
  What the handlers of a table do to the state, as a relation: then a message does it too. Handlers that keep an
  invariant are a case of it.
\<close>

locale plugin_effects =
  fixes plugins :: "'s sTicosdPluginDef list"
    and effect :: "'s \<Rightarrow> 's \<Rightarrow> bool"
  assumes handler_effect: "p \<in> set plugins \<Longrightarrow> ipc_handler p = Some handler \<Longrightarrow> handler msg n s = Some (ok, s') \<Longrightarrow> effect s s'"
    and effect_refl: "effect s s"
begin

lemma process_effect:
  assumes "ticosd_plugins_process_ipc ps msg n s = Some (ok, s')" and "set ps \<subseteq> set plugins"
  shows "effect s s'"
  using assms
proof (induction ps)
  case (Cons p ps)
  show ?case
  proof (cases "\<exists>handler ok'. ipc_handler p = Some handler \<and> handler msg n s = Some (ok', s')")
    case True
    with handler_effect [of p] Cons.prems show ?thesis by auto
  next
    case False
    with Cons show ?thesis by (auto split: option.splits if_splits bind_splits)
  qed
qed (simp add: effect_refl)

end

locale plugin_table =
  fixes plugins :: "'s sTicosdPluginDef list"
    and invar :: "'s \<Rightarrow> bool"
  assumes handler_keeps: "p \<in> set plugins \<Longrightarrow> ipc_handler p = Some handler \<Longrightarrow> invar s \<Longrightarrow>
      handler msg n s = Some (ok, s') \<Longrightarrow> invar s'"

sublocale plugin_table \<subseteq> kept: plugin_effects plugins "\<lambda>s s'. invar s \<longrightarrow> invar s'"
  using handler_keeps by unfold_locales blast+

section \<open>The receiving thread\<close>

definition RX_BUFFER_SIZE :: nat where "RX_BUFFER_SIZE = 1024"

text \<open>What \<^verbatim>\<open>recvmsg\<close> does: it fails, or it delivers a datagram, cut off at the size of the buffer.\<close>

datatype recv = Recv_Error | Received "byte list" "cmsg list"

text \<open>
  One turn of the loop on the receive buffer and the state. The result of \<^verbatim>\<open>recvmsg\<close> is stored in a \<^verbatim>\<open>size_t\<close>,
  so an error is the largest size, and the comparison with 0 does not see it; the control buffer of a failed call is all zero.
\<close>

fun received_message :: "recv \<Rightarrow> byte list \<Rightarrow> nat \<times> byte list \<times> cmsg list" where
  "received_message Recv_Error rx = (2 ^ 64 - 1, rx, [Other_Cmsg])"
| "received_message (Received m cs) rx =
     (let got = take RX_BUFFER_SIZE m in (length got, got @ drop (length got) rx, cs))"

definition ipc_turn ::
  "'s sTicosdPluginDef list \<Rightarrow> recv \<Rightarrow> byte list \<times> 's \<Rightarrow> (byte list \<times> 's) option" where
  "ipc_turn plugins r st =
     (let (received_size, rx, cs) = received_message r (fst st) in
      if received_size = 0 then Some (rx, snd st)
      else do {
        (_, s) \<leftarrow> ticosd_plugins_process_ipc plugins \<lparr>iov_base = rx, msg_control = cs\<rparr> received_size (snd st);
        Some (rx, s)
      })"

text \<open>The turns until the daemon terminates.\<close>

fun ipc_loop :: "'s sTicosdPluginDef list \<Rightarrow> recv list \<Rightarrow> byte list \<times> 's \<Rightarrow> (byte list \<times> 's) option" where
  "ipc_loop plugins [] st = Some st"
| "ipc_loop plugins (r # rs) st = do { st \<leftarrow> ipc_turn plugins r st; ipc_loop plugins rs st }"

record socket_env =
  socket_ok :: bool
  socket_unlink_ok :: bool
  bind_ok :: bool

definition prv_ipc_process_thread ::
  "socket_env \<Rightarrow> 's sTicosdPluginDef list \<Rightarrow> recv list \<Rightarrow> byte list \<times> 's \<Rightarrow> (byte list \<times> 's) option" where
  "prv_ipc_process_thread env plugins rs st =
     (if \<not> socket_ok env then Some st
      else if \<not> socket_unlink_ok env then Some st
      else if \<not> bind_ok env then Some st
      else ipc_loop plugins rs st)"

context plugin_effects
begin

lemma ipc_turn_effect: "ipc_turn ps r st = Some st' \<Longrightarrow> set ps \<subseteq> set plugins \<Longrightarrow> effect (snd st) (snd st')"
  using process_effect [of ps] effect_refl
  by (auto simp: ipc_turn_def Let_def split: prod.splits if_splits bind_splits)

end

context plugin_table
begin

lemma ipc_turn_keeps:
  "ipc_turn ps r st = Some st' \<Longrightarrow> set ps \<subseteq> set plugins \<Longrightarrow> invar (snd st) \<Longrightarrow> invar (snd st')"
  using kept.ipc_turn_effect [of ps] by blast

lemma ipc_loop_keeps:
  "ipc_loop ps rs st = Some st' \<Longrightarrow> set ps \<subseteq> set plugins \<Longrightarrow> invar (snd st) \<Longrightarrow> invar (snd st')"
  by (induction rs arbitrary: st) (auto split: bind_splits dest: ipc_turn_keeps)

lemma thread_keeps:
  "prv_ipc_process_thread env ps rs st = Some st' \<Longrightarrow> set ps \<subseteq> set plugins \<Longrightarrow> invar (snd st) \<Longrightarrow> invar (snd st')"
  by (auto simp: prv_ipc_process_thread_def dest: ipc_loop_keeps split: if_splits)

end

section \<open>The plugins of the daemon\<close>

record ('j, 'zs, 'c) daemon_env =
  de_json :: "'j json_c"
  de_alloc :: "nat \<Rightarrow> bool"
  de_coredump :: "'zs coredump_env"
  de_collectd :: collectd_env
  de_swupdate :: swupdate_env
  de_libconfig :: "'c libconfig"
  de_reboot :: reboot_env

record 'j daemon =
  dm_world :: "'j world"
  dm_coredump :: "coredump_plugin option"
  dm_collectd :: "collectd_plugin option"

definition attributes_plugin :: "('j, 'zs, 'c) daemon_env \<Rightarrow> 'j daemon sTicosdPluginDef" where
  "attributes_plugin env =
     \<lparr>plugin_name = ''attributes'', plugin_init = \<lambda>d. Some (ticosd_attributes_init (de_alloc env), d),
      plugin_callbacks =
        \<lparr>plugin_destroy = None,
         plugin_ipc_msg_handler = Some (\<lambda>msg n d. do {
           (ok, t) \<leftarrow> attributes_msg_handler (de_json env) (de_alloc env) msg n (w_ticosd (dm_world d));
           Some (ok, d\<lparr>dm_world := (dm_world d)\<lparr>w_ticosd := t\<rparr>\<rparr>)
         })\<rparr>,
      plugin_ipc_name = PLUGIN_ATTRIBUTES_IPC_NAME, plugin_fns = None\<rparr>"

text \<open>The reboot plugin works on the text of files and on the queue.\<close>

definition reboot_view :: "'j world \<Rightarrow> reboot_state" where
  "reboot_view w = \<lparr>files = text_files w, tx = td_queue (w_ticosd w)\<rparr>"

definition reboot_store :: "reboot_state \<Rightarrow> 'j world \<Rightarrow> 'j world" where
  "reboot_store st w =
     w\<lparr>w_files := (\<lambda>f. map_option c_bytes (files st f)), w_ticosd := (w_ticosd w)\<lparr>td_queue := tx st\<rparr>\<rparr>"

text \<open>What the plugin reads through the handle is the part of its environment that is not the system.\<close>

definition reboot_settings :: "('j, 'zs, 'c) daemon_env \<Rightarrow> 'j sTicosd \<Rightarrow> reboot_env" where
  "reboot_settings env t =
     (de_reboot env)
       \<lparr>rw_filename := ticosd_generate_rw_filename (de_json env) (de_alloc env) t, get_string := ticosd_get_string (de_json env) t,
        data_collection := ticosd_get_boolean (de_json env) t [] ''enable_data_collection'',
        hw_version := ds_hardware_version (td_settings t)\<rparr>"

definition reboot_plugin :: "('j, 'zs, 'c) daemon_env \<Rightarrow> 'j daemon sTicosdPluginDef" where
  "reboot_plugin env =
     \<lparr>plugin_name = ''reboot'',
      plugin_init = \<lambda>d. do {
        (ok, st) \<leftarrow> ticosd_reboot_init (reboot_settings env (w_ticosd (dm_world d))) (reboot_view (dm_world d));
        Some (ok, d\<lparr>dm_world := reboot_store st (dm_world d)\<rparr>)
      },
      plugin_callbacks =
        \<lparr>plugin_destroy = Some (\<lambda>d. d\<lparr>dm_world :=
           reboot_store (prv_reboot_destroy (reboot_settings env (w_ticosd (dm_world d))) (reboot_view (dm_world d))) (dm_world d)\<rparr>),
         plugin_ipc_msg_handler = None\<rparr>,
      plugin_ipc_name = [], plugin_fns = None\<rparr>"

definition swupdate_plugin :: "('j, 'zs, 'c) daemon_env \<Rightarrow> 'j daemon sTicosdPluginDef" where
  "swupdate_plugin env =
     \<lparr>plugin_name = ''swupdate'',
      plugin_init = \<lambda>d. do {
        (ok, w) \<leftarrow> ticosd_swupdate_init (de_json env) (de_libconfig env) (de_swupdate env) (dm_world d);
        Some (ok, d\<lparr>dm_world := w\<rparr>)
      },
      plugin_callbacks = \<lparr>plugin_destroy = Some id, plugin_ipc_msg_handler = None\<rparr>,
      plugin_ipc_name = [], plugin_fns = None\<rparr>"

text \<open>The handlers of the collectd and the coredump plugin read through their handle, which is there once they are loaded.\<close>

definition collectd_def :: "('j, 'zs, 'c) daemon_env \<Rightarrow> 'j daemon sTicosdPluginDef" where
  "collectd_def env =
     \<lparr>plugin_name = ''collectd'',
      plugin_init = \<lambda>d. do {
        (ok, h, w) \<leftarrow> ticosd_collectd_init (de_json env) (de_collectd env) (dm_world d);
        Some (ok, d\<lparr>dm_world := w, dm_collectd := h\<rparr>)
      },
      plugin_callbacks =
        \<lparr>plugin_destroy = Some (\<lambda>d. d\<lparr>dm_collectd := None\<rparr>),
         plugin_ipc_msg_handler = Some (\<lambda>msg n d.
           case dm_collectd d of
             None \<Rightarrow> None
           | Some h \<Rightarrow> (let (ok, w) = prv_request_metrics (de_collectd env) h (dm_world d) in Some (ok, d\<lparr>dm_world := w\<rparr>)))\<rparr>,
      plugin_ipc_name = PLUGIN_COLLECTD_IPC_NAME, plugin_fns = None\<rparr>"

definition coredump_def :: "('j, 'zs, 'c) daemon_env \<Rightarrow> 'j daemon sTicosdPluginDef" where
  "coredump_def env =
     \<lparr>plugin_name = ''coredump'',
      plugin_init = \<lambda>d. do {
        (h, w) \<leftarrow> ticosd_coredump_init (de_json env) (de_coredump env) (dm_world d);
        Some (h \<noteq> None, d\<lparr>dm_world := w, dm_coredump := h\<rparr>)
      },
      plugin_callbacks =
        \<lparr>plugin_destroy = Some (\<lambda>d. d\<lparr>dm_coredump := None\<rparr>),
         plugin_ipc_msg_handler = Some (\<lambda>msg n d.
           case dm_coredump d of
             None \<Rightarrow> None
           | Some h \<Rightarrow> do {
               (ok, h, w) \<leftarrow> prv_msg_handler (de_json env) (de_coredump env) h msg n (dm_world d);
               Some (ok, d\<lparr>dm_world := w, dm_coredump := Some h\<rparr>)
             })\<rparr>,
      plugin_ipc_name = ''CORE'', plugin_fns = None\<rparr>"

definition g_plugins :: "('j, 'zs, 'c) daemon_env \<Rightarrow> 'j daemon sTicosdPluginDef list" where
  "g_plugins env = [attributes_plugin env, reboot_plugin env, swupdate_plugin env, collectd_def env, coredump_def env]"

text \<open>The table with every plugin loaded.\<close>

definition loaded :: "'s sTicosdPluginDef \<Rightarrow> 's sTicosdPluginDef" where
  "loaded p = p\<lparr>plugin_fns := Some (plugin_callbacks p)\<rparr>"

definition all_loaded :: "('j, 'zs, 'c) daemon_env \<Rightarrow> 'j daemon sTicosdPluginDef list" where
  "all_loaded env = map loaded (g_plugins env)"

lemmas plugin_defs = attributes_plugin_def reboot_plugin_def swupdate_plugin_def collectd_def_def coredump_def_def
lemmas all_loaded_defs = all_loaded_def g_plugins_def loaded_def plugin_defs

section \<open>What messages leave alone\<close>

text \<open>A handler writes at most one entry into the queue, and none when data collection is off; it changes nothing else of the handle.\<close>

definition one_write :: "sTicosdQueue \<Rightarrow> sTicosdQueue \<Rightarrow> bool" where
  "one_write q q' \<longleftrightarrow> q' = q \<or> (\<exists>data sz ok. ticosd_queue_write q data sz = Some (ok, q'))"

abbreviation off :: "'j json_c \<Rightarrow> 'j sTicosd \<Rightarrow> bool" where
  "off J t \<equiv> ticosd_get_boolean J t [] ''enable_data_collection'' \<noteq> Some True"

definition writes_one :: "'j json_c \<Rightarrow> 'j sTicosd \<Rightarrow> 'j sTicosd \<Rightarrow> bool" where
  "writes_one J t t' \<longleftrightarrow> (\<exists>q. t' = t\<lparr>td_queue := q\<rparr> \<and> one_write (td_queue t) q) \<and> (off J t \<longrightarrow> t' = t)"

lemma writes_one_refl [simp]: "writes_one J t t"
  unfolding writes_one_def one_write_def by (auto intro: exI [of _ "td_queue t"])

lemma txdata_writes: "handle_txdata J t data n = Some (ok, t') \<Longrightarrow> writes_one J t t'"
  by (auto simp: handle_txdata_def ticosd_txdata_def writes_one_def one_write_def split: bind_splits if_splits)

lemma attributes_writes: "attributes_msg_handler J al msg n t = Some (ok, t') \<Longrightarrow> writes_one J t t'"
  by (auto simp: attributes_msg_handler_def dest!: txdata_writes split: bind_splits option.splits if_splits)
    (auto simp: writes_one_def one_write_def)

lemma cleanup_ticosd: "w_ticosd (core_cleanup env ok fd f w) = w_ticosd w" by (rule cleanup_fields)

lemma store_writes:
  assumes "store_corefile J env h fd pid w = Some (ok, f, w')"
  shows "writes_one J (w_ticosd w) (w_ticosd w')"
proof -
  have tr: "w_ticosd w2 = w_ticosd w"
    if "prv_transform_coredump_from_fd_to_file J env h p fd pid limit w = Some (b, w2)" for p limit b w2
    using transform_world [OF that] by auto
  show ?thesis
    using assms tr
    by (auto simp: store_corefile_def Let_def unlink_file_def dest!: txdata_writes split: if_splits option.splits bind_splits prod.splits)
qed

lemma coredump_writes:
  assumes "prv_msg_handler J env h msg n w = Some (ok, h', w')"
  shows "writes_one J (w_ticosd w) (w_ticosd w')"
proof -
  have hist: "w_ticosd (save_history rl hist w) = w_ticosd w" for rl hist by (auto simp: save_history_def split: option.splits)
  have proc: "writes_one J (w_ticosd w) (w_ticosd w2)"
    if "process_corefile J env h fd pid w = Some (b, f, h2, w2)" for fd pid b f h2 w2
    using that hist by (auto simp: process_corefile_def Let_def dest!: store_writes split: if_splits bind_splits)
  show ?thesis
    using assms proc
    by (auto simp: prv_msg_handler_def Let_def cleanup_ticosd split: if_splits bind_splits option.splits)
qed

lemma metrics_keeps: "w_ticosd (snd (prv_request_metrics env h w)) = w_ticosd w"
proof -
  have "w_ticosd (snd (ticosd_kill_service S u sig v)) = w_ticosd v" for S u sig and v :: "'a world"
    by (auto simp: ticosd_kill_service_def prv_systemd_kill_service_def)
  then show ?thesis
    using restart_files(2) [of "co_systemd env" COLLECTD_SERVICE w]
    by (auto simp: prv_request_metrics_def split: prod.splits)
qed

text \<open>The plugins that process messages.\<close>

lemma message_plugins:
  assumes "p \<in> set (all_loaded env @ g_plugins env)" and "ipc_handler p = Some handler"
  shows "p = loaded (attributes_plugin env) \<or> p = loaded (collectd_def env) \<or> p = loaded (coredump_def env)"
proof -
  have "ipc_handler p' = None" if "p' \<in> set (g_plugins env)" for p'
    using that by (auto simp: g_plugins_def plugin_defs ipc_handler_def)
  with assms have "p \<in> set (all_loaded env)" by auto
  moreover have "ipc_handler (loaded (reboot_plugin env)) = None" "ipc_handler (loaded (swupdate_plugin env)) = None"
    by (simp_all add: ipc_handler_def loaded_def plugin_defs)
  ultimately show ?thesis using assms(2) unfolding all_loaded_def g_plugins_def by fastforce
qed

text \<open>The handles of the plugins that were there are still there.\<close>

definition message_effect :: "'j json_c \<Rightarrow> 'j daemon \<Rightarrow> 'j daemon \<Rightarrow> bool" where
  "message_effect J d d' \<longleftrightarrow>
     writes_one J (w_ticosd (dm_world d)) (w_ticosd (dm_world d')) \<and>
     (dm_coredump d \<noteq> None \<longrightarrow> dm_coredump d' \<noteq> None) \<and> (dm_collectd d \<noteq> None \<longrightarrow> dm_collectd d' \<noteq> None)"

interpretation daemon_effects: plugin_effects "all_loaded env @ g_plugins env" "message_effect (de_json env)" for env
proof
  fix p handler msg n ok and d d' :: "'a daemon"
  assume p: "p \<in> set (all_loaded env @ g_plugins env)" and h: "ipc_handler p = Some handler" and run: "handler msg n d = Some (ok, d')"
  from message_plugins [OF p h] consider "p = loaded (attributes_plugin env)" | "p = loaded (collectd_def env)" |
    "p = loaded (coredump_def env)" by blast
  then show "message_effect (de_json env) d d'"
  proof cases
    case 1
    with h run show ?thesis
      by (auto simp: message_effect_def loaded_def plugin_defs ipc_handler_def PLUGIN_ATTRIBUTES_IPC_NAME_def
          dest!: attributes_writes split: bind_splits)
  next
    case 2
    with h run obtain m where "dm_collectd d = Some m" "d' = d\<lparr>dm_world := snd (prv_request_metrics (de_collectd env) m (dm_world d))\<rparr>"
      by (auto simp: loaded_def plugin_defs ipc_handler_def PLUGIN_COLLECTD_IPC_NAME_def split: option.splits prod.splits)
    with metrics_keeps [of "de_collectd env" m "dm_world d"] show ?thesis by (simp add: message_effect_def)
  next
    case 3
    with h run show ?thesis
      by (auto simp: message_effect_def loaded_def plugin_defs ipc_handler_def dest!: coredump_writes split: bind_splits option.splits)
  qed
qed (simp add: message_effect_def)

definition steady :: "'j json_c \<Rightarrow> 'j daemon \<Rightarrow> 'j daemon \<Rightarrow> bool" where
  "steady J d0 d \<longleftrightarrow>
     (\<exists>q. w_ticosd (dm_world d) = (w_ticosd (dm_world d0))\<lparr>td_queue := q\<rparr>) \<and>
     (off J (w_ticosd (dm_world d0)) \<longrightarrow> w_ticosd (dm_world d) = w_ticosd (dm_world d0)) \<and>
     (dm_coredump d0 \<noteq> None \<longrightarrow> dm_coredump d \<noteq> None) \<and> (dm_collectd d0 \<noteq> None \<longrightarrow> dm_collectd d \<noteq> None)"

lemma steady_effect:
  assumes "steady J d0 d" and "message_effect J d d'"
  shows "steady J d0 d'"
proof -
  from assms obtain q q' where "w_ticosd (dm_world d) = (w_ticosd (dm_world d0))\<lparr>td_queue := q\<rparr>"
    "w_ticosd (dm_world d') = (w_ticosd (dm_world d))\<lparr>td_queue := q'\<rparr>"
    unfolding steady_def message_effect_def writes_one_def by blast
  then have "\<exists>q. w_ticosd (dm_world d') = (w_ticosd (dm_world d0))\<lparr>td_queue := q\<rparr>" by (intro exI [of _ q']) simp
  with assms show ?thesis unfolding steady_def message_effect_def writes_one_def by metis
qed

lemma steady_refl: "steady J d d"
  unfolding steady_def by (auto intro: exI [of _ "td_queue (w_ticosd (dm_world d))"])

interpretation daemon_plugins: plugin_table "all_loaded env @ g_plugins env" "steady (de_json env) d0" for env d0
  by unfold_locales (blast intro: steady_effect daemon_effects.handler_effect)

lemma load_table: "ticosd_load_plugins ps s = Some (ps', s') \<Longrightarrow> set ps' \<subseteq> set (map loaded ps) \<union> (\<lambda>p. p\<lparr>plugin_fns := None\<rparr>) ` set ps"
  by (induction ps arbitrary: ps' s) (fastforce simp: loaded_def split: bind_splits)+

lemma loaded_table:
  assumes "ticosd_load_plugins (g_plugins env) d = Some (ps, d')"
  shows "set ps \<subseteq> set (all_loaded env @ g_plugins env)"
proof -
  have "(\<lambda>p. p\<lparr>plugin_fns := None\<rparr>) ` set (g_plugins env) = set (g_plugins env)" by (simp add: g_plugins_def plugin_defs)
  with load_table [OF assms] show ?thesis by (simp add: all_loaded_def)
qed

text \<open>
  C27. Messages change nothing but what they are for. Whatever sequence of messages and failures the receiving thread meets, with
  whichever plugins were loaded at the start, the configuration, the device settings and the mode of the daemon stay as they were
  (only the transmit queue of the handle may change), and the handles that the handlers of the plugins read through stay in place.
\<close>

theorem messages_keep_configuration:
  assumes "ticosd_load_plugins (g_plugins env) d0 = Some (ps, d)" and "prv_ipc_process_thread senv ps rs (rx, d) = Some (rx', d')"
  shows "\<exists>q. w_ticosd (dm_world d') = (w_ticosd (dm_world d))\<lparr>td_queue := q\<rparr> \<and>
    (dm_coredump d \<noteq> None \<longrightarrow> dm_coredump d' \<noteq> None) \<and> (dm_collectd d \<noteq> None \<longrightarrow> dm_collectd d' \<noteq> None)"
proof -
  have "steady (de_json env) d (snd (rx, d))" by (simp add: steady_refl)
  from daemon_plugins.thread_keeps [OF assms(2) loaded_table [OF assms(1)] this] show ?thesis by (auto simp: steady_def)
qed

section \<open>Attributes from the command line to the server\<close>

lemma attributes_first: "ipc_handler (loaded (attributes_plugin env)) = Some (\<lambda>msg n d. do {
    (ok, t) \<leftarrow> attributes_msg_handler (de_json env) (de_alloc env) msg n (w_ticosd (dm_world d));
    Some (ok, d\<lparr>dm_world := (dm_world d)\<lparr>w_ticosd := t\<rparr>\<rparr>)
  })"
  by (simp add: ipc_handler_def loaded_def attributes_plugin_def PLUGIN_ATTRIBUTES_IPC_NAME_def)

lemma attributes_dispatched:
  assumes "take 11 (iov_base msg) = c_bytes PLUGIN_ATTRIBUTES_IPC_NAME @ [0]" and "10 < n"
  shows "ticosd_plugins_process_ipc (loaded (attributes_plugin env) # ps) msg n d = do {
    (ok, t) \<leftarrow> attributes_msg_handler (de_json env) (de_alloc env) msg n (w_ticosd (dm_world d));
    Some (True, d\<lparr>dm_world := (dm_world d)\<lparr>w_ticosd := t\<rparr>\<rparr>)
  }"
proof -
  have name: "plugin_ipc_name (loaded (attributes_plugin env)) = ''ATTRIBUTES''"
    by (simp add: loaded_def attributes_plugin_def PLUGIN_ATTRIBUTES_IPC_NAME_def)
  have "length (take 11 (iov_base msg)) = 11" unfolding assms(1) by (simp add: PLUGIN_ATTRIBUTES_IPC_NAME_def)
  then have "length ''ATTRIBUTES'' < length (iov_base msg)" by simp
  moreover have "length ''ATTRIBUTES'' + 1 = 11" by simp
  ultimately have m: "strcmp_eq ''ATTRIBUTES'' (iov_base msg) = Some True"
    using strcmp_eq_take [of "''ATTRIBUTES''" "iov_base msg"] assms(1) by (simp only: PLUGIN_ATTRIBUTES_IPC_NAME_def) simp
  show ?thesis unfolding ticosd_plugins_process_ipc.simps attributes_first name option.case m
    using assms(2) by (cases "attributes_msg_handler (de_json env) (de_alloc env) msg n (w_ticosd (dm_world d))") auto
qed

lemma attributes_name: "take 11 (attributes_message padding ts body @ left) = c_bytes PLUGIN_ATTRIBUTES_IPC_NAME @ [0]"
  by (simp add: attributes_message_def PLUGIN_ATTRIBUTES_IPC_NAME_def)

text \<open>The turn of the receiving thread for a message with attributes that fits into the buffer.\<close>

lemma attributes_turn:
  assumes "length padding = 5" and "CHR 0x00 \<notin> set body" and "\<forall>n. de_alloc env n"
    and "ticosd_get_boolean (de_json env) (w_ticosd (dm_world d)) [] ''enable_data_collection'' = Some True"
    and "rep (td_queue (w_ticosd (dm_world d))) xs"
    and "room (td_queue (w_ticosd (dm_world d))) (attributes_entry ts body)" and "25 + length body \<le> RX_BUFFER_SIZE"
    and "m = attributes_message padding ts body"
    and "r = Received m cs \<or> r = Recv_Error \<and> (\<exists>left. rx = m @ left)"
  shows "\<exists>rx' d' left. ipc_turn (loaded (attributes_plugin env) # ps) r (rx, d) = Some (rx', d') \<and> rx' = m @ left \<and>
    (\<exists>q. w_ticosd (dm_world d') = (w_ticosd (dm_world d))\<lparr>td_queue := q\<rparr> \<and> rep q (xs @ [attributes_entry ts body]) \<and>
      queue_put (td_queue (w_ticosd (dm_world d))) (attributes_entry ts body) = Some (True, q))"
proof -
  have len: "length m = 25 + length body" unfolding assms(8) by (rule attributes_message_parts(1) [OF assms(1)])
  from assms(9) obtain n left cs' where r: "received_message r rx = (n, m @ left, cs')" "10 < n"
    using len assms(7) by (elim disjE conjE exE) (auto simp: Let_def)
  define msg where "msg = \<lparr>iov_base = m @ left, msg_control = cs'\<rparr>"
  have b: "iov_base msg = attributes_message padding ts body @ left" by (simp add: msg_def assms(8))
  have "length body < 2 ^ 30" using assms(7) by (simp add: RX_BUFFER_SIZE_def)
  from attributes_queued [OF assms(1-3) this assms(4-6) b] obtain q where
    q: "attributes_msg_handler (de_json env) (de_alloc env) msg n (w_ticosd (dm_world d)) =
      Some (True, (w_ticosd (dm_world d))\<lparr>td_queue := q\<rparr>)" "rep q (xs @ [attributes_entry ts body])"
    "queue_put (td_queue (w_ticosd (dm_world d))) (attributes_entry ts body) = Some (True, q)" by blast
  have "take 11 (iov_base msg) = c_bytes PLUGIN_ATTRIBUTES_IPC_NAME @ [0]" unfolding b by (rule attributes_name)
  from attributes_dispatched [OF this r(2), of env ps d] q r show ?thesis
    by (auto simp: ipc_turn_def msg_def)
qed

lemma all_loaded_Cons:
  "all_loaded env = loaded (attributes_plugin env) #
     map loaded [reboot_plugin env, swupdate_plugin env, collectd_def env, coredump_def env]"
  by (simp add: all_loaded_def g_plugins_def)

lemma iso_second: "iso_timestamp 1 = Some ''1970-01-01T00:00:01Z''" by code_simp

lemma attributes_posted:
  assumes "CHR 0x00 \<notin> set body"
  shows "send_entry nenv (attributes_entry 1 body) nst =
    (case ticos_asprintf nenv (''/api/v0/attributes?device_serial='' @ device_id nenv @ ''&captured_date=1970-01-01T00:00:01Z'') of
       None \<Rightarrow> Some (kTicosdNetworkResult_ErrorRetryLater, nst)
     | Some path \<Rightarrow>
         (let ((rc, _), nst) = ticosd_network_post nenv path kTicosdHttpMethod_PATCH (Some body) False nst in Some (rc, nst)))"
proof -
  let ?data = "nat_le 8 1 @ c_bytes body @ [0]"
  have "mem_read ?data 0 8 = Some (nat_le 8 1)" by (simp add: mem_read_def)
  moreover have "sint (word_of_nat (le_nat (nat_le 8 1)) :: u64) = 1" by (simp add: le_nat_nat_le)
  moreover have "entry_str (drop 8 ?data) = Some body" using entry_str_c_bytes [OF assms, of "[]"] by simp
  ultimately show ?thesis
    unfolding send_entry_def attributes_entry_def
    by (simp add: iso_second post_entry_def split: option.splits)
qed

text \<open>
  C26. Attributes reach the server. When \<^verbatim>\<open>ticosctl write-attributes\<close> reports success and the message fits into the receive buffer,
  the receiving thread puts one entry with exactly the JSON text of the attributes at the end of the transmit queue, and sending this
  entry is a PATCH request whose body is that text. Its capture date is always one second after the epoch, since the tool stores the result of a
  comparison instead of the time.
\<close>

theorem attributes_reach_server:
  assumes "prv_cmd_write_attributes cenv h st = Some (0, st')" and "length (ct_padding cenv) = 5"
    and "ticosd_parse_attributes (ct_json cenv) (ct_array cenv) (ct_alloc cenv) (ctl_extra_args h) = Some (Some object)"
    and "body = json_object_to_json_string (ct_json cenv) object" and "CHR 0x00 \<notin> set body"
    and "25 + length body \<le> RX_BUFFER_SIZE" and "\<forall>n. de_alloc env n"
    and "ticosd_get_boolean (de_json env) (w_ticosd (dm_world d)) [] ''enable_data_collection'' = Some True"
    and "rep (td_queue (w_ticosd (dm_world d))) xs"
    and "room (td_queue (w_ticosd (dm_world d))) (attributes_entry 1 body)"
  shows "\<exists>rx' d'. ipc_turn (all_loaded env) (Received (last (cs_sent st')) []) (rx, d) = Some (rx', d') \<and>
    rep (td_queue (w_ticosd (dm_world d'))) (xs @ [attributes_entry 1 body]) \<and>
    (\<forall>nenv nst. send_entry nenv (attributes_entry 1 body) nst =
      (case ticos_asprintf nenv (''/api/v0/attributes?device_serial='' @ device_id nenv @ ''&captured_date=1970-01-01T00:00:01Z'') of
         None \<Rightarrow> Some (kTicosdNetworkResult_ErrorRetryLater, nst)
       | Some path \<Rightarrow>
           (let ((rc, _), nst) = ticosd_network_post nenv path kTicosdHttpMethod_PATCH (Some body) False nst in Some (rc, nst))))"
proof -
  from write_attributes_sends [OF assms(1)] assms(3,4)
  have "last (cs_sent st') = attributes_message (ct_padding cenv) 1 body" by auto
  with attributes_turn [OF assms(2,5,7-10,6) refl, of "Received (last (cs_sent st')) []"]
  show ?thesis using attributes_posted [OF assms(5)] by (fastforce simp: all_loaded_Cons)
qed

text \<open>
  C35. Attributes that are too long. When the message does not fit into the receive buffer, the tool still reports success, but the message
  arrives cut off, without its terminating NUL, and the plugin reads beyond the end of the buffer.
\<close>

theorem long_attributes_overrun:
  assumes "prv_cmd_write_attributes cenv h st = Some (0, st')" and "length (ct_padding cenv) = 5"
    and "ticosd_parse_attributes (ct_json cenv) (ct_array cenv) (ct_alloc cenv) (ctl_extra_args h) = Some (Some object)"
    and "body = json_object_to_json_string (ct_json cenv) object" and "CHR 0x00 \<notin> set body"
    and "RX_BUFFER_SIZE < 25 + length body" and "length rx = RX_BUFFER_SIZE"
  shows "ipc_turn (all_loaded env) (Received (last (cs_sent st')) []) (rx, d) = None"
proof -
  let ?m = "attributes_message (ct_padding cenv) 1 body"
  from write_attributes_sends [OF assms(1)] assms(3,4) have last: "last (cs_sent st') = ?m" by auto
  have len: "length ?m = 25 + length body" by (rule attributes_message_parts(1) [OF assms(2)])
  have r: "received_message (Received ?m []) rx = (RX_BUFFER_SIZE, take RX_BUFFER_SIZE ?m, [])"
    using len assms(6,7) by (simp add: Let_def)
  define msg where "msg = \<lparr>iov_base = take RX_BUFFER_SIZE ?m, msg_control = []\<rparr>"
  have "drop 24 (take RX_BUFFER_SIZE ?m) = take 1000 (drop 24 ?m)" by (simp add: drop_take RX_BUFFER_SIZE_def)
  also have "\<dots> = take 1000 (c_bytes body)"
    using assms(6) by (simp add: attributes_message_parts(2) [OF assms(2)] RX_BUFFER_SIZE_def)
  finally have "0 \<notin> set (drop sizeof_sTicosAttributesIPC (iov_base msg))"
    using c_bytes_no_nul [OF assms(5)] by (auto simp: msg_def sizeof_sTicosAttributesIPC_def dest: in_set_takeD)
  then have "attributes_msg_handler (de_json env) (de_alloc env) msg RX_BUFFER_SIZE (w_ticosd (dm_world d)) = None"
    by (simp add: attributes_msg_handler_def attributes_build_queue_entry_def Let_def)
  moreover have "take 11 (iov_base msg) = c_bytes PLUGIN_ATTRIBUTES_IPC_NAME @ [0]"
    using attributes_name [of "ct_padding cenv" 1 body "[]"] by (simp add: msg_def RX_BUFFER_SIZE_def)
  ultimately show ?thesis
    using attributes_dispatched [of msg RX_BUFFER_SIZE env] r
    by (simp add: ipc_turn_def last msg_def all_loaded_Cons RX_BUFFER_SIZE_def)
qed

text \<open>
  C36. A failed receive repeats the last message. When \<^verbatim>\<open>recvmsg\<close> reports an error while the attributes of an earlier message are still in the
  buffer, the error passes for a message of the largest size and the same attributes are put into the queue once more.
\<close>

theorem failed_receive_repeats:
  assumes "length padding = 5" and "CHR 0x00 \<notin> set body" and "\<forall>n. de_alloc env n"
    and "ticosd_get_boolean (de_json env) (w_ticosd (dm_world d)) [] ''enable_data_collection'' = Some True"
    and "rep (td_queue (w_ticosd (dm_world d))) xs"
    and "room (td_queue (w_ticosd (dm_world d))) (attributes_entry ts body)" and "25 + length body \<le> RX_BUFFER_SIZE"
    and "rx = attributes_message padding ts body @ left"
  shows "\<exists>rx' d'. ipc_turn (all_loaded env) Recv_Error (rx, d) = Some (rx', d') \<and>
    rep (td_queue (w_ticosd (dm_world d'))) (xs @ [attributes_entry ts body])"
  using attributes_turn [OF assms(1-7) refl, of Recv_Error] assms(8) by (fastforce simp: all_loaded_Cons)

section \<open>A device\<close>

definition device_env :: "(jtree, byte list, settings_list) daemon_env" where
  "device_env =
     \<lparr>de_json = tree_json, de_alloc = \<lambda>_. True, de_coredump = capture_env, de_collectd = metrics_env, de_swupdate = update_env,
      de_libconfig = list_config, de_reboot = sample_reboot_env\<rparr>"

definition device :: "jtree daemon" where
  "device =
     \<lparr>dm_world = capture_world capture_queue, dm_coredump = Some (capture_plugin False), dm_collectd = Some metrics_plugin\<rparr>"

definition write_handle :: "string \<Rightarrow> jtree sTicosCtl" where
  "write_handle v = shell_handle\<lparr>ctl_extra_args := [''name='' @ v]\<rparr>"

definition written_attributes :: "string \<Rightarrow> jtree" where
  "written_attributes v =
     (let pair = JObj (FCons ''string_key'' (JStr ''name'') (FCons ''value'' (JStr v) FNil)) in JObj (FCons (print_tree pair) pair FNil))"

lemma device_facts:
  "ticosd_get_boolean (de_json device_env) (w_ticosd (dm_world device)) [] ''enable_data_collection'' = Some True"
  "rep (td_queue (w_ticosd (dm_world device))) []" "\<forall>n. de_alloc device_env n"
  "x \<noteq> [] \<Longrightarrow> length x \<le> 200 \<Longrightarrow> room (td_queue (w_ticosd (dm_world device))) x"
  using capture_settings(2) capture_queue_facts by (simp_all add: device_env_def device_def capture_world_def)

lemma attributes_parsed:
  assumes "json_tokener_parse tree_json v = None" and "CHR ''='' \<notin> set v"
  shows "ticosd_parse_attributes (ct_json shell_env) (ct_array shell_env) (ct_alloc shell_env) (ctl_extra_args (write_handle v)) =
    Some (Some (written_attributes v))"
  using assms
  by (simp add: ticosd_parse_attributes_def write_handle_def split_attribute_def prv_parse_attribute_value_def shell_env_def
      written_attributes_def tree_json_def list_array_def Let_def)

definition starting :: "sTicosdQueue \<Rightarrow> jtree daemon" where
  "starting q =
     \<lparr>dm_world = (capture_world q)\<lparr>w_files := [''/d/last_tracked_boot_id'' \<mapsto> c_bytes ''230f89b6-0eb3-4bb3-8b2c-9a1d2f3e4c5d'']\<rparr>,
      dm_coredump = None, dm_collectd = None\<rparr>"

abbreviation open_socket :: socket_env where
  "open_socket \<equiv> \<lparr>socket_ok = True, socket_unlink_ok = True, bind_ok = True\<rparr>"

lemma device_loads: "ticosd_load_plugins (g_plugins device_env) (starting q) \<noteq> None"
  by code_simp

lemma unknown_ignored:
  assumes "set ps \<subseteq> set (all_loaded env @ g_plugins env)" and "10 \<le> length rx"
  shows "ticosd_plugins_process_ipc ps \<lparr>iov_base = 1 # rx, msg_control = cs\<rparr> n s = Some (False, s)"
proof -
  let ?msg = "\<lparr>iov_base = 1 # rx, msg_control = cs\<rparr>"
  have names: "plugin_ipc_name p \<in> {''ATTRIBUTES'', [], ''COLLECTD'', ''CORE''}" if "p \<in> set ps" for p
    using that assms(1) by (auto simp: all_loaded_defs PLUGIN_ATTRIBUTES_IPC_NAME_def PLUGIN_COLLECTD_IPC_NAME_def)
  have "\<not> named ?msg n p" if "p \<in> set ps" for p
    using names [OF that] by (auto simp: named_def ipc_handler_def c_bytes_def)
  then have none: "find (named ?msg n) ps = None" by (simp add: find_None_iff)
  have "\<forall>p \<in> set ps. CHR 0x00 \<notin> set (plugin_ipc_name p) \<and> length (plugin_ipc_name p) < length (iov_base ?msg)"
    using names assms(2) by fastforce
  with dispatch_eq [of ps ?msg n s] none show ?thesis by simp
qed

theorem messages_keep_configuration_witness:
  "\<exists>ps d rx' d' q. ticosd_load_plugins (g_plugins device_env) (starting capture_queue) = Some (ps, d) \<and>
    prv_ipc_process_thread open_socket ps [Received [1] [], Recv_Error] (replicate RX_BUFFER_SIZE 0, d) = Some (rx', d') \<and>
    w_ticosd (dm_world d') = (w_ticosd (dm_world d))\<lparr>td_queue := q\<rparr>"
proof -
  obtain ps d where l: "ticosd_load_plugins (g_plugins device_env) (starting capture_queue) = Some (ps, d)"
    using device_loads [of capture_queue] by fastforce
  define rx :: "byte list" where "rx = replicate 1023 0"
  have "length rx = 1023" by (simp add: rx_def)
  then have ig: "ticosd_plugins_process_ipc ps \<lparr>iov_base = 1 # rx, msg_control = cs\<rparr> n s = Some (False, s)" for cs n s
    using unknown_ignored [OF loaded_table [OF l]] by simp
  have "replicate RX_BUFFER_SIZE 0 = 0 # rx" unfolding rx_def replicate_Suc [symmetric] by (simp add: RX_BUFFER_SIZE_def)
  then have "prv_ipc_process_thread open_socket ps [Received [1] [], Recv_Error] (replicate RX_BUFFER_SIZE 0, d) = Some (1 # rx, d)"
    using ig by (simp add: prv_ipc_process_thread_def ipc_turn_def Let_def) (simp add: RX_BUFFER_SIZE_def)
  from messages_keep_configuration [OF l this] this l show ?thesis by blast
qed

abbreviation attributes_text :: "string \<Rightarrow> string" where
  "attributes_text v \<equiv> json_object_to_json_string tree_json (written_attributes v)"

lemma length_esc [simp]: "length (esc s) = 2 * length s + 1" by (induction s) simp_all
lemma set_esc: "set (esc s) \<subseteq> {CHR ''.'', CHR ''x''} \<union> set s" by (induction s) auto

lemma attributes_text:
  "length (attributes_text v) = 6 * length v + 148"
  "CHR 0x00 \<notin> set v \<Longrightarrow> CHR 0x00 \<notin> set (attributes_text v)"
  using set_esc by (auto simp: written_attributes_def tree_json_def Let_def dest!: set_mp [OF set_esc])

lemma write_succeeds:
  assumes "json_tokener_parse tree_json v = None" and "CHR ''='' \<notin> set v" and "length v \<le> 1000"
  shows "\<exists>st'. prv_cmd_write_attributes shell_env (write_handle v) shell_state = Some (0, st')"
proof -
  have "length (attributes_message [0, 0, 0, 0, 0] (Suc 0) (attributes_text v)) = 173 + 6 * length v"
    by (simp add: attributes_message_parts(1) attributes_text(1))
  then show ?thesis
    using attributes_parsed [OF assms(1,2)] assms(3)
    by (simp add: prv_cmd_write_attributes_def shell_env_def send_message_def write_handle_def shell_handle_def Let_def
        ticosd_ipc_sendmsg_def)
qed

lemma writer_env: "length (ct_padding shell_env) = 5" "ct_json shell_env = tree_json" by (simp_all add: shell_env_def)

lemma entry_length: "length (attributes_entry ts body) = 10 + length body" "attributes_entry ts body \<noteq> []"
  by (simp_all add: attributes_entry_def)

theorem attributes_reach_server_witness:
  "\<exists>st' rx' d'. prv_cmd_write_attributes shell_env (write_handle ''x'') shell_state = Some (0, st') \<and>
    ipc_turn (all_loaded device_env) (Received (last (cs_sent st')) []) ([], device) = Some (rx', d') \<and>
    rep (td_queue (w_ticosd (dm_world d'))) [attributes_entry 1 (attributes_text ''x'')]"
proof -
  have v: "json_tokener_parse tree_json ''x'' = None" "CHR ''='' \<notin> set ''x''" by code_simp+
  have short: "length ''x'' \<le> 1000" by simp
  from write_succeeds [OF v short] obtain st' where st': "prv_cmd_write_attributes shell_env (write_handle ''x'') shell_state = Some (0, st')" ..
  have nul: "CHR 0x00 \<notin> set (attributes_text ''x'')" by (rule attributes_text(2)) simp
  have fits: "25 + length (attributes_text ''x'') \<le> RX_BUFFER_SIZE" by (simp add: attributes_text(1) RX_BUFFER_SIZE_def)
  have "room (td_queue (w_ticosd (dm_world device))) (attributes_entry 1 (attributes_text ''x''))"
    by (rule device_facts(4)) (simp_all add: entry_length attributes_text(1))
  from attributes_reach_server [OF st' writer_env(1) attributes_parsed [OF v] refl, unfolded writer_env(2), OF nul fits
      device_facts(3,1,2) this] st' show ?thesis unfolding append_Nil by blast
qed

theorem long_attributes_overrun_witness:
  "\<exists>st'. prv_cmd_write_attributes shell_env (write_handle (replicate 1000 CHR ''x'')) shell_state = Some (0, st') \<and>
    ipc_turn (all_loaded device_env) (Received (last (cs_sent st')) []) (replicate RX_BUFFER_SIZE 0, device) = None"
proof -
  let ?v = "replicate 1000 CHR ''x''"
  have "?v = CHR ''x'' # replicate 999 CHR ''x''" unfolding replicate_Suc [symmetric] by simp
  then have v: "json_tokener_parse tree_json ?v = None" by (simp add: tree_json_def parse_tree_def)
  have eq: "CHR ''='' \<notin> set ?v" by simp
  have short: "length ?v \<le> 1000" by simp
  from write_succeeds [OF v eq short] obtain st' where st': "prv_cmd_write_attributes shell_env (write_handle ?v) shell_state = Some (0, st')" ..
  have nul: "CHR 0x00 \<notin> set (attributes_text ?v)" by (rule attributes_text(2)) simp
  have long: "RX_BUFFER_SIZE < 25 + length (attributes_text ?v)" by (simp add: attributes_text(1) RX_BUFFER_SIZE_def)
  have "length (replicate RX_BUFFER_SIZE (0 :: byte)) = RX_BUFFER_SIZE" by simp
  from long_attributes_overrun [OF st' writer_env(1) attributes_parsed [OF v eq] refl, unfolded writer_env(2), OF nul long this] st'
  show ?thesis by blast
qed

theorem failed_receive_repeats_witness:
  "\<exists>rx' d'. ipc_turn (all_loaded device_env) Recv_Error (attributes_message [0, 0, 0, 0, 0] 1 ''{}'' @ [7], device) = Some (rx', d') \<and>
    rep (td_queue (w_ticosd (dm_world d'))) [attributes_entry 1 ''{}'']"
proof -
  have "room (td_queue (w_ticosd (dm_world device))) (attributes_entry 1 ''{}'')"
    by (rule device_facts(4)) (simp_all add: entry_length)
  then show ?thesis
    using failed_receive_repeats [of "[0, 0, 0, 0, 0]" "''{}''" device_env device "[]" 1 _ "[7]"] device_facts(1-3)
    by (simp add: RX_BUFFER_SIZE_def)
qed

end
