(* ===== verification/Interleaving.thy ===== *)
theory Interleaving
  imports Ticosd
begin

text \<open>
  The two threads of the daemon around the transmit queue. The operations of the queue hold its mutex, so they happen one at a
  time, but the receiving thread may write between any two operations of the main thread: after the head was
  read and while it is being sent. The threads are a step relation over the operations of a queue; its executions are those in
  which writes find room. The loop \<open>tx_loop\<close> is the main thread running alone.
\<close>

section \<open>Steps\<close>

text \<open>Where the main thread is: about to read the head, with an entry to send, with an entry sent, or done until it wakes up.\<close>

datatype 'm phase = Scanning | Sending 'm | Settled 'm | Finished bool

text \<open>\<open>lk_accepted\<close> and \<open>lk_completed\<close> record the entries written and the entries removed after they were sent.\<close>

record ('q, 'm, 'n) link =
  lk_queue :: 'q
  lk_phase :: "'m phase"
  lk_net :: 'n
  lk_accepted :: "'m list"
  lk_completed :: "'m list"

inductive link_step ::
  "('q \<Rightarrow> ('m option \<times> 'q) option) \<Rightarrow> ('q \<Rightarrow> (bool \<times> 'q) option) \<Rightarrow> ('q \<Rightarrow> 'm \<Rightarrow> (bool \<times> 'q) option) \<Rightarrow> ('q \<Rightarrow> 'm \<Rightarrow> bool) \<Rightarrow>
   ('m \<Rightarrow> 'n \<Rightarrow> (eTicosdNetworkResult \<times> 'n) option) \<Rightarrow> ('q, 'm, 'n) link \<Rightarrow> ('q, 'm, 'n) link \<Rightarrow> bool"
  for rd cp put fits send where
  Write: "fits (lk_queue s) x \<Longrightarrow> put (lk_queue s) x = Some (b, q) \<Longrightarrow>
    link_step rd cp put fits send s (s\<lparr>lk_queue := q, lk_accepted := lk_accepted s @ [x]\<rparr>)"
| Read: "lk_phase s = Scanning \<Longrightarrow> rd (lk_queue s) = Some (Some x, q) \<Longrightarrow>
    link_step rd cp put fits send s (s\<lparr>lk_queue := q, lk_phase := Sending x\<rparr>)"
| Empty: "lk_phase s = Scanning \<Longrightarrow> rd (lk_queue s) = Some (None, q) \<Longrightarrow>
    link_step rd cp put fits send s (s\<lparr>lk_queue := q, lk_phase := Finished True\<rparr>)"
| Sent: "lk_phase s = Sending x \<Longrightarrow> send x (lk_net s) = Some (rc, n) \<Longrightarrow>
    rc = kTicosdNetworkResult_OK \<or> rc = kTicosdNetworkResult_ErrorNoRetry \<Longrightarrow>
    link_step rd cp put fits send s (s\<lparr>lk_net := n, lk_phase := Settled x\<rparr>)"
| Failed: "lk_phase s = Sending x \<Longrightarrow> send x (lk_net s) = Some (rc, n) \<Longrightarrow> rc = kTicosdNetworkResult_ErrorRetryLater \<Longrightarrow>
    link_step rd cp put fits send s (s\<lparr>lk_net := n, lk_phase := Finished False\<rparr>)"
| Complete: "lk_phase s = Settled x \<Longrightarrow> cp (lk_queue s) = Some (b, q) \<Longrightarrow>
    link_step rd cp put fits send s (s\<lparr>lk_queue := q, lk_phase := Scanning, lk_completed := lk_completed s @ [x]\<rparr>)"
| Wake: "lk_phase s = Finished ok \<Longrightarrow> link_step rd cp put fits send s (s\<lparr>lk_phase := Scanning\<rparr>)"

inductive_cases link_stepE: "link_step rd cp put fits send s s'"

abbreviation link_run where
  "link_run rd cp put fits send \<equiv> (link_step rd cp put fits send)\<^sup>*\<^sup>*"

text \<open>The loop of the program is a run of the main thread.\<close>

lemma read_sends:
  assumes "lk_phase s = Scanning" and "rd (lk_queue s) = Some (Some x, q)" and "send x (lk_net s) = Some (rc, n)"
  shows "rc = kTicosdNetworkResult_ErrorRetryLater \<Longrightarrow>
      link_run rd cp put fits send s (s\<lparr>lk_queue := q, lk_net := n, lk_phase := Finished False\<rparr>)"
    and "rc \<noteq> kTicosdNetworkResult_ErrorRetryLater \<Longrightarrow> cp q = Some (b, q') \<Longrightarrow>
      link_run rd cp put fits send s (s\<lparr>lk_queue := q', lk_net := n, lk_phase := Scanning, lk_completed := lk_completed s @ [x]\<rparr>)"
proof -
  let ?step = "link_step rd cp put fits send"
  let ?s = "s\<lparr>lk_queue := q, lk_phase := Sending x\<rparr>"
  let ?s' = "?s\<lparr>lk_net := n, lk_phase := Settled x\<rparr>"
  have read: "?step s ?s" using assms(1,2) by (rule link_step.Read)
  have sending: "lk_phase ?s = Sending x" "send x (lk_net ?s) = Some (rc, n)" using assms(3) by simp_all
  {
    assume "rc = kTicosdNetworkResult_ErrorRetryLater"
    with link_step.Failed [where send = send, OF sending] read
    have "?step\<^sup>*\<^sup>* s (?s\<lparr>lk_net := n, lk_phase := Finished False\<rparr>)" by (meson r_into_rtranclp rtranclp.rtrancl_into_rtrancl)
    then show "link_run rd cp put fits send s (s\<lparr>lk_queue := q, lk_net := n, lk_phase := Finished False\<rparr>)" by simp
  }
  assume "rc \<noteq> kTicosdNetworkResult_ErrorRetryLater" and cp: "cp q = Some (b, q')"
  then have "rc = kTicosdNetworkResult_OK \<or> rc = kTicosdNetworkResult_ErrorNoRetry" by (cases rc) simp_all
  then have "?step ?s ?s'" by (rule link_step.Sent [where send = send, OF sending])
  moreover have "?step ?s' (?s'\<lparr>lk_queue := q', lk_phase := Scanning, lk_completed := lk_completed ?s' @ [x]\<rparr>)"
    by (rule link_step.Complete) (simp_all add: cp)
  ultimately have "?step\<^sup>*\<^sup>* s (?s'\<lparr>lk_queue := q', lk_phase := Scanning, lk_completed := lk_completed ?s' @ [x]\<rparr>)"
    using read by (meson r_into_rtranclp rtranclp.rtrancl_into_rtrancl)
  then show "link_run rd cp put fits send s
      (s\<lparr>lk_queue := q', lk_net := n, lk_phase := Scanning, lk_completed := lk_completed s @ [x]\<rparr>)" by (cases s) simp
qed

definition finished_link :: "('q, 'm, 'n) link \<Rightarrow> bool \<times> nat \<times> 'q \<times> 'n \<Rightarrow> 'm list \<Rightarrow> ('q, 'm, 'n) link" where
  "finished_link s r sent =
     (case r of (ok, _, q, n) \<Rightarrow> s\<lparr>lk_queue := q, lk_net := n, lk_phase := Finished ok, lk_completed := lk_completed s @ sent\<rparr>)"

definition tx_run where
  "tx_run put fits rd cp send q n r \<longleftrightarrow>
     (\<forall>s. lk_phase s = Scanning \<longrightarrow> lk_queue s = q \<longrightarrow> lk_net s = n \<longrightarrow>
        (\<exists>sent. link_run rd cp put fits send s (finished_link s r sent)))"

lemma tx_loop_runs: "tx_loop rd cp send c q n = Some r \<Longrightarrow> tx_run put fits rd cp send q n r"
proof (rule tx_loop.raw_induct [where P = "\<lambda>rd cp send (c :: nat). tx_run put fits rd cp send"])
  fix loop rd cp send and c :: nat and q n r
  assume IH: "\<And>rd cp send (c :: nat) q n r. loop rd cp send c q n = Some r \<Longrightarrow> tx_run put fits rd cp send q n r"
  assume body: "rd q \<bind> (\<lambda>(entry, q). case entry of None \<Rightarrow> Some (True, c, q, n)
      | Some x \<Rightarrow> send x n \<bind> (\<lambda>(rc, n).
          if rc = kTicosdNetworkResult_OK \<or> rc = kTicosdNetworkResult_ErrorNoRetry
          then cp q \<bind> (\<lambda>(_, q). loop rd cp send (u32_of (c + 1)) q n)
          else Some (False, c, q, n))) = Some r"
  from body obtain e q1 where rd: "rd q = Some (e, q1)" by (auto split: bind_splits)
  show "tx_run put fits rd cp send q n r" unfolding tx_run_def
  proof (intro allI impI, goal_cases)
    case here: (1 s)
    show ?case
    proof (cases e)
      case None
      with body rd have r: "r = (True, c, q1, n)" by simp
      have "link_step rd cp put fits send s (s\<lparr>lk_queue := q1, lk_phase := Finished True\<rparr>)"
        by (rule link_step.Empty) (use rd None here in simp_all)
      moreover have "s\<lparr>lk_queue := q1, lk_phase := Finished True\<rparr> = finished_link s r []"
        using here(3) by (cases s) (simp add: r finished_link_def)
      ultimately have "link_run rd cp put fits send s (finished_link s r [])" by simp
      then show ?thesis ..
    next
      case (Some x)
      with body rd obtain rc n1 where send: "send x n = Some (rc, n1)" by (auto split: bind_splits)
      have front: "lk_phase s = Scanning" "rd (lk_queue s) = Some (Some x, q1)" "send x (lk_net s) = Some (rc, n1)"
        using Some rd send here by simp_all
      show ?thesis
      proof (cases "rc = kTicosdNetworkResult_ErrorRetryLater")
        case True
        with Some rd send body have r: "r = (False, c, q1, n1)" by simp
        have "link_run rd cp put fits send s (finished_link s r [])"
          using read_sends(1) [where rd = rd and send = send, OF front True] by (simp add: r finished_link_def)
        then show ?thesis ..
      next
        case False
        then have settled: "rc = kTicosdNetworkResult_OK \<or> rc = kTicosdNetworkResult_ErrorNoRetry" by (cases rc) simp_all
        with Some rd send body obtain b q2 where cp: "cp q1 = Some (b, q2)" and
          rest: "loop rd cp send (u32_of (c + 1)) q2 n1 = Some r" by (auto split: bind_splits)
        let ?s = "s\<lparr>lk_queue := q2, lk_net := n1, lk_phase := Scanning, lk_completed := lk_completed s @ [x]\<rparr>"
        from IH [OF rest, unfolded tx_run_def, rule_format, of ?s] obtain sent where "link_run rd cp put fits send ?s (finished_link ?s r sent)" by auto
        with read_sends(2) [where rd = rd and send = send and cp = cp, OF front False cp] have "link_run rd cp put fits send s (finished_link ?s r sent)"
          by (rule rtranclp_trans)
        moreover have "finished_link ?s r sent = finished_link s r (x # sent)" by (simp add: finished_link_def split: prod.splits)
        ultimately show ?thesis by metis
      qed
    qed
  qed
qed

section \<open>Order is kept\<close>

text \<open>
  What holds at every moment: the queue represents the entries written and not yet removed, in order, and while an entry is being sent
  it is the first of them and the pending completion is its own.
\<close>

definition link_inv :: "('q \<Rightarrow> 'm list \<Rightarrow> bool) \<Rightarrow> ('q \<Rightarrow> bool) \<Rightarrow> ('q, 'm, 'n) link \<Rightarrow> bool" where
  "link_inv holds armed s \<longleftrightarrow>
     (\<exists>ys. holds (lk_queue s) ys \<and> lk_accepted s = lk_completed s @ ys \<and>
        (\<forall>x. lk_phase s = Sending x \<or> lk_phase s = Settled x \<longrightarrow> armed (lk_queue s) \<and> (\<exists>zs. ys = x # zs)))"

context fifo_queue
begin

lemma link_step_inv:
  assumes "link_step read_head complete_read put room send s s'" and "link_inv rep armed s"
  shows "link_inv rep armed s'"
proof -
  from assms(2) obtain ys where ys: "rep (lk_queue s) ys" "lk_accepted s = lk_completed s @ ys"
    "\<And>x. lk_phase s = Sending x \<or> lk_phase s = Settled x \<Longrightarrow> armed (lk_queue s) \<and> (\<exists>zs. ys = x # zs)"
    unfolding link_inv_def by blast
  from assms(1) show ?thesis
  proof (cases rule: link_step.cases)
    case (Write x b q)
    with write_back [OF ys(1)] have "rep q (ys @ [x])" "armed q = armed (lk_queue s)" by fastforce+
    with Write ys(2,3) show ?thesis unfolding link_inv_def by fastforce
  next
    case (Read x q)
    then obtain zs where zs: "ys = x # zs" using read_empty read_front ys(1) by (cases ys) fastforce+
    with Read read_front [of "lk_queue s" x zs] ys(1) have "rep q (x # zs)" "armed q" by auto
    with Read zs ys(2) show ?thesis unfolding link_inv_def by fastforce
  next
    case (Empty q)
    then have "ys = []" using read_front ys(1) by (cases ys) fastforce+
    with Empty read_empty ys show ?thesis unfolding link_inv_def by fastforce
  next
    case (Complete x b q)
    with ys(3) obtain zs where zs: "ys = x # zs" "armed (lk_queue s)" by blast
    with Complete complete_pop [of "lk_queue s" x zs] ys(1) have "rep q zs" by auto
    with Complete zs ys(2) show ?thesis unfolding link_inv_def by fastforce
  qed (use ys in \<open>auto simp: link_inv_def\<close>)
qed

lemma link_run_inv:
  "link_run read_head complete_read put room send s s' \<Longrightarrow> link_inv rep armed s \<Longrightarrow> link_inv rep armed s'"
  by (induction rule: rtranclp_induct) (auto dest: link_step_inv)

end

text \<open>
  No interleaving loses, repeats or reorders. Let the receiving thread write to the queue at any moment, also while the main thread
  sends the head of the queue, as long as the ring has room for what it writes. Then at every moment the entries the main thread has sent and removed,
  followed by the entries in the queue, are exactly the entries accepted, in the order they were accepted; and once an entry has been sent,
  completing the read succeeds and removes that entry and no other.
\<close>

theorem interleaving_keeps_order:
  assumes "rep q xs" and "s0 = \<lparr>lk_queue = q, lk_phase = Scanning, lk_net = n, lk_accepted = xs, lk_completed = []\<rparr>"
    and "link_run queue_read ticosd_queue_complete_read queue_put room (send_entry env) s0 s"
  shows "\<exists>ys. rep (lk_queue s) ys \<and> lk_accepted s = lk_completed s @ ys \<and>
    (\<forall>x. lk_phase s = Settled x \<longrightarrow>
      (\<exists>zs q'. ys = x # zs \<and> ticosd_queue_complete_read (lk_queue s) = Some (True, q') \<and> rep q' zs))"
proof -
  from assms(1,2) have "link_inv rep can_complete_read s0" by (simp add: link_inv_def)
  from txq.link_run_inv [OF assms(3) this] obtain ys where ys: "rep (lk_queue s) ys" "lk_accepted s = lk_completed s @ ys"
    "\<And>x. lk_phase s = Settled x \<Longrightarrow> can_complete_read (lk_queue s) \<and> (\<exists>zs. ys = x # zs)"
    unfolding link_inv_def by blast
  have "\<exists>zs q'. ys = x # zs \<and> ticosd_queue_complete_read (lk_queue s) = Some (True, q') \<and> rep q' zs"
    if "lk_phase s = Settled x" for x
  proof -
    from ys(3) [OF that] obtain zs where "can_complete_read (lk_queue s)" "ys = x # zs" by blast
    with txq.complete_pop [of "lk_queue s" x zs] ys(1) show ?thesis by blast
  qed
  with ys(1,2) show ?thesis by blast
qed

text \<open>An execution: an entry arrives while the first one is being sent.\<close>

theorem interleaving_keeps_order_witness:
  "\<exists>h q s. ticosd_queue_init blank_env 64 = Some (Some h) \<and> queue_put h sample_event = Some (True, q) \<and>
    link_run queue_read ticosd_queue_complete_read queue_put room (send_entry sample_env)
      \<lparr>lk_queue = q, lk_phase = Scanning, lk_net = sample_state, lk_accepted = [sample_event], lk_completed = []\<rparr> s \<and>
    lk_accepted s = [sample_event, [82, 0]] \<and> lk_phase s = Settled sample_event \<and> lk_completed s = [] \<and>
    (\<exists>q'. ticosd_queue_complete_read (lk_queue s) = Some (True, q') \<and> rep q' [[82, 0]])"
proof -
  let ?step = "link_step queue_read ticosd_queue_complete_read queue_put room (send_entry sample_env)"
  obtain h where h: "ticosd_queue_init blank_env 64 = Some (Some h)" "rep h []" "blank_tail h" "write_ptr h = 0"
    "qsize h = init_size 64"
    using init_blank [of blank_env 64] by (auto simp: blank_env_def blank_store_def)
  have sz: "init_size 64 = 64" "span sample_event = 4" "span [82, 0] = 4" by code_simp+
  have ne: "sample_event \<noteq> []" by (simp add: sample_event_def txdata_bytes_def)
  have "qwords h = 16" using h(5) sz(1) by (simp add: qwords_def)
  then have fits: "write_ptr h + span sample_event + 3 \<le> qwords h" using h(4) sz(2) by simp
  from blank_write [OF h(2,3) ne fits] obtain q where q: "queue_put h sample_event = Some (True, q)" "rep q [sample_event]"
    "blank_tail q" "write_ptr q = 4" "qwords q = 16"
    using \<open>qwords h = 16\<close> h(4) sz(2) by (metis add_0 append_Nil)
  let ?q = "q\<lparr>can_complete_read := True\<rparr>"
  have r: "queue_read q = Some (Some sample_event, ?q)" "rep ?q [sample_event]" "blank_tail ?q"
    using blank_read [OF q(2,3)] by simp_all
  have "write_ptr ?q + span [82, 0] + 3 \<le> qwords ?q" using q(4,5) sz(3) by (simp add: qwords_def)
  from blank_write [OF r(2,3) _ this] obtain q2 where q2: "room ?q [82, 0]" "queue_put ?q [82, 0] = Some (True, q2)" by blast
  have "map_option fst (send_entry sample_env sample_event sample_state) = Some kTicosdNetworkResult_OK" by code_simp
  then obtain n where n: "send_entry sample_env sample_event sample_state = Some (kTicosdNetworkResult_OK, n)" by auto
  let ?s0 = "\<lparr>lk_queue = q, lk_phase = Scanning, lk_net = sample_state, lk_accepted = [sample_event], lk_completed = []\<rparr>"
  let ?s1 = "?s0\<lparr>lk_queue := ?q, lk_phase := Sending sample_event\<rparr>"
  let ?s2 = "?s1\<lparr>lk_queue := q2, lk_accepted := lk_accepted ?s1 @ [[82, 0]]\<rparr>"
  let ?s3 = "?s2\<lparr>lk_net := n, lk_phase := Settled sample_event\<rparr>"
  have "?step ?s0 ?s1" by (rule link_step.Read) (simp_all add: r)
  moreover have "?step ?s1 ?s2" by (rule link_step.Write [where b = True]) (use q2 in simp_all)
  moreover have "?step ?s2 ?s3" by (rule link_step.Sent [where rc = kTicosdNetworkResult_OK]) (simp_all add: n)
  ultimately have run: "?step\<^sup>*\<^sup>* ?s0 ?s3" by (meson r_into_rtranclp rtranclp.rtrancl_into_rtrancl)
  have "\<exists>q'. ticosd_queue_complete_read (lk_queue ?s3) = Some (True, q') \<and> rep q' [[82, 0]]"
    using interleaving_keeps_order [OF q(2) refl run] by fastforce
  with run h(1) q(1) show ?thesis by fastforce
qed

end
