(* ===== verification/Daemon.thy ===== *)
theory Daemon
  imports Plugins Interleaving
begin

text \<open>
  The daemon as a whole (the main function of src/ticosd.c, its options, signals and process id file, and src/main.c): how it
  starts, the steps of its two threads, and how it ends. \<open>None\<close> is undefined behaviour.
\<close>

section \<open>Signals, the process id and the data directory\<close>

record run_flags =
  terminate :: bool
  socket_shut :: bool

definition prv_ticosd_sig_handler :: "int \<Rightarrow> run_flags \<Rightarrow> run_flags" where
  "prv_ticosd_sig_handler sig f = (if sig = SIGUSR1 then f else f\<lparr>terminate := True, socket_shut := True\<rparr>)"

definition PID_FILE :: string where "PID_FILE = ''/var/run/ticosd.pid''"

record process_env =
  daemon_ok :: bool
  pid_open_ok :: bool
  pid_write_ok :: bool
  getpid :: int

text \<open>The buffer of 11 bytes that is written: the number and a line break, cut off by \<^verbatim>\<open>snprintf\<close>, and zeros.\<close>

definition pid_text :: "int \<Rightarrow> byte list" where
  "pid_text pid = (let s = take 10 (show_int pid @ [newline]) in c_bytes s @ replicate (11 - length s) 0)"

definition prv_ticosd_daemonize_process :: "process_env \<Rightarrow> 'j world \<Rightarrow> bool \<times> 'j world" where
  "prv_ticosd_daemonize_process env w =
     (if \<not> daemon_ok env then (False, w)
      else if w_files w PID_FILE \<noteq> None then (False, w)
      else if \<not> pid_open_ok env then (False, w)
      else if \<not> pid_write_ok env then (True, w\<lparr>w_files := (w_files w)(PID_FILE := None)\<rparr>)
      else (True, w\<lparr>w_files := (w_files w)(PID_FILE \<mapsto> pid_text (getpid env))\<rparr>))"

definition ticosd_create_data_dir :: "'j json_c \<Rightarrow> (string \<Rightarrow> bool) \<Rightarrow> 'j world \<Rightarrow> 'j world" where
  "ticosd_create_data_dir J can_create w =
     (case ticosd_get_string J (w_ticosd w) [] ''data_dir'' of
        None \<Rightarrow> w
      | Some data_dir \<Rightarrow>
          if data_dir = [] then w
          else if data_dir \<in> set (w_dirs w) then w
          else if \<not> can_create data_dir then w
          else w\<lparr>w_dirs := data_dir # w_dirs w\<rparr>)"

section \<open>Options\<close>

record options =
  config_file :: string
  daemonize :: bool
  enable_comms :: bool
  disable_comms :: bool
  display_config :: bool
  enable_devmode :: bool
  disable_devmode :: bool

definition no_options :: options where
  "no_options =
     \<lparr>config_file = CONFIG_FILE, daemonize = False, enable_comms = False, disable_comms = False, display_config = False,
      enable_devmode = False, disable_devmode = False\<rparr>"

text \<open>The options in order, as \<^verbatim>\<open>getopt_long\<close> reports them; an option may end the program with an exit code.\<close>

fun ticosd_options :: "(char \<times> string) list \<Rightarrow> options \<Rightarrow> int + options" where
  "ticosd_options [] os = Inr os"
| "ticosd_options ((opt, optarg) # opts) os =
     (if opt = CHR ''c'' then ticosd_options opts (os\<lparr>config_file := optarg\<rparr>)
      else if opt = CHR ''d'' then ticosd_options opts (os\<lparr>disable_comms := True\<rparr>)
      else if opt = CHR ''e'' then ticosd_options opts (os\<lparr>enable_comms := True\<rparr>)
      else if opt = CHR ''h'' then Inl 0
      else if opt = CHR ''s'' then ticosd_options opts (os\<lparr>display_config := True\<rparr>)
      else if opt = CHR ''v'' then Inl 0
      else if opt = CHR ''Z'' then ticosd_options opts (os\<lparr>daemonize := True\<rparr>)
      else if opt = CHR ''M'' then ticosd_options opts (os\<lparr>enable_devmode := True\<rparr>)
      else if opt = CHR ''m'' then ticosd_options opts (os\<lparr>disable_devmode := True\<rparr>)
      else Inl 1)"

section \<open>Starting\<close>

record start_env =
  se_builtin_conf :: string
  se_device_info :: "string option"
  se_can_write :: "string \<Rightarrow> bool"
  se_can_create :: "string \<Rightarrow> bool"
  se_systemd :: systemd
  se_root :: bool
  se_queue :: queue_env
  se_string_ok :: "string \<Rightarrow> bool"
  se_network_ok :: bool
  se_curl_ok :: bool
  se_process :: process_env
  se_thread_ok :: bool

text \<open>
  The daemon with the handle that \<^verbatim>\<open>calloc\<close> returned, whose members are set one by one, and the files of the configuration;
  the program ends early with an exit code, or it runs with its plugins loaded and the network ready.
\<close>

datatype 'j startup =
    Exited int "'j daemon" files
  | Running options "'j daemon" "'j daemon sTicosdPluginDef list" sTicosdNetwork files

definition with_handle :: "('j sTicosd \<Rightarrow> 'j sTicosd) \<Rightarrow> 'j daemon \<Rightarrow> 'j daemon" where
  "with_handle f d = d\<lparr>dm_world := (dm_world d)\<lparr>w_ticosd := f (w_ticosd (dm_world d))\<rparr>\<rparr>"

text \<open>The queue file is the one named by the configuration.\<close>

definition queue_settings :: "('j, 'zs, 'c) daemon_env \<Rightarrow> start_env \<Rightarrow> 'j world \<Rightarrow> queue_env" where
  "queue_settings env senv w =
     (let f = ticosd_generate_rw_filename (de_json env) (de_alloc env) (w_ticosd w) ''queue'' in
      (se_queue senv)\<lparr>queue_file := f,
        file_bytes := (case f of None \<Rightarrow> [] | Some f \<Rightarrow> (case w_files w f of None \<Rightarrow> [] | Some bs \<Rightarrow> bs))\<rparr>)"

definition pid_file_of :: "'j world \<Rightarrow> pid_file" where
  "pid_file_of w = (case w_files w PID_FILE of None \<Rightarrow> Pid_Missing | Some bs \<Rightarrow> Pid_Read (buf_chars bs))"

text \<open>Switching a setting from the command line, which ends the program.\<close>

definition switch_setting ::
  "('j, 'zs, 'c) daemon_env \<Rightarrow> start_env \<Rightarrow> string \<Rightarrow> string \<Rightarrow> bool \<Rightarrow> bool \<Rightarrow> 'j daemon \<Rightarrow> files \<Rightarrow> 'j startup option" where
  "switch_setting env senv key description enable disable d fs =
     (if enable \<and> disable then Some (Exited 1 d fs)
      else do {
        (rc, config, fs, w) \<leftarrow> ticos_set_runtime_bool_and_reload (de_json env) (de_alloc env) (se_can_write senv) (se_systemd senv)
          (se_root senv) (td_config (w_ticosd (dm_world d))) key description enable fs (dm_world d);
        Some (Exited rc (with_handle (\<lambda>t. t\<lparr>td_config := config\<rparr>) (d\<lparr>dm_world := w\<rparr>)) fs)
      })"

text \<open>The queue, which is emptied if data collection is off.\<close>

definition start_queue :: "('j, 'zs, 'c) daemon_env \<Rightarrow> start_env \<Rightarrow> 'j world \<Rightarrow> sTicosdQueue option option" where
  "start_queue env senv w = do {
     let queue_size = (case ticosd_get_integer (de_json env) (w_ticosd w) [] ''queue_size_kib'' of None \<Rightarrow> 0 | Some i \<Rightarrow> i);
     sz \<leftarrow> int_of_c (queue_size * 1024);
     q \<leftarrow> ticosd_queue_init (queue_settings env senv w) sz;
     case q of
       None \<Rightarrow> Some None
     | Some q \<Rightarrow>
         if ticosd_get_boolean (de_json env) (w_ticosd w) [] ''enable_data_collection'' \<noteq> Some True
         then map_option Some (ticosd_queue_reset q) else Some (Some q)
   }"

text \<open>The plugins, the process and the thread.\<close>

definition start_threads ::
  "('j, 'zs, 'c) daemon_env \<Rightarrow> start_env \<Rightarrow> options \<Rightarrow> sTicosdNetwork \<Rightarrow> 'j daemon \<Rightarrow> files \<Rightarrow> 'j startup option" where
  "start_threads env senv os network d fs = do {
     (ps, d) \<leftarrow> ticosd_load_plugins (g_plugins env) d;
     let (ok, w) = (if daemonize os then prv_ticosd_daemonize_process (se_process senv) (dm_world d) else (True, dm_world d));
     let d = d\<lparr>dm_world := w\<rparr>;
     if \<not> ok then Some (Exited 1 d fs)
     else if \<not> se_thread_ok senv then Some (Exited 1 d fs)
     else Some (Running os d ps network fs)
   }"

definition start_services ::
  "('j, 'zs, 'c) daemon_env \<Rightarrow> start_env \<Rightarrow> options \<Rightarrow> 'j daemon \<Rightarrow> files \<Rightarrow> 'j startup option" where
  "start_services env senv os d fs = do {
     q \<leftarrow> start_queue env senv (dm_world d);
     case q of
       None \<Rightarrow> Some (Exited 1 d fs)
     | Some q \<Rightarrow> do {
         let d = with_handle (\<lambda>t. t\<lparr>td_queue := q\<rparr>) d;
         network \<leftarrow> ticosd_network_init (se_string_ok senv) (se_network_ok senv) (se_curl_ok senv)
           (ticosd_get_string (de_json env) (w_ticosd (dm_world d)) []);
         case network of
           None \<Rightarrow> Some (Exited 1 d fs)
         | Some network \<Rightarrow>
             start_threads env senv os network
               (with_handle (\<lambda>t. t\<lparr>td_dev_mode := (ticosd_get_boolean (de_json env) t [] CONFIG_KEY_DEV_MODE = Some True)\<rparr>) d) fs
       }
   }"

definition ticosd_startup ::
  "('j, 'zs, 'c) daemon_env \<Rightarrow> start_env \<Rightarrow> (char \<times> string) list \<Rightarrow> 'j daemon \<Rightarrow> files \<Rightarrow> 'j startup option" where
  "ticosd_startup env senv opts d fs =
     (case ticosd_options opts no_options of
        Inl code \<Rightarrow> Some (Exited code d fs)
      | Inr os \<Rightarrow> do {
          config \<leftarrow> ticosd_config_init (de_json env) (de_alloc env) (se_builtin_conf senv) (config_file os) fs;
          let d = with_handle (\<lambda>t. t\<lparr>td_config := config\<rparr>) d;
          let d = d\<lparr>dm_world := ticosd_create_data_dir (de_json env) (se_can_create senv) (dm_world d)\<rparr>;
          if enable_comms os \<or> disable_comms os
          then switch_setting env senv CONFIG_KEY_DATA_COLLECTION ''data collection'' (enable_comms os) (disable_comms os) d fs
          else if enable_devmode os \<or> disable_devmode os
          then switch_setting env senv CONFIG_KEY_DEV_MODE ''developer mode'' (enable_devmode os) (disable_devmode os) d fs
          else do {
            settings \<leftarrow> ticosd_device_settings_init (de_alloc env) (se_device_info senv);
            case settings of
              None \<Rightarrow> Some (Exited 1 d fs)
            | Some settings \<Rightarrow>
                let d = with_handle (\<lambda>t. t\<lparr>td_settings := settings\<rparr>) d in
                if display_config os then Some (Exited 0 d fs)
                else if \<not> daemonize os \<and> ticosd_check_for_pid_file (pid_file_of (dm_world d)) then Some (Exited 1 d fs)
                else start_services env senv os d fs
          }
        })"

section \<open>Ending\<close>

definition ticosd_shutdown :: "'j daemon sTicosdPluginDef list \<Rightarrow> options \<Rightarrow> 'j daemon \<Rightarrow> 'j daemon" where
  "ticosd_shutdown ps os d =
     (let d = ticosd_destroy_plugins ps d in
      if daemonize os then d\<lparr>dm_world := (dm_world d)\<lparr>w_files := (w_files (dm_world d))(PID_FILE := None)\<rparr>\<rparr> else d)"

section \<open>One binary, two programs\<close>

definition path_basename :: "string \<Rightarrow> string" where
  "path_basename path =
     (let slash = (\<lambda>c. c = CHR ''/''); trimmed = rev (dropWhile slash (rev path)) in
      if path = [] then ''.''
      else if trimmed = [] then ''/''
      else rev (takeWhile (\<lambda>c. \<not> slash c) (rev trimmed)))"

datatype program = Ticosd | Ticosctl

definition program_main :: "string \<Rightarrow> program" where
  "program_main argv0 = (if path_basename argv0 = ''ticosd'' then Ticosd else Ticosctl)"

section \<open>Running\<close>

text \<open>
  The running daemon: \<open>rn_accepted\<close> and \<open>rn_completed\<close> record the entries that messages put into the queue and the entries
  removed after they were sent. A step of the main thread is one operation on the queue or one request, or the end of a
  turn of its loop; a step of the receiving thread is one turn of its own loop, which makes at most one operation on the queue, the only
  state the threads share. The relation \<open>queues\<close> tells what a message may do to the queue.
\<close>

record ('j, 'w) running =
  rn_daemon :: "'j daemon"
  rn_rx :: "byte list"
  rn_net :: "'w net_state"
  rn_loop :: loop_state
  rn_phase :: "byte list phase"
  rn_flags :: run_flags
  rn_accepted :: "byte list list"
  rn_completed :: "byte list list"

abbreviation rn_handle :: "('j, 'w) running \<Rightarrow> 'j sTicosd" where
  "rn_handle s \<equiv> w_ticosd (dm_world (rn_daemon s))"

definition link_of :: "('j, 'w) running \<Rightarrow> (sTicosdQueue, byte list, 'w net_state) link" where
  "link_of s =
     \<lparr>lk_queue = td_queue (rn_handle s), lk_phase = rn_phase s, lk_net = rn_net s, lk_accepted = rn_accepted s, lk_completed = rn_completed s\<rparr>"

inductive daemon_step ::
  "'j json_c \<Rightarrow> ('w, 'k) net_env \<Rightarrow> (nat \<Rightarrow> bool) \<Rightarrow> 'j daemon sTicosdPluginDef list \<Rightarrow>
   (sTicosdQueue \<Rightarrow> byte list list \<Rightarrow> sTicosdQueue \<Rightarrow> bool) \<Rightarrow> ('j, 'w) running \<Rightarrow> ('j, 'w) running \<Rightarrow> bool"
  for J nenv malloc_ok ps queues where
  Message: "\<not> terminate (rn_flags s) \<Longrightarrow> ipc_turn ps r (rn_rx s, rn_daemon s) = Some (rx, d) \<Longrightarrow>
    queues (td_queue (rn_handle s)) new (td_queue (w_ticosd (dm_world d))) \<Longrightarrow>
    daemon_step J nenv malloc_ok ps queues s (s\<lparr>rn_rx := rx, rn_daemon := d, rn_accepted := rn_accepted s @ new\<rparr>)"
| Signal: "daemon_step J nenv malloc_ok ps queues s (s\<lparr>rn_flags := prv_ticosd_sig_handler sig (rn_flags s)\<rparr>)"
| Refused: "rn_phase s = Scanning \<Longrightarrow> ticosd_get_boolean J (rn_handle s) [] ''enable_data_collection'' \<noteq> Some True \<Longrightarrow>
    daemon_step J nenv malloc_ok ps queues s (s\<lparr>rn_phase := Finished True\<rparr>)"
| Transmit: "\<forall>ok. rn_phase s \<noteq> Finished ok \<Longrightarrow> ticosd_get_boolean J (rn_handle s) [] ''enable_data_collection'' = Some True \<Longrightarrow>
    link_step (ticosd_queue_read_head malloc_ok) ticosd_queue_complete_read (\<lambda>_ _. None) (\<lambda>_ _. False) (send_entry nenv) (link_of s) l \<Longrightarrow>
    daemon_step J nenv malloc_ok ps queues s
      (s\<lparr>rn_daemon := with_handle (\<lambda>t. t\<lparr>td_queue := lk_queue l\<rparr>) (rn_daemon s), rn_phase := lk_phase l, rn_net := lk_net l,
          rn_completed := lk_completed l\<rparr>)"
| Turn: "rn_phase s = Finished ok \<Longrightarrow> \<not> terminate (rn_flags s) \<Longrightarrow>
    process_iteration last_wakeup (ticosd_get_integer J (rn_handle s) [] ''refresh_interval_seconds'') ok now False (rn_loop s) =
      Some (slept, ls) \<Longrightarrow>
    daemon_step J nenv malloc_ok ps queues s (s\<lparr>rn_loop := ls, rn_phase := Scanning\<rparr>)"

abbreviation daemon_run where
  "daemon_run J nenv malloc_ok ps queues \<equiv> (daemon_step J nenv malloc_ok ps queues)\<^sup>*\<^sup>*"

definition start_running :: "'j daemon \<Rightarrow> 'w net_state \<Rightarrow> byte list list \<Rightarrow> ('j, 'w) running" where
  "start_running d n xs =
     \<lparr>rn_daemon = d, rn_rx = replicate RX_BUFFER_SIZE 0, rn_net = n, rn_loop = loop_init, rn_phase = Scanning,
      rn_flags = \<lparr>terminate = False, socket_shut = False\<rparr>, rn_accepted = xs, rn_completed = []\<rparr>"

section \<open>Entries in order\<close>

text \<open>
  A turn of the receiving thread makes at most one write to the queue; the executions considered here are those in which this is an
  entry that finds room.
\<close>

lemma turn_writes_one:
  assumes "ipc_turn ps r (rx, d) = Some (rx', d')" and "set ps \<subseteq> set (all_loaded env @ g_plugins env)"
  shows "one_write (td_queue (w_ticosd (dm_world d))) (td_queue (w_ticosd (dm_world d')))"
  using daemon_effects.ipc_turn_effect [OF assms] by (auto simp: message_effect_def writes_one_def one_write_def)


definition adds :: "sTicosdQueue \<Rightarrow> byte list list \<Rightarrow> sTicosdQueue \<Rightarrow> bool" where
  "adds q new q' \<longleftrightarrow> new = [] \<and> q' = q \<or> (\<exists>x b. new = [x] \<and> room q x \<and> queue_put q x = Some (b, q'))"

lemma link_step_alone:
  "link_step rd cp (\<lambda>_ _. None) (\<lambda>_ _. False) send l l' \<Longrightarrow> link_step rd cp put fits send l l'"
  by (erule link_stepE) (auto intro: link_step.intros)

lemma alone_accepted:
  "link_step rd cp (\<lambda>_ _. None) (\<lambda>_ _. False) send l l' \<Longrightarrow> lk_accepted l' = lk_accepted l"
  by (erule link_stepE) auto

lemma daemon_step_link:
  assumes "daemon_step J nenv (\<lambda>_. True) ps adds s s'"
  shows "link_of s' = link_of s \<or> link_of s' = (link_of s)\<lparr>lk_phase := Finished True\<rparr> \<or>
    link_step queue_read ticosd_queue_complete_read queue_put room (send_entry nenv) (link_of s) (link_of s')"
  using assms
proof (cases rule: daemon_step.cases)
  case (Message r rx d new)
  then consider "new = []" "td_queue (w_ticosd (dm_world d)) = td_queue (rn_handle s)" |
    x b where "new = [x]" "room (td_queue (rn_handle s)) x" "queue_put (td_queue (rn_handle s)) x = Some (b, td_queue (w_ticosd (dm_world d)))"
    unfolding adds_def by blast
  then show ?thesis
  proof cases
    case 1
    with Message show ?thesis by (simp add: link_of_def)
  next
    case 2
    have "link_of s' = (link_of s)\<lparr>lk_queue := td_queue (w_ticosd (dm_world d)), lk_accepted := lk_accepted (link_of s) @ [x]\<rparr>"
      using 2(1) Message(1) by (simp add: link_of_def)
    moreover have "link_step queue_read ticosd_queue_complete_read queue_put room (send_entry nenv) (link_of s) \<dots>"
      by (rule link_step.Write) (use 2(2,3) in \<open>simp_all add: link_of_def\<close>)
    ultimately show ?thesis by simp
  qed
next
  case (Signal sig)
  then show ?thesis by (simp add: link_of_def)
next
  case Refused
  then show ?thesis by (simp add: link_of_def)
next
  case (Transmit l)
  then have "link_of s' = l" using alone_accepted [OF Transmit(4)] by (simp add: link_of_def with_handle_def)
  with link_step_alone [OF Transmit(4)] show ?thesis by simp
next
  case (Turn ok)
  then have "link_of s' = (link_of s)\<lparr>lk_phase := Scanning\<rparr>" "lk_phase (link_of s) = Finished ok" by (simp_all add: link_of_def)
  then show ?thesis by (auto intro: link_step.Wake)
qed

lemma daemon_run_inv:
  assumes "daemon_run J nenv (\<lambda>_. True) ps adds s s'" and "link_inv rep can_complete_read (link_of s)"
  shows "link_inv rep can_complete_read (link_of s')"
  using assms
proof (induction rule: rtranclp_induct)
  case (step s1 s2)
  then have inv: "link_inv rep can_complete_read (link_of s1)" by simp
  then have "link_inv rep can_complete_read ((link_of s1)\<lparr>lk_phase := Finished True\<rparr>)" by (auto simp: link_inv_def)
  with daemon_step_link [OF step.hyps(2)] txq.link_step_inv [OF _ inv] inv show ?case by (elim disjE) auto
qed


text \<open>A message with attributes is such a step.\<close>

lemma attributes_step:
  assumes "length (padding :: byte list) = 5" and "CHR 0x00 \<notin> set body" and "\<forall>n. de_alloc env n"
    and "ticosd_get_boolean (de_json env) (rn_handle s) [] ''enable_data_collection'' = Some True"
    and "rep (td_queue (rn_handle s)) xs" and "room (td_queue (rn_handle s)) (attributes_entry ts body)"
    and "25 + length body \<le> RX_BUFFER_SIZE" and "\<not> terminate (rn_flags s)"
  shows "\<exists>s'. daemon_step (de_json env) nenv m (all_loaded env) adds s s' \<and> rn_accepted s' = rn_accepted s @ [attributes_entry ts body]"
proof -
  from attributes_turn [OF assms(1-7) refl disjI1 [OF refl], where cs = "[]" and rx = "rn_rx s" and
      ps = "map loaded [reboot_plugin env, swupdate_plugin env, collectd_def env, coredump_def env]"]
  obtain rx d where turn: "ipc_turn (all_loaded env) (Received (attributes_message padding ts body) []) (rn_rx s, rn_daemon s) = Some (rx, d)" and
    put: "queue_put (td_queue (rn_handle s)) (attributes_entry ts body) = Some (True, td_queue (w_ticosd (dm_world d)))"
    unfolding all_loaded_Cons by auto
  have "adds (td_queue (rn_handle s)) [attributes_entry ts body] (td_queue (w_ticosd (dm_world d)))"
    using put assms(6) by (auto simp: adds_def)
  from daemon_step.Message [where queues = adds, OF assms(8) turn this] show ?thesis by (intro exI conjI) auto
qed


section \<open>With data collection off\<close>

text \<open>A queue that was reset is empty, whatever the file held.\<close>

lemma init_then_reset_empty:
  assumes "ticosd_queue_init env sz = Some (Some q)" and "ticosd_queue_reset q = Some q'"
  shows "ticosd_queue_read_head m q' = Some (None, q')"
proof -
  have q: "qsize q = qsize (opened env sz)" "buf q = buf (opened env sz)"
    using assms(1) by (auto simp: init_opened prv_queue_find_read_write_ptr_def split: bind_splits if_splits)
  from assms(2) obtain b where b: "mem_write (buf q) 0 (replicate (HEADER_LEN * 4) 0) = Some b"
    "q' = q\<lparr>read_ptr := 0, write_ptr := 0, prev_ptr := 0, buf := b\<rparr>"
    by (auto simp: ticosd_queue_reset_def split: bind_splits)
  have wf: "wf_queue q'"
    using opened_wf [of env sz] length_mem_write [OF b(1)] b(2) q by (simp add: wf_queue_def qwords_def)
  have "buf q' ! 0 = 0" using mem_write_SomeD [OF b(1)] b(2) by (simp add: queue_consts nth_append)
  then have "prv_is_msg_valid q' 0 = Some False"
    using wrong_magic_invalid [OF wf, of 0] wf_queue_size(3) [OF wf] by (simp add: queue_consts)
  then show ?thesis using b(2) by (simp add: ticosd_queue_read_head_def)
qed

text \<open>
  Only the first header is erased, so the other messages stay in the file: they come back when data collection is switched on again and a
  new message of the same size as the first one has been sent.
\<close>

definition outcome_reset ::
  "int \<Rightarrow> byte list qop list \<Rightarrow> byte list qop list \<Rightarrow> byte list qres list option" where
  "outcome_reset sz ops ops' = do {
     q \<leftarrow> ticosd_queue_init blank_env sz;
     h \<leftarrow> q;
     (_, h) \<leftarrow> run_ops queue_read ticosd_queue_complete_read queue_put h ops;
     q \<leftarrow> ticosd_queue_init (blank_env\<lparr>file_bytes := buf h\<rparr>) sz;
     h \<leftarrow> q;
     h \<leftarrow> ticosd_queue_reset h;
     q \<leftarrow> ticosd_queue_init (blank_env\<lparr>file_bytes := buf h\<rparr>) sz;
     h \<leftarrow> q;
     (rs, _) \<leftarrow> run_ops queue_read ticosd_queue_complete_read queue_put h ops';
     Some rs
   }"


text \<open>What the initialisation of the plugins leaves alone when data collection is off.\<close>

lemma put_file_ticosd [simp]: "w_ticosd (put_file f x w) = w_ticosd w" by (simp add: put_file_def)

lemma restart_ticosd: "ticosd_restart_service_if_running S u w = (ok, w') \<Longrightarrow> w_ticosd w' = w_ticosd w"
  using restart_files(2) [of S u w] by simp

lemma swupdate_ticosd: "ticosd_swupdate_init J L env w = Some (ok, w') \<Longrightarrow> w_ticosd w' = w_ticosd w"
  by (auto simp: ticosd_swupdate_init_def prv_swupdate_reload_def prv_swupdate_generate_config_def Let_def
      dest!: restart_ticosd split: if_splits bind_splits option.splits prod.splits)

lemma clear_ticosd: "w_ticosd (snd (clear_files env fs b w)) = w_ticosd w"
  by (induction fs arbitrary: b w) (auto simp: Let_def prv_write_empty_file_def)

lemma collectd_ticosd:
  assumes "off J (w_ticosd w)" and "ticosd_collectd_init J env w = Some (ok, h, w')"
  shows "w_ticosd w' = w_ticosd w"
proof -
  have cleared: "w_ticosd v = w_ticosd w" if "prv_clear_config_files_if_not_already_cleared env g w = (b, v)" for g b v
    using clear_ticosd [of env _ False w] that by (metis prv_clear_config_files_if_not_already_cleared_def snd_conv)
  show ?thesis
    using assms by (auto simp: ticosd_collectd_init_def prv_reload_def Let_def dest!: restart_ticosd cleared
        split: if_splits bind_splits prod.splits)
qed

lemma coredump_ticosd: "ticosd_coredump_init J env w = Some (h, w') \<Longrightarrow> w_ticosd w' = w_ticosd w"
  by (auto simp: ticosd_coredump_init_def prv_create_dir_def Let_def split: if_splits bind_splits option.splits prod.splits)

lemma reboot_tx:
  assumes "data_collection env \<noteq> Some True" and "ticosd_reboot_init env st = Some (ok, st')"
  shows "tx st' = tx st"
  using assms
  by (auto simp: ticosd_reboot_init_def prv_run_if_untracked_boot_id_def prv_noop_untracked_boot_id_handler_def Let_def
      split: bind_splits option.splits prod.splits if_splits)

section \<open>Loading\<close>

text \<open>Initialisation that keeps an invariant of the state.\<close>

locale plugin_inits =
  fixes plugins :: "'s sTicosdPluginDef list"
    and invar :: "'s \<Rightarrow> bool"
  assumes init_keeps: "p \<in> set plugins \<Longrightarrow> invar s \<Longrightarrow> plugin_init p s = Some (ok, s') \<Longrightarrow> invar s'"
begin

lemma load_keeps: "ticosd_load_plugins ps s = Some (ps', s') \<Longrightarrow> set ps \<subseteq> set plugins \<Longrightarrow> invar s \<Longrightarrow> invar s'"
  by (induction ps arbitrary: ps' s) (fastforce dest: init_keeps split: bind_splits)+

end

definition untouched :: "'j json_c \<Rightarrow> 'j sTicosd \<Rightarrow> 'j daemon \<Rightarrow> bool" where
  "untouched J t d \<longleftrightarrow> (off J t \<longrightarrow> w_ticosd (dm_world d) = t)"

interpretation daemon_inits: plugin_inits "g_plugins env" "untouched (de_json env) t" for env t
proof
  fix p ok and d d' :: "'a daemon"
  assume p: "p \<in> set (g_plugins env)" and inv: "untouched (de_json env) t d" and run: "plugin_init p d = Some (ok, d')"
  show "untouched (de_json env) t d'" unfolding untouched_def
  proof
    assume off: "off (de_json env) t"
    with inv have t: "w_ticosd (dm_world d) = t" by (simp add: untouched_def)
    from p consider "p = attributes_plugin env" | "p = reboot_plugin env" | "p = swupdate_plugin env" | "p = collectd_def env" |
      "p = coredump_def env" by (auto simp: g_plugins_def)
    then show "w_ticosd (dm_world d') = t"
    proof cases
      case 1
      with run t show ?thesis by (simp add: plugin_defs)
    next
      case 2
      have "tx st' = td_queue t" if "ticosd_reboot_init (reboot_settings env t) (reboot_view (dm_world d)) = Some (ok, st')" for st'
        using reboot_tx [OF _ that] off t by (simp add: reboot_settings_def reboot_view_def)
      with 2 run t show ?thesis by (auto simp: plugin_defs reboot_store_def split: bind_splits)
    next
      case 3
      with run t swupdate_ticosd show ?thesis by (auto simp: plugin_defs split: bind_splits) blast
    next
      case 4
      with run t off collectd_ticosd [of "de_json env" "dm_world d"] show ?thesis by (auto simp: plugin_defs split: bind_splits)
    next
      case 5
      with run t coredump_ticosd show ?thesis by (auto simp: plugin_defs split: bind_splits) blast
    qed
  qed
qed

lemma off_config: "td_config t = td_config t' \<Longrightarrow> ticosd_get_boolean J t k k' = ticosd_get_boolean J t' k k'"
  by (simp add: ticosd_get_boolean_def)

lemma with_handle_ticosd [simp]: "w_ticosd (dm_world (with_handle f d)) = f (w_ticosd (dm_world d))"
  by (simp add: with_handle_def)

lemma start_threads_off:
  assumes "start_threads env senv os network d0 fs = Some (Running os' d ps network' fs')" and "off (de_json env) (w_ticosd (dm_world d0))"
  shows "set ps \<subseteq> set (all_loaded env @ g_plugins env)" and "w_ticosd (dm_world d) = w_ticosd (dm_world d0)"
proof -
  from assms(1) obtain d1 where load: "ticosd_load_plugins (g_plugins env) d0 = Some (ps, d1)" and
    d: "w_ticosd (dm_world d) = w_ticosd (dm_world d1)"
    by (auto simp: start_threads_def prv_ticosd_daemonize_process_def Let_def split: bind_splits if_splits prod.splits)
  show "set ps \<subseteq> set (all_loaded env @ g_plugins env)" by (rule loaded_table [OF load])
  have "untouched (de_json env) (w_ticosd (dm_world d0)) d0" by (simp add: untouched_def)
  from daemon_inits.load_keeps [OF load subset_refl this] assms(2) d
  show "w_ticosd (dm_world d) = w_ticosd (dm_world d0)" by (simp add: untouched_def)
qed

lemma start_services_off:
  assumes "start_services env senv os d0 fs = Some (Running os' d ps network fs')" and "off (de_json env) (w_ticosd (dm_world d0))"
  shows "set ps \<subseteq> set (all_loaded env @ g_plugins env)"
    and "ticosd_queue_read_head m (td_queue (w_ticosd (dm_world d))) = Some (None, td_queue (w_ticosd (dm_world d)))"
    and "off (de_json env) (w_ticosd (dm_world d))"
proof -
  from assms(1) obtain q network' d1 where q: "start_queue env senv (dm_world d0) = Some (Some q)" and
    run: "start_threads env senv os network' d1 fs = Some (Running os' d ps network fs')" and
    d1: "td_config (w_ticosd (dm_world d1)) = td_config (w_ticosd (dm_world d0))" "td_queue (w_ticosd (dm_world d1)) = q"
    by (auto simp: start_services_def Let_def split: bind_splits option.splits)
  from off_config [OF d1(1)] assms(2) have off: "off (de_json env) (w_ticosd (dm_world d1))" by simp
  note started = start_threads_off [OF run off]
  from off started(2) show "off (de_json env) (w_ticosd (dm_world d))" by simp
  from started(1) show "set ps \<subseteq> set (all_loaded env @ g_plugins env)" .
  from q assms(2) obtain sz q0 where "ticosd_queue_init (queue_settings env senv (dm_world d0)) sz = Some (Some q0)"
    "ticosd_queue_reset q0 = Some q" by (auto simp: start_queue_def Let_def split: bind_splits option.splits)
  from init_then_reset_empty [OF this] started(2) d1(2)
  show "ticosd_queue_read_head m (td_queue (w_ticosd (dm_world d))) = Some (None, td_queue (w_ticosd (dm_world d)))" by simp
qed

lemma data_dir_ticosd [simp]: "w_ticosd (ticosd_create_data_dir J c w) = w_ticosd w"
  by (auto simp: ticosd_create_data_dir_def split: option.splits)

lemma startup_services:
  assumes "ticosd_startup env senv opts d0 fs = Some (Running os d ps network fs')"
  obtains d1 where "ticosd_config_init (de_json env) (de_alloc env) (se_builtin_conf senv) (config_file os) fs = Some (td_config (w_ticosd (dm_world d1)))"
    and "start_services env senv os d1 fs = Some (Running os d ps network fs')"
proof -
  have sw: "switch_setting env senv k ds e di d2 fs \<noteq> Some (Running os d ps network fs')" for k ds e di d2
    by (auto simp: switch_setting_def split: bind_splits)
  have os: "start_services env senv os1 d2 fs = Some (Running os d ps network fs') \<Longrightarrow> os1 = os" for os1 d2
    by (auto simp: start_services_def start_threads_def Let_def split: bind_splits option.splits if_splits prod.splits)
  from assms obtain os1 config where opts: "ticosd_options opts no_options = Inr os1" and
    config: "ticosd_config_init (de_json env) (de_alloc env) (se_builtin_conf senv) (config_file os1) fs = Some config"
    by (auto simp: ticosd_startup_def split: sum.splits bind_splits)
  have "\<exists>d1. td_config (w_ticosd (dm_world d1)) = config \<and> start_services env senv os1 d1 fs = Some (Running os d ps network fs')"
    using assms opts config
    by (auto simp: ticosd_startup_def Let_def sw split: bind_splits if_splits option.splits intro!: exI)
  then show thesis using that config os by metis
qed

definition resting :: "'w net_state \<Rightarrow> 'j sTicosd \<Rightarrow> ('j, 'w) running \<Rightarrow> bool" where
  "resting n t s \<longleftrightarrow>
     rn_net s = n \<and> rn_handle s = t \<and> rn_completed s = [] \<and> (rn_phase s = Scanning \<or> (\<exists>ok. rn_phase s = Finished ok))"

lemma resting_step:
  assumes "daemon_step (de_json env) nenv m ps queues s s'" and "resting n t s" and "off (de_json env) t"
    and "set ps \<subseteq> set (all_loaded env @ g_plugins env)"
  shows "resting n t s'"
  using assms(1)
proof (cases rule: daemon_step.cases)
  case (Message r rx d new)
  from daemon_effects.ipc_turn_effect [OF Message(3) assms(4)] assms(2,3) have "w_ticosd (dm_world d) = t"
    by (simp add: message_effect_def writes_one_def resting_def)
  with Message(1) assms(2) show ?thesis by (simp add: resting_def)
qed (use assms(2,3) in \<open>auto simp: resting_def\<close>)

text \<open>
  C7. Nothing is collected with data collection off. When the configuration read at the start does not enable data collection, then
  from the start on, whatever messages and signals arrive, the daemon makes no request, hands no
  entry to the transmit queue and changes nothing in its handle; and the queue, whatever the queue file held, is empty.
\<close>

theorem collection_off_silent:
  assumes "ticosd_startup env senv opts d0 fs = Some (Running os d ps network fs')"
    and "ticosd_config_init (de_json env) (de_alloc env) (se_builtin_conf senv) (config_file os) fs = Some config"
    and "ticosd_config_get_boolean (de_json env) config [] ''enable_data_collection'' \<noteq> Some True"
    and "daemon_run (de_json env) nenv malloc_ok ps queues (start_running d n xs) s"
  shows "rn_net s = n \<and> rn_handle s = w_ticosd (dm_world d) \<and> rn_completed s = [] \<and>
    ticosd_queue_read_head malloc_ok (td_queue (rn_handle s)) = Some (None, td_queue (rn_handle s))"
proof -
  from startup_services [OF assms(1)] obtain d1 where d1:
    "ticosd_config_init (de_json env) (de_alloc env) (se_builtin_conf senv) (config_file os) fs = Some (td_config (w_ticosd (dm_world d1)))"
    "start_services env senv os d1 fs = Some (Running os d ps network fs')" .
  with assms(2,3) have off: "off (de_json env) (w_ticosd (dm_world d1))" by (simp add: ticosd_get_boolean_def)
  note started = start_services_off [OF d1(2) off]
  have "resting n (w_ticosd (dm_world d)) s"
    using assms(4)
  proof (induction rule: rtranclp_induct)
    case (step s1 s2)
    from resting_step [OF step.hyps(2) step.IH started(3,1)] show ?case .
  qed (simp add: resting_def start_running_def)
  with started(2) show ?thesis by (simp add: resting_def)
qed

section \<open>A start without data collection\<close>

definition quiet_conf :: jtree where
  "quiet_conf =
     JObj (FCons ''software_type'' (JStr ''main'') (FCons ''software_version'' (JStr ''1'') (FCons ''base_url'' (JStr ''h'')
       (FCons ''project_key'' (JStr ''k'') (FCons ''queue_size_kib'' (JInt 1) FNil)))))"

definition quiet_start :: start_env where
  "quiet_start =
     \<lparr>se_builtin_conf = print_tree quiet_conf, se_device_info = Some (text_lines [''TICOS_DEVICE_ID=D1'', ''TICOS_HARDWARE_VERSION=H1'']),
      se_can_write = \<lambda>_. True, se_can_create = \<lambda>_. True,
      se_systemd = \<lparr>bus_ok = False, path_encode_ok = \<lambda>_. True, active_state = \<lambda>_. None, restart_unit_ok = \<lambda>_. False,
                     kill_unit_ok = \<lambda>_ _. False\<rparr>,
      se_root = True, se_queue = blank_env, se_string_ok = \<lambda>_. True, se_network_ok = True, se_curl_ok = True,
      se_process = \<lparr>daemon_ok = True, pid_open_ok = True, pid_write_ok = True, getpid = 321\<rparr>, se_thread_ok = True\<rparr>"

definition quiet_config :: "jtree sTicosdConfig" where
  "quiet_config = \<lparr>base = Some quiet_conf, runtime = Some (JObj FNil)\<rparr>"

definition quiet_daemon :: "sTicosdQueue \<Rightarrow> sTicosdQueue \<Rightarrow> jtree daemon" where
  "quiet_daemon q0 q =
     with_handle (\<lambda>_. \<lparr>td_queue = q, td_config = quiet_config,
       td_settings = \<lparr>ds_device_id = ''D1'', ds_hardware_version = ''H1''\<rparr>, td_dev_mode = False\<rparr>) (starting q0)"

fun runs :: "'j startup option \<Rightarrow> bool" where
  "runs (Some (Running os d ps network fs)) = True"
| "runs _ = False"

lemma quiet_config_read: "ticosd_config_init tree_json (\<lambda>_. True) (print_tree quiet_conf) CONFIG_FILE (\<lambda>_. None) = Some quiet_config"
  by code_simp

lemma quiet_settings_read:
  "ticosd_device_settings_init (\<lambda>_. True) (se_device_info quiet_start) = Some (Some \<lparr>ds_device_id = ''D1'', ds_hardware_version = ''H1''\<rparr>)"
  by code_simp

lemma quiet_threads: "runs (start_threads device_env quiet_start no_options network (quiet_daemon q0 q) fs)"
  by code_simp

lemma quiet_lookups:
  "ticosd_config_get_integer tree_json quiet_config [] ''queue_size_kib'' = Some 1"
  "ticosd_config_get_boolean tree_json quiet_config [] ''enable_data_collection'' = None"
  "ticosd_config_get_boolean tree_json quiet_config [] CONFIG_KEY_DEV_MODE = None"
  "ticosd_config_get_string tree_json quiet_config [] ''data_dir'' = None"
  "ticosd_config_generate_rw_filename tree_json (\<lambda>_. True) quiet_config ''queue'' = None"
  "ticosd_config_get_string tree_json quiet_config [] ''software_type'' = Some ''main''"
  "ticosd_config_get_string tree_json quiet_config [] ''software_version'' = Some ''1''"
  "ticosd_config_get_string tree_json quiet_config [] ''base_url'' = Some ''h''"
  "ticosd_config_get_string tree_json quiet_config [] ''project_key'' = Some ''k''"
  by code_simp+

lemma quiet_queue:
  assumes "td_config (w_ticosd w) = quiet_config"
  shows "\<exists>q. start_queue device_env quiet_start w = Some (Some q)"
proof -
  let ?qenv = "queue_settings device_env quiet_start w"
  have no_file: "queue_file ?qenv = None" "mutex_ok ?qenv"
    by (simp_all add: queue_settings_def device_env_def ticosd_generate_rw_filename_def assms quiet_lookups quiet_start_def blank_env_def)
  then have "blank_store ?qenv" by (simp add: blank_store_def)
  then obtain h where h: "ticosd_queue_init ?qenv 1024 = Some (Some h)" "rep h []"
    using init_blank [of ?qenv 1024] no_file by metis
  have "ticosd_queue_reset h \<noteq> None"
    using wf_queue_size(1,3) [of h] h(2) by (auto simp: ticosd_queue_reset_def rep_def mem_write_def queue_consts)
  with h(1) show ?thesis
    by (auto simp: start_queue_def device_env_def int_of_c_def INT_MAX_def INT_MIN_def ticosd_get_integer_def ticosd_get_boolean_def
        assms quiet_lookups)
qed

lemma quiet_starts:
  "\<exists>d ps network fs. ticosd_startup device_env quiet_start [] (starting q0) (\<lambda>_. None) = Some (Running no_options d ps network fs)"
proof -
  let ?d = "with_handle (\<lambda>t. t\<lparr>td_config := quiet_config, td_settings := \<lparr>ds_device_id = ''D1'', ds_hardware_version = ''H1''\<rparr>\<rparr>) (starting q0)"
  have env: "de_json device_env = tree_json" "de_alloc device_env = (\<lambda>_. True)" by (simp_all add: device_env_def)
  obtain q where q: "start_queue device_env quiet_start (dm_world ?d) = Some (Some q)"
    using quiet_queue [of "dm_world ?d"] by auto
  obtain network where network: "ticosd_network_init (se_string_ok quiet_start) (se_network_ok quiet_start) (se_curl_ok quiet_start)
      (ticosd_get_string tree_json t []) = Some (Some network)" if "td_config t = quiet_config" for t
    by (simp add: ticosd_network_init_def quiet_start_def ticosd_get_string_def quiet_lookups)
  have shape: "with_handle (\<lambda>t. t\<lparr>td_dev_mode :=
      (ticosd_config_get_boolean tree_json (td_config t) [] CONFIG_KEY_DEV_MODE = Some True)\<rparr>) (with_handle (\<lambda>t. t\<lparr>td_queue := q\<rparr>) ?d) = quiet_daemon q0 q"
    by (simp add: with_handle_def quiet_daemon_def quiet_lookups)
  obtain d ps fs where run: "start_threads device_env quiet_start no_options network (quiet_daemon q0 q) (\<lambda>_. None) =
      Some (Running no_options d ps network fs)"
    using quiet_threads [of network q0 q "\<lambda>_. None"]
    by (auto simp: start_threads_def Let_def elim!: runs.elims split: bind_splits if_splits prod.splits)
  have "start_services device_env quiet_start no_options ?d (\<lambda>_. None) = Some (Running no_options d ps network fs)"
    using q network run shape by (simp add: start_services_def env ticosd_get_boolean_def quiet_lookups)
  moreover have "with_handle (\<lambda>t. t\<lparr>td_settings := \<lparr>ds_device_id = ''D1'', ds_hardware_version = ''H1''\<rparr>\<rparr>)
      (with_handle (\<lambda>t. t\<lparr>td_config := quiet_config\<rparr>) (starting q0)) = ?d"
    by (simp add: with_handle_def)
  moreover have "ticosd_create_data_dir tree_json c w = w" if "td_config (w_ticosd w) = quiet_config" for c and w :: "jtree world"
    using that by (simp add: ticosd_create_data_dir_def ticosd_get_string_def quiet_lookups)
  moreover have "ticosd_check_for_pid_file (pid_file_of (dm_world ?d)) = False"
    by (simp add: pid_file_of_def with_handle_def starting_def PID_FILE_def ticosd_check_for_pid_file_def)
  ultimately show ?thesis
    using quiet_config_read quiet_settings_read
    by (simp add: ticosd_startup_def env no_options_def quiet_start_def)
qed

theorem collection_off_silent_witness:
  "\<exists>d ps network fs s. ticosd_startup device_env quiet_start [] (starting capture_queue) (\<lambda>_. None) = Some (Running no_options d ps network fs) \<and>
    daemon_run tree_json sample_env (\<lambda>_. True) ps (\<lambda>_ _ _. True) (start_running d sample_state []) s \<and>
    rn_phase s = Finished True \<and> rn_flags s = \<lparr>terminate = True, socket_shut = True\<rparr> \<and>
    rn_net s = sample_state \<and> ticosd_queue_read_head (\<lambda>_. True) (td_queue (rn_handle s)) = Some (None, td_queue (rn_handle s))"
proof -
  obtain d ps network fs where start: "ticosd_startup device_env quiet_start [] (starting capture_queue) (\<lambda>_. None) =
      Some (Running no_options d ps network fs)" using quiet_starts by blast
  have json: "de_json device_env = tree_json" by (simp add: device_env_def)
  have config: "ticosd_config_init (de_json device_env) (de_alloc device_env) (se_builtin_conf quiet_start) (config_file no_options) (\<lambda>_. None) =
      Some quiet_config"
    using quiet_config_read by (simp add: device_env_def quiet_start_def no_options_def)
  have off: "ticosd_config_get_boolean (de_json device_env) quiet_config [] ''enable_data_collection'' \<noteq> Some True"
    by (simp add: json quiet_lookups)
  obtain d1 where
    c: "ticosd_config_init (de_json device_env) (de_alloc device_env) (se_builtin_conf quiet_start) (config_file no_options) (\<lambda>_. None) =
      Some (td_config (w_ticosd (dm_world d1)))" and
    run: "start_services device_env quiet_start no_options d1 (\<lambda>_. None) = Some (Running no_options d ps network fs)"
    by (rule startup_services [OF start])
  have d1: "td_config (w_ticosd (dm_world d1)) = quiet_config" using c config by (simp only: option.inject)
  have "ticosd_get_boolean tree_json (w_ticosd (dm_world d)) [] ''enable_data_collection'' \<noteq> Some True"
    using start_services_off(3) [OF run] d1 by (simp add: json ticosd_get_boolean_def quiet_lookups)
  let ?step = "daemon_step tree_json sample_env (\<lambda>_. True) ps (\<lambda>_ _ _. True)"
  let ?s0 = "start_running d sample_state []"
  let ?s1 = "?s0\<lparr>rn_phase := Finished True\<rparr>"
  let ?s2 = "?s1\<lparr>rn_flags := prv_ticosd_sig_handler 15 (rn_flags ?s1)\<rparr>"
  have "?step ?s0 ?s1"
    by (rule daemon_step.Refused) (use \<open>ticosd_get_boolean _ _ _ _ \<noteq> _\<close> in \<open>simp_all add: start_running_def\<close>)
  moreover have "?step ?s1 ?s2" by (rule daemon_step.Signal)
  ultimately have "?step\<^sup>*\<^sup>* ?s0 ?s2" by (meson r_into_rtranclp rtranclp.rtrancl_into_rtrancl)
  moreover have "rn_phase ?s2 = Finished True" "rn_flags ?s2 = \<lparr>terminate = True, socket_shut = True\<rparr>"
    by (simp_all add: start_running_def prv_ticosd_sig_handler_def SIGUSR1_def)
  ultimately obtain s where s: "?step\<^sup>*\<^sup>* ?s0 s" "rn_phase s = Finished True" "rn_flags s = \<lparr>terminate = True, socket_shut = True\<rparr>"
    by blast
  from collection_off_silent [OF start config off s(1) [folded json]] start s show ?thesis by blast
qed

section \<open>Signals reach the daemon\<close>

lemma pid_text_read:
  assumes "0 \<le> pid" and "pid < 2 ^ 31"
  shows "ticosd_get_pid (Pid_Read (buf_chars (pid_text pid))) = pid"
proof -
  define r where "r = take (10 - length (show_int pid)) [newline]"
  let ?s = "show_int pid @ r"
  have len: "length (show_int pid) \<le> 10" using length_show_nat [of "nat pid" 9] assms by (simp add: show_int_def)
  then have s: "take 10 (show_int pid @ [newline]) = ?s" by (simp add: r_def)
  have nl: "r = [] \<or> r = [newline]" by (cases "10 - length (show_int pid)") (simp_all add: r_def)
  have "CHR 0x00 \<notin> set (show_int pid)"
    using show_nat_digits [of "nat pid"] assms by (auto simp: show_int_def is_digit_def)
  then have nul: "CHR 0x00 \<notin> set ?s" using nl by (auto simp: newline_def)
  have "length ?s \<le> 10" using len by (simp add: r_def)
  moreover have "buf_chars (pid_text pid) = ?s @ replicate (11 - length ?s) (CHR 0x00)"
    unfolding pid_text_def s using buf_chars_c_bytes [of ?s] by (simp add: Let_def buf_chars_def char_of_def)
  ultimately have "c_str (take 11 (buf_chars (pid_text pid))) = ?s"
    using nul by (simp add: c_str_def takeWhile_append)
  moreover have "scan_long ?s = Some (pid, r)"
    by (rule scan_show_int) (use assms nl in \<open>auto simp: newline_def is_digit_def\<close>)
  ultimately show ?thesis using int32_id [of pid] assms by (simp add: ticosd_get_pid_def atoi_def)
qed

text \<open>
  C29. The tool finds the daemon. After the daemon has written its process id, \<^verbatim>\<open>ticosctl sync\<close> reads exactly this id from the file and sends the signal
  to it, which makes the daemon empty its queue and does not end it.
\<close>

theorem sync_reaches_daemon:
  assumes "prv_ticosd_daemonize_process penv w = (True, w')" and "pid_write_ok penv"
    and "0 < getpid penv" and "getpid penv < 2 ^ 31" and "ct_pid_file cenv = pid_file_of w'"
  shows "ticosd_get_pid (ct_pid_file cenv) = getpid penv \<and>
    prv_cmd_sync cenv h st =
      (if ct_kill_ok cenv (getpid penv) then Some (0, st\<lparr>cs_signals := cs_signals st + 1\<rparr>) else Some (- 1, st)) \<and>
    prv_ticosd_sig_handler SIGUSR1 rf = rf"
proof -
  have "pid_file_of w' = Pid_Read (buf_chars (pid_text (getpid penv)))"
    using assms(1,2) by (auto simp: prv_ticosd_daemonize_process_def pid_file_of_def split: if_splits)
  then have pid: "ticosd_get_pid (pid_file_of w') = getpid penv" using pid_text_read assms(3,4) by simp
  with assms(3,5) show ?thesis
    by (simp add: prv_cmd_sync_def send_flush_def ticosd_send_flush_queue_signal_def prv_ticosd_sig_handler_def Let_def)
qed

theorem sync_reaches_daemon_witness:
  "ticosd_get_pid (ct_pid_file (shell_env\<lparr>ct_pid_file := pid_file_of (snd (prv_ticosd_daemonize_process (se_process quiet_start) (capture_world capture_queue)))\<rparr>)) = 321"
proof -
  obtain w' where w': "prv_ticosd_daemonize_process (se_process quiet_start) (capture_world capture_queue) = (True, w')"
    by (simp add: prv_ticosd_daemonize_process_def quiet_start_def capture_world_def)
  have "pid_write_ok (se_process quiet_start)" "0 < getpid (se_process quiet_start)" "getpid (se_process quiet_start) < 2 ^ 31"
    "getpid (se_process quiet_start) = 321" by (simp_all add: quiet_start_def)
  with sync_reaches_daemon [OF w', of "shell_env\<lparr>ct_pid_file := pid_file_of w'\<rparr>"] w' show ?thesis by simp
qed

end
